(* ===== verification/Golos_Prelude.thy ===== *)
theory Golos_Prelude
  imports Main "HOL-Library.Word"
begin

text \<open>
  Shared vocabulary of the development: the exceptions of the node as an error datatype, results
  of fallible code, the check combinators that the macros of
  \<^verbatim>\<open>libraries/protocol/include/golos/protocol/exceptions.hpp\<close> and
  \<^verbatim>\<open>validate_helper.hpp\<close> expand to, the checked 64-bit arithmetic of \<open>share_type\<close>, and
  the keyed tables that stand for the chain's indices, with the interface every client of a
  table relies on.
\<close>

named_theorems result_simps \<open>unfolding fallible code\<close>
named_theorems ledger_simps \<open>effect of the ledger primitives\<close>
named_theorems frame_simps \<open>fields that a primitive leaves alone\<close>

section \<open>Exceptions and results\<close>

text \<open>
  One constructor per exception class that the modelled code throws. The string of
  \<open>Invalid_Parameter\<close> is the parameter's name, that of \<open>Logic_Exception\<close> the source's error id.
  \<open>Undefined_Behaviour\<close> marks the inputs on which the C++ has no defined result.
\<close>

datatype golos_error =
    Assert_Exception
  | Overflow_Exception
  | Divide_By_Zero_Exception
  | Invalid_Value
  | Invalid_Parameter string
  | Logic_Exception string
  | Missing_Object string
  | Object_Already_Exist string
  | Insufficient_Funds string
  | Unsupported_Operation
  | Bandwidth_Exception string
  | Unlinkable_Block
  | Uniqueness_Violated
  | Database_Corrupted string
  | Undo_Database_Exception
  | Undefined_Behaviour
  | Tx_Missing_Auth string
  | Tx_Irrelevant_Sig
  | Tx_Irrelevant_Approval
  | Tx_Duplicate_Sig
  | Transaction_Exception
  | Tx_Invalid_Operation nat golos_error

type_synonym 'a result = "golos_error + 'a"

definition rbind :: "'a result \<Rightarrow> ('a \<Rightarrow> 'b result) \<Rightarrow> 'b result" where
  "rbind m f = (case m of Inl e \<Rightarrow> Inl e | Inr x \<Rightarrow> f x)"

lemma rbind_simps [simp]:
  "rbind (Inl e) f = Inl e"
  "rbind (Inr x) f = f x"
  by (simp_all add: rbind_def)

lemma rbind_Inr [simp]: "rbind m f = Inr y \<longleftrightarrow> (\<exists>x. m = Inr x \<and> f x = Inr y)"
  by (cases m) simp_all

lemma rbind_Inr_rev [simp]: "Inr y = rbind m f \<longleftrightarrow> (\<exists>x. m = Inr x \<and> f x = Inr y)"
  by (cases m) auto

lemma rbind_Inl: "rbind m f = Inl e \<longleftrightarrow> m = Inl e \<or> (\<exists>x. m = Inr x \<and> f x = Inl e)"
  by (cases m) simp_all

lemma rbind_assoc: "rbind (rbind m f) g = rbind m (\<lambda>x. rbind (f x) g)"
  by (cases m) simp_all

lemma rbind_return [simp]: "rbind m Inr = m"
  by (cases m) simp_all

definition check :: "bool \<Rightarrow> golos_error \<Rightarrow> unit result" where
  "check b e = (if b then Inr () else Inl e)"

lemma check_Inr [simp]: "check b e = Inr u \<longleftrightarrow> b"
  by (simp add: check_def)

lemma check_Inl [simp]: "check b e = Inl e' \<longleftrightarrow> \<not> b \<and> e' = e"
  by (auto simp: check_def)

lemma check_True [simp]: "check True e = Inr ()"
  by (simp add: check_def)

lemma check_False [simp]: "check False e = Inl e"
  by (simp add: check_def)

abbreviation check_value :: "bool \<Rightarrow> unit result" where
  "check_value b \<equiv> check b Invalid_Value"

abbreviation check_assert :: "bool \<Rightarrow> unit result" where
  "check_assert b \<equiv> check b Assert_Exception"

abbreviation check_logic :: "string \<Rightarrow> bool \<Rightarrow> unit result" where
  "check_logic errid b \<equiv> check b (Logic_Exception errid)"

text \<open>
  \<open>GOLOS_CHECK_PARAM\<close>: an \<open>invalid_value\<close> thrown by the validator becomes an
  \<open>invalid_parameter\<close> that names the parameter; any other exception passes through.
\<close>

definition check_param :: "string \<Rightarrow> 'a result \<Rightarrow> 'a result" where
  "check_param p m = (case m of Inl Invalid_Value \<Rightarrow> Inl (Invalid_Parameter p) | _ \<Rightarrow> m)"

lemma check_param_Inr [simp]: "check_param p m = Inr x \<longleftrightarrow> m = Inr x"
  by (auto simp: check_param_def split: sum.splits golos_error.splits)

lemma check_param_value [simp]:
  "check_param p (Inl Invalid_Value) = Inl (Invalid_Parameter p)"
  "check_param p (Inr x) = Inr x"
  by (simp_all add: check_param_def)

lemma check_param_other [simp]:
  "e \<noteq> Invalid_Value \<Longrightarrow> check_param p (Inl e) = Inl e"
  by (cases e) (simp_all add: check_param_def)

text \<open>A sequence of statements each of which only may throw.\<close>

fun checks :: "unit result list \<Rightarrow> unit result" where
  "checks [] = Inr ()"
| "checks (m # ms) = (case m of Inl e \<Rightarrow> Inl e | Inr _ \<Rightarrow> checks ms)"

lemma unit_result_Inr: "(m = Inr u) \<longleftrightarrow> (m = Inr ())"
  by simp

lemma checks_Cons_Inr: "checks (m # ms) = Inr u \<longleftrightarrow> m = Inr () \<and> checks ms = Inr ()"
  by (cases m) simp_all

declare checks.simps(2) [simp del]

lemma checks_Cons [simp]:
  "checks (Inl e # ms) = Inl e"
  "checks (Inr u # ms) = checks ms"
  by (simp_all add: checks.simps(2))

declare checks_Cons_Inr [simp]

lemma checks_Inr: "checks ms = Inr u \<longleftrightarrow> (\<forall>m \<in> set ms. m = Inr ())"
  by (induction ms) simp_all

lemma checks_append: "checks (xs @ ys) = rbind (checks xs) (\<lambda>_. checks ys)"
  by (induction xs) (auto simp: checks.simps(2) split: sum.splits)

text \<open>The first failing statement decides the exception.\<close>

lemma checks_Inl_first:
  assumes "checks ms = Inl e"
  shows "\<exists>xs ys. ms = xs @ Inl e # ys \<and> checks xs = Inr ()"
  using assms
proof (induction ms)
  case Nil
  then show ?case by simp
next
  case (Cons m ms)
  show ?case
  proof (cases m)
    case (Inl e')
    with Cons.prems have "m # ms = [] @ Inl e # ms" by simp
    then show ?thesis by (metis checks.simps(1))
  next
    case (Inr u)
    with Cons.prems have "checks ms = Inl e" by simp
    then obtain xs ys where "ms = xs @ Inl e # ys" "checks xs = Inr ()"
      using Cons.IH by blast
    with Inr have "m # ms = (m # xs) @ Inl e # ys \<and> checks (m # xs) = Inr ()" by simp
    then show ?thesis by blast
  qed
qed

section \<open>Machine integers\<close>

definition int64_ok :: "int \<Rightarrow> bool" where
  "int64_ok x \<longleftrightarrow> - (2 ^ 63) \<le> x \<and> x < 2 ^ 63"

text \<open>
  \<open>share_type\<close> is \<open>safe<int64_t>\<close>: an operation whose exact result does not fit in 64 bits throws.
\<close>

definition safe64 :: "int \<Rightarrow> int result" where
  "safe64 x = (if int64_ok x then Inr x else Inl Overflow_Exception)"

lemma safe64_Inr [simp]: "safe64 x = Inr y \<longleftrightarrow> int64_ok x \<and> y = x"
  by (auto simp: safe64_def)

lemma safe64_ok [simp]: "int64_ok x \<Longrightarrow> safe64 x = Inr x"
  by (simp add: safe64_def)

lemma int64_ok_bounded: "0 \<le> x \<Longrightarrow> x \<le> y \<Longrightarrow> int64_ok y \<Longrightarrow> int64_ok x"
  by (simp add: int64_ok_def)

text \<open>Division of the source language truncates towards zero.\<close>

definition cdiv :: "int \<Rightarrow> int \<Rightarrow> int" where
  "cdiv a b = sgn a * sgn b * (\<bar>a\<bar> div \<bar>b\<bar>)"

definition cmod :: "int \<Rightarrow> int \<Rightarrow> int" where
  "cmod a b = a - cdiv a b * b"

lemma cdiv_nonneg: "0 \<le> a \<Longrightarrow> 0 < b \<Longrightarrow> cdiv a b = a div b"
  by (cases "a = 0") (simp_all add: cdiv_def sgn_if)

lemma cmod_nonneg: "0 \<le> a \<Longrightarrow> 0 < b \<Longrightarrow> cmod a b = a mod b"
  by (simp add: cmod_def cdiv_nonneg minus_div_mult_eq_mod)

text \<open>
  128-bit unsigned intermediate results: a signed 64-bit value is sign-extended on conversion
  (\<^verbatim>\<open>uint128lh_t.hpp\<close>, the constructor from \<open>int64_t\<close>), products wrap at 128 bits, division is
  unsigned, and \<open>to_uint64\<close> followed by a conversion to \<open>int64_t\<close> keeps the low 64 bits.
\<close>

abbreviation u128 :: "int \<Rightarrow> 128 word" where
  "u128 \<equiv> word_of_int"

definition mul_div_u128 :: "int \<Rightarrow> int \<Rightarrow> int \<Rightarrow> 128 word" where
  "mul_div_u128 a b c = (u128 a * u128 b) div u128 c"

definition to_int64 :: "128 word \<Rightarrow> int" where
  "to_int64 w = sint (ucast w :: 64 word)"

lemma uint_u128: "0 \<le> x \<Longrightarrow> x < 2 ^ 128 \<Longrightarrow> uint (u128 x) = x"
  by (simp add: take_bit_int_eq_self unsigned_of_int)

lemma uint_u128_mult:
  assumes "0 \<le> a" "a < 2 ^ 63" "0 \<le> b" "b < 2 ^ 63"
  shows "uint (u128 a * u128 b) = a * b"
proof -
  have "a * b < 2 ^ 63 * 2 ^ 63" using assms by (intro mult_strict_mono') auto
  then have "a * b < 2 ^ 128" by simp
  moreover have "u128 a * u128 b = u128 (a * b)" by simp
  ultimately show ?thesis using assms by (metis mult_nonneg_nonneg uint_u128)
qed

lemma uint_mul_div_u128:
  assumes "0 \<le> a" "a < 2 ^ 63" "0 \<le> b" "b < 2 ^ 63" "0 \<le> c" "c < 2 ^ 63"
  shows "uint (mul_div_u128 a b c) = a * b div c"
  using assms by (simp add: mul_div_u128_def uint_div uint_u128_mult uint_u128)

lemma to_int64_small:
  assumes "uint w < 2 ^ 63"
  shows "to_int64 w = uint w"
proof -
  have "- (2 ^ 63) \<le> uint w" by (rule order_trans [of _ 0]) simp_all
  with assms have "signed_take_bit 63 (uint w) = uint w"
    by (intro signed_take_bit_int_eq_self)
  with assms show ?thesis
    by (simp add: to_int64_def unsigned_ucast_eq take_bit_int_eq_self sint_uint)
qed

lemma to_int64_mul_div:
  assumes "0 \<le> a" "a < 2 ^ 63" "0 \<le> b" "b < 2 ^ 63" "0 \<le> c" "c < 2 ^ 63" "a * b div c < 2 ^ 63"
  shows "to_int64 (mul_div_u128 a b c) = a * b div c"
  using assms by (simp add: to_int64_small uint_mul_div_u128)

text \<open>Division of safe integers: by zero and of the least number by \<open>- 1\<close> it throws.\<close>

definition safe_div :: "int \<Rightarrow> int \<Rightarrow> int result" where
  "safe_div a b = (if b = 0 then Inl Divide_By_Zero_Exception else safe64 (cdiv a b))"

lemma safe_div_Inr [simp]: "safe_div a b = Inr x \<longleftrightarrow> b \<noteq> 0 \<and> int64_ok (cdiv a b) \<and> x = cdiv a b"
  by (auto simp: safe_div_def)

section \<open>Strings\<close>

text \<open>\<open>boost::split\<close> at every occurrence of a character: adjacent separators give empty parts.\<close>

fun split_on :: "'a \<Rightarrow> 'a list \<Rightarrow> 'a list list" where
  "split_on c [] = [[]]"
| "split_on c (x # xs) = (if x = c then [] # split_on c xs
     else (x # hd (split_on c xs)) # tl (split_on c xs))"

lemma split_on_nonempty [simp]: "split_on c xs \<noteq> []"
  by (cases xs) auto

lemma split_on_absent: "c \<notin> set xs \<Longrightarrow> split_on c xs = [xs]"
  by (induction xs) auto

lemma split_on_found: "c \<notin> set xs \<Longrightarrow> split_on c (xs @ c # ys) = xs # split_on c ys"
  by (induction xs) auto

fun join_with :: "'a \<Rightarrow> 'a list list \<Rightarrow> 'a list" where
  "join_with c [] = []"
| "join_with c [x] = x"
| "join_with c (x # y # zs) = x @ c # join_with c (y # zs)"

lemma join_split: "join_with c (split_on c xs) = xs"
proof (induction xs)
  case (Cons x xs)
  obtain y ys where "split_on c xs = y # ys" by (cases "split_on c xs") auto
  with Cons show ?case by (cases ys) auto
qed simp


end
