(* ===== verification/Uint128lh.thy ===== *)
theory Uint128lh
  imports Golos_Prelude
begin

unbundle bit_operations_syntax

text \<open>
  The two-word unsigned 128-bit integer of
  \<^verbatim>\<open>libraries/protocol/include/golos/protocol/uint128lh_t.hpp\<close>, the type of asset symbols. Every
  operation whose body the header gives is modelled on the pair of 64-bit halves the class keeps;
  \<open>u128_abs\<close> reads such a pair as one 128-bit word, and the lemmas show that the carry, borrow and
  comparison code of the class computes what the 128-bit operation of the same name does. The
  rest of the development uses plain 128-bit words on the strength of these lemmas.
\<close>

section \<open>The class\<close>

record uint128lh =
  lo :: "64 word"
  hi :: "64 word"

definition uint128lh_of_int64 :: "64 word \<Rightarrow> uint128lh" where
  "uint128lh_of_int64 l = \<lparr>lo = l, hi = - (if sint l < 0 then 1 else 0)\<rparr>"

definition uint128lh_of_uint64 :: "64 word \<Rightarrow> uint128lh" where
  "uint128lh_of_uint64 l = \<lparr>lo = l, hi = 0\<rparr>"

definition u_eq :: "uint128lh \<Rightarrow> uint128lh \<Rightarrow> bool" where
  "u_eq a b \<longleftrightarrow> hi a = hi b \<and> lo a = lo b"

definition u_less :: "uint128lh \<Rightarrow> uint128lh \<Rightarrow> bool" where
  "u_less a b \<longleftrightarrow> (if hi a = hi b then lo a < lo b else hi a < hi b)"

definition u_le :: "uint128lh \<Rightarrow> uint128lh \<Rightarrow> bool" where
  "u_le a b \<longleftrightarrow> u_eq a b \<or> u_less a b"

definition u_is_zero :: "uint128lh \<Rightarrow> bool" where
  "u_is_zero a \<longleftrightarrow> \<not> (hi a \<noteq> 0 \<or> lo a \<noteq> 0)"

definition u_not :: "uint128lh \<Rightarrow> uint128lh" where
  "u_not a = \<lparr>lo = NOT (lo a), hi = NOT (hi a)\<rparr>"

definition u_inc :: "uint128lh \<Rightarrow> uint128lh" where
  "u_inc a = (let l = lo a + 1 in \<lparr>lo = l, hi = hi a + (if l = 0 then 1 else 0)\<rparr>)"

definition u_dec :: "uint128lh \<Rightarrow> uint128lh" where
  "u_dec a = \<lparr>lo = lo a - 1, hi = hi a - (if lo a = 0 then 1 else 0)\<rparr>"

definition u_neg :: "uint128lh \<Rightarrow> uint128lh" where
  "u_neg a = u_inc (u_not a)"

definition u_add :: "uint128lh \<Rightarrow> uint128lh \<Rightarrow> uint128lh" where
  "u_add a u = (let l = lo a + lo u
     in \<lparr>lo = l, hi = hi a + (hi u + (if l < lo a then 1 else 0))\<rparr>)"

definition u_sub :: "uint128lh \<Rightarrow> uint128lh \<Rightarrow> uint128lh" where
  "u_sub a u = u_add a (u_neg u)"

definition u_or_assign :: "uint128lh \<Rightarrow> uint128lh \<Rightarrow> uint128lh" where
  "u_or_assign a u = \<lparr>lo = lo a OR lo u, hi = hi a OR hi u\<rparr>"

definition u_and :: "uint128lh \<Rightarrow> uint128lh \<Rightarrow> uint128lh" where
  "u_and a u = \<lparr>lo = lo a AND lo u, hi = hi a AND hi u\<rparr>"

definition u_xor :: "uint128lh \<Rightarrow> uint128lh \<Rightarrow> uint128lh" where
  "u_xor a u = \<lparr>lo = lo a XOR lo u, hi = hi a XOR hi u\<rparr>"

text \<open>The free operator \<open>|\<close> assigns its right operand to the copy of its left one.\<close>

definition u_or :: "uint128lh \<Rightarrow> uint128lh \<Rightarrow> uint128lh" where
  "u_or l r = r"

definition u_to_uint64 :: "uint128lh \<Rightarrow> 64 word result" where
  "u_to_uint64 a = (if hi a = 0 then Inr (lo a) else Inl Assert_Exception)"

definition u_to_integer :: "uint128lh \<Rightarrow> 32 word result" where
  "u_to_integer a = rbind (check_assert (hi a = 0)) (\<lambda>_.
     let lo32 = ucast (lo a) :: 32 word
     in rbind (check_assert (lo a = ucast lo32)) (\<lambda>_. Inr lo32))"

definition u_max_value :: uint128lh where
  "u_max_value = \<lparr>lo = - 1, hi = - 1\<rparr>"

section \<open>Agreement with 128-bit words\<close>

definition u128_abs :: "uint128lh \<Rightarrow> 128 word" where
  "u128_abs a = word_of_nat (unat (hi a) * 2 ^ 64 + unat (lo a))"

lemma two_digits_eq: "l < B \<Longrightarrow> l' < B \<Longrightarrow> h * B + l = h' * B + l' \<longleftrightarrow> h = h' \<and> l = l'"
  for B h l h' l' :: nat
  by (metis div_less div_mult_self3 add.commute add_0_right mod_less mod_mult_self3 mult_is_0
      not_less_zero zero_less_iff_neq_zero)

lemma two_digits_less:
  fixes B h l h' l' :: nat
  assumes "l < B" "l' < B"
  shows "h * B + l < h' * B + l' \<longleftrightarrow> (if h = h' then l < l' else h < h')"
proof -
  have lt: "x * B + y < x' * B + y'" if "x < x'" "y < B" for x x' y y' :: nat
  proof -
    have "x * B + y < (x + 1) * B" using that(2) by simp
    also have "\<dots> \<le> x' * B" using that(1) by (intro mult_le_mono1) simp
    finally show ?thesis by simp
  qed
  show ?thesis using lt [of h h' l l'] lt [of h' h l' l] assms
    by (metis add_less_cancel_left less_asym linorder_neqE_nat)
qed

lemma div_carry: "x < B \<Longrightarrow> y < B \<Longrightarrow> (x + y) div B = (if B \<le> x + y then 1 else 0)" for B x y :: nat
  by (auto simp: div_nat_eqI)

lemma unat_u128_abs: "unat (u128_abs a) = unat (hi a) * 2 ^ 64 + unat (lo a)"
proof -
  have h: "unat (hi a) < 2 ^ 64" and l: "unat (lo a) < 2 ^ 64"
    using unsigned_less [of "hi a"] unsigned_less [of "lo a"] by simp_all
  then have "unat (hi a) * 2 ^ 64 + unat (lo a) < 2 ^ 128" by simp
  then have "take_bit LENGTH(128) (unat (hi a) * 2 ^ 64 + unat (lo a))
      = unat (hi a) * 2 ^ 64 + unat (lo a)"
    by (intro take_bit_nat_eq_self) simp
  then show ?thesis unfolding u128_abs_def by (simp only: unsigned_of_nat of_nat_id)
qed

lemma u128_halves: "unat x < 2 ^ 64" for x :: "64 word"
  using unsigned_less [of x] by simp

lemma u128_abs_inject: "u128_abs a = u128_abs b \<longleftrightarrow> u_eq a b"
proof -
  have "u128_abs a = u128_abs b \<longleftrightarrow> unat (u128_abs a) = unat (u128_abs b)"
    by (simp add: word_unat_eq_iff)
  also have "\<dots> \<longleftrightarrow> unat (hi a) = unat (hi b) \<and> unat (lo a) = unat (lo b)"
    unfolding unat_u128_abs by (rule two_digits_eq) (rule u128_halves)+
  also have "\<dots> \<longleftrightarrow> u_eq a b" by (simp add: u_eq_def word_unat_eq_iff)
  finally show ?thesis .
qed

lemma u128_abs_less: "u128_abs a < u128_abs b \<longleftrightarrow> u_less a b"
proof -
  have "u128_abs a < u128_abs b \<longleftrightarrow> unat (u128_abs a) < unat (u128_abs b)"
    by (simp add: word_less_nat_alt)
  also have "\<dots> \<longleftrightarrow> (if unat (hi a) = unat (hi b) then unat (lo a) < unat (lo b)
      else unat (hi a) < unat (hi b))"
    unfolding unat_u128_abs by (rule two_digits_less) (rule u128_halves)+
  also have "\<dots> \<longleftrightarrow> u_less a b" by (simp add: u_less_def word_unat_eq_iff word_less_nat_alt)
  finally show ?thesis .
qed

text \<open>The carry out of the low halves is detected by the wrapped sum being smaller.\<close>

lemma add_carry: "(x + y < x) \<longleftrightarrow> 2 ^ 64 \<le> unat x + unat y" for x y :: "64 word"
  using u128_halves [of x] u128_halves [of y]
  by (simp add: word_less_nat_alt unat_word_ariths) (auto simp: mod_if)

lemma u_add_abs: "u128_abs (u_add a b) = u128_abs a + u128_abs b"
proof -
  let ?c = "if lo a + lo b < lo a then 1 else 0 :: 64 word"
  have nl: "unat (lo a + lo b) = (unat (lo a) + unat (lo b)) mod 2 ^ 64"
    by (simp add: unat_word_ariths)
  have nh: "unat (hi a + (hi b + ?c)) = (unat (hi a) + unat (hi b) + unat ?c) mod 2 ^ 64"
    by (simp add: unat_word_ariths mod_simps add.assoc)
  have c: "unat ?c = (unat (lo a) + unat (lo b)) div 2 ^ 64"
    by (simp only: div_carry [OF u128_halves u128_halves] add_carry) simp
  define H where "H = unat (hi a) + unat (hi b) + (unat (lo a) + unat (lo b)) div 2 ^ 64"
  define L where "L = (unat (lo a) + unat (lo b)) mod 2 ^ 64"
  have sum: "unat (u128_abs a) + unat (u128_abs b) = H * 2 ^ 64 + L"
  proof -
    have "unat (lo a) + unat (lo b) = (unat (lo a) + unat (lo b)) div 2 ^ 64 * 2 ^ 64 + L"
      unfolding L_def by (rule div_mult_mod_eq [symmetric])
    then show ?thesis unfolding unat_u128_abs H_def add_mult_distrib by linarith
  qed
  have "unat (u128_abs (u_add a b)) = H mod 2 ^ 64 * 2 ^ 64 + L"
    unfolding unat_u128_abs by (simp add: u_add_def Let_def nl nh c H_def L_def)
  also have "\<dots> = (H * 2 ^ 64 + L) mod 2 ^ 128"
  proof -
    have "L < 2 ^ 64" by (simp add: L_def)
    then have "(H * 2 ^ 64 + L) mod (2 ^ 64 * 2 ^ 64) = H mod 2 ^ 64 * 2 ^ 64 + L"
      by (simp only: mod_mult2_eq) (simp add: mult.commute)
    then show ?thesis by simp
  qed
  also have "\<dots> = unat (u128_abs a + u128_abs b)"
    by (simp add: unat_word_ariths sum)
  finally show ?thesis by (simp add: word_unat_eq_iff)
qed

lemma u_inc_add: "u_inc a = u_add a (uint128lh_of_uint64 1)"
proof -
  have "lo a + 1 < lo a \<longleftrightarrow> lo a + 1 = 0"
    using u128_halves [of "lo a"]
    by (simp add: add_carry word_unat_eq_iff unat_word_ariths) (auto simp: mod_if)
  then show ?thesis by (simp add: u_inc_def u_add_def uint128lh_of_uint64_def Let_def)
qed

lemma u_inc_abs: "u128_abs (u_inc a) = u128_abs a + 1"
  by (simp add: u_inc_add u_add_abs) (simp add: u128_abs_def uint128lh_of_uint64_def)

lemma unat_NOT64: "unat (NOT x) = 2 ^ 64 - 1 - unat x" for x :: "64 word"
proof -
  have "NOT x = - 1 - x" by (simp add: not_eq_complement)
  then show ?thesis by (simp add: unat_sub unsigned_minus_1_eq_mask mask_eq_exp_minus_1)
qed

lemma u_not_abs: "u128_abs (u_not a) = NOT (u128_abs a)"
proof -
  have n: "unat (NOT x) = 2 ^ 128 - 1 - unat x" for x :: "128 word"
  proof -
    have "NOT x = - 1 - x" by (simp add: not_eq_complement)
    then show ?thesis by (simp add: unat_sub unsigned_minus_1_eq_mask mask_eq_exp_minus_1)
  qed
  have "unat (u128_abs (u_not a)) = unat (NOT (u128_abs a))"
    using u128_halves [of "hi a"] u128_halves [of "lo a"]
    unfolding n unat_u128_abs by (simp add: u_not_def unat_NOT64)
  then show ?thesis by (simp add: word_unat_eq_iff)
qed

lemma u_neg_abs: "u128_abs (u_neg a) = - u128_abs a"
  by (simp add: u_neg_def u_inc_abs u_not_abs not_eq_complement)

lemma u_sub_abs: "u128_abs (u_sub a b) = u128_abs a - u128_abs b"
  by (simp add: u_sub_def u_add_abs u_neg_abs)

lemma u_dec_inc: "u_dec (u_inc a) = a"
  by (cases a) (simp add: u_dec_def u_inc_def Let_def)

lemma u_inc_dec: "u_inc (u_dec a) = a"
  by (cases a) (simp add: u_dec_def u_inc_def Let_def)

lemma u_dec_abs: "u128_abs (u_dec a) = u128_abs a - 1"
  by (metis add_diff_cancel_right' u_inc_abs u_inc_dec)

text \<open>
  C16. The 128-bit symbol arithmetic is exact modulo \<open>2^128\<close>: the two-word addition, subtraction,
  negation, increment, decrement, complement and the order of the class agree with the operations
  on 128-bit words, for all operands, carries and borrows between the halves included.
\<close>

theorem uint128lh_refines_word:
  "u128_abs (u_add a b) = u128_abs a + u128_abs b
   \<and> u128_abs (u_sub a b) = u128_abs a - u128_abs b
   \<and> u128_abs (u_neg a) = - u128_abs a
   \<and> u128_abs (u_inc a) = u128_abs a + 1
   \<and> u128_abs (u_dec a) = u128_abs a - 1
   \<and> u128_abs (u_not a) = NOT (u128_abs a)
   \<and> (u_less a b \<longleftrightarrow> u128_abs a < u128_abs b)
   \<and> (u_le a b \<longleftrightarrow> u128_abs a \<le> u128_abs b)
   \<and> (u_eq a b \<longleftrightarrow> u128_abs a = u128_abs b)"
  by (auto simp: u_add_abs u_sub_abs u_neg_abs u_inc_abs u_dec_abs u_not_abs u128_abs_less
      u128_abs_inject u_le_def order_le_less)

text \<open>
  The free operator \<open>|\<close> of the class is not the bitwise or: it returns its right operand, and
  disagrees with the member \<open>|=\<close> already on one and zero.
\<close>

lemma u_or_is_not_or:
  "u_or (uint128lh_of_uint64 1) (uint128lh_of_uint64 0)
     \<noteq> u_or_assign (uint128lh_of_uint64 1) (uint128lh_of_uint64 0)"
  by (simp add: u_or_def u_or_assign_def uint128lh_of_uint64_def)

end
