(* ===== verification/Asset.thy ===== *)
theory Asset
  imports Uint128lh
begin

text \<open>
  Assets and prices: \<^verbatim>\<open>libraries/protocol/asset.cpp\<close> and
  \<^verbatim>\<open>include/golos/protocol/asset.hpp\<close>. An asset symbol is the 128-bit word whose bytes in memory
  order are the number of decimals (plus 100 for a long symbol name), the characters of the name
  and zeros; code that reads or writes the symbol through a \<open>char *\<close> works on the list of its 16
  bytes. The string conversions of the \<^verbatim>\<open>fc\<close> library that \<open>to_string\<close> and \<open>from_string\<close> call are
  a parameter; \<open>fc_decimal\<close> states what they document.
\<close>

section \<open>Symbols\<close>

type_synonym asset_symbol_type = "128 word"

definition symbol_bytes :: "asset_symbol_type \<Rightarrow> 8 word list" where
  "symbol_bytes s = map (\<lambda>k. ucast (drop_bit k s))
     [0, 8, 16, 24, 32, 40, 48, 56, 64, 72, 80, 88, 96, 104, 112, 120]"

definition symbol_of_bytes :: "8 word list \<Rightarrow> asset_symbol_type" where
  "symbol_of_bytes bs = foldr (\<lambda>b w. push_bit 8 w OR ucast b) bs 0"

definition VESTS_SYMBOL :: asset_symbol_type where
  "VESTS_SYMBOL = 6 OR push_bit 8 71 OR push_bit 16 69 OR push_bit 24 83 OR push_bit 32 84
     OR push_bit 40 83"

definition STEEM_SYMBOL :: asset_symbol_type where
  "STEEM_SYMBOL = 3 OR push_bit 8 71 OR push_bit 16 79 OR push_bit 24 76 OR push_bit 32 79
     OR push_bit 40 83"

definition SBD_SYMBOL :: asset_symbol_type where
  "SBD_SYMBOL = 3 OR push_bit 8 71 OR push_bit 16 66 OR push_bit 24 71"

definition STMD_SYMBOL :: asset_symbol_type where
  "STMD_SYMBOL = 3 OR push_bit 8 83 OR push_bit 16 84 OR push_bit 24 77 OR push_bit 32 68"

definition min_symbol :: asset_symbol_type where
  "min_symbol = 0"

definition max_symbol :: asset_symbol_type where
  "max_symbol = symbol_of_bytes ((symbol_bytes (u128_abs u_max_value))[0 := 114, 15 := 0])"

section \<open>Assets\<close>

record asset =
  amount :: int
  symbol :: asset_symbol_type

abbreviation mk_asset :: "int \<Rightarrow> asset_symbol_type \<Rightarrow> asset" where
  "mk_asset a s \<equiv> \<lparr>amount = a, symbol = s\<rparr>"

definition STEEMIT_MAX_SHARE_SUPPLY :: int where
  "STEEMIT_MAX_SHARE_SUPPLY = 1000000000000000"

definition decimals :: "asset \<Rightarrow> nat result" where
  "decimals a = (let b = unat (symbol_bytes (symbol a) ! 0);
       r = (if 100 \<le> b then b - 100 else b)
     in rbind (check_assert (r < 15)) (\<lambda>_. Inr r))"

text \<open>The first byte is compared as a signed \<open>char\<close> here and in \<open>symbol_name\<close>.\<close>

definition set_decimals :: "asset \<Rightarrow> nat \<Rightarrow> asset result" where
  "set_decimals a d = rbind (check_assert (d < 15)) (\<lambda>_.
     let bs = symbol_bytes (symbol a);
         d' = (if 100 \<le> sint (bs ! 0) then d + 100 else d)
     in Inr (a\<lparr>symbol := symbol_of_bytes (bs[0 := word_of_nat d'])\<rparr>))"

definition symbol_name :: "asset \<Rightarrow> string result" where
  "symbol_name a = (let bs = symbol_bytes (symbol a) in
     rbind (if 100 \<le> sint (bs ! 0) then check_assert (bs ! 15 = 0) else check_assert (bs ! 7 = 0))
       (\<lambda>_. if symbol a = max_symbol then Inr (replicate 14 (CHR ''?''))
            else Inr (map (\<lambda>b. char_of (uint b)) (takeWhile (\<lambda>b. b \<noteq> 0) (drop 1 bs)))))"

definition precision_table :: "int list" where
  "precision_table = [1, 10, 100, 1000, 10000, 100000, 1000000, 10000000, 100000000, 1000000000,
     10000000000, 100000000000, 1000000000000, 10000000000000, 100000000000000]"

definition precision :: "asset \<Rightarrow> int result" where
  "precision a = rbind (decimals a) (\<lambda>d. Inr (precision_table ! d))"

subsection \<open>Arithmetic and comparison\<close>

definition asset_add :: "asset \<Rightarrow> asset \<Rightarrow> asset result" where
  "asset_add a b = rbind (check_assert (symbol a = symbol b)) (\<lambda>_.
     rbind (safe64 (amount a + amount b)) (\<lambda>x. Inr (mk_asset x (symbol a))))"

definition asset_sub :: "asset \<Rightarrow> asset \<Rightarrow> asset result" where
  "asset_sub a b = rbind (check_assert (symbol a = symbol b)) (\<lambda>_.
     rbind (safe64 (amount a - amount b)) (\<lambda>x. Inr (mk_asset x (symbol a))))"

definition asset_neg :: "asset \<Rightarrow> asset result" where
  "asset_neg a = rbind (safe64 (- amount a)) (\<lambda>x. Inr (mk_asset x (symbol a)))"

definition asset_scale :: "asset \<Rightarrow> int \<Rightarrow> asset result" where
  "asset_scale a x = rbind (safe64 (amount a * x)) (\<lambda>y. Inr (mk_asset y (symbol a)))"

definition asset_eq :: "asset \<Rightarrow> asset \<Rightarrow> bool result" where
  "asset_eq a b = rbind (check_assert (symbol a = symbol b)) (\<lambda>_. Inr (amount a = amount b))"

definition asset_lt :: "asset \<Rightarrow> asset \<Rightarrow> bool result" where
  "asset_lt a b = rbind (check_assert (symbol a = symbol b)) (\<lambda>_. Inr (amount a < amount b))"

definition asset_le :: "asset \<Rightarrow> asset \<Rightarrow> bool result" where
  "asset_le a b = rbind (asset_eq a b) (\<lambda>e. if e then Inr True else asset_lt a b)"

definition asset_gt :: "asset \<Rightarrow> asset \<Rightarrow> bool result" where
  "asset_gt a b = rbind (asset_le a b) (\<lambda>c. Inr (\<not> c))"

definition asset_ge :: "asset \<Rightarrow> asset \<Rightarrow> bool result" where
  "asset_ge a b = rbind (asset_lt a b) (\<lambda>c. Inr (\<not> c))"

section \<open>Prices\<close>

record price =
  base :: asset
  quote :: asset

abbreviation mk_price :: "asset \<Rightarrow> asset \<Rightarrow> price" where
  "mk_price b q \<equiv> \<lparr>base = b, quote = q\<rparr>"

definition default_price :: price where
  "default_price = mk_price (mk_asset 0 STEEM_SYMBOL) (mk_asset 0 STEEM_SYMBOL)"

definition price_invert :: "price \<Rightarrow> price" where
  "price_invert p = mk_price (quote p) (base p)"

definition price_eq :: "price \<Rightarrow> price \<Rightarrow> bool" where
  "price_eq a b \<longleftrightarrow>
     (if (symbol (base a), symbol (quote a)) \<noteq> (symbol (base b), symbol (quote b)) then False
      else u128 (amount (quote b)) * u128 (amount (base a))
         = u128 (amount (quote a)) * u128 (amount (base b)))"

definition price_lt :: "price \<Rightarrow> price \<Rightarrow> bool" where
  "price_lt a b \<longleftrightarrow>
     (if symbol (base a) < symbol (base b) then True
      else if symbol (base a) > symbol (base b) then False
      else if symbol (quote a) < symbol (quote b) then True
      else if symbol (quote a) > symbol (quote b) then False
      else u128 (amount (quote b)) * u128 (amount (base a))
         < u128 (amount (quote a)) * u128 (amount (base b)))"

definition price_le :: "price \<Rightarrow> price \<Rightarrow> bool" where
  "price_le a b \<longleftrightarrow> price_eq a b \<or> price_lt a b"

definition price_gt :: "price \<Rightarrow> price \<Rightarrow> bool" where
  "price_gt a b \<longleftrightarrow> \<not> price_le a b"

definition price_ge :: "price \<Rightarrow> price \<Rightarrow> bool" where
  "price_ge a b \<longleftrightarrow> \<not> price_lt a b"

text \<open>\<open>FC_ASSERT(result.hi == 0)\<close>, then \<open>result.to_uint64()\<close> stored as a signed 64-bit amount.\<close>

definition u128_amount :: "128 word \<Rightarrow> int result" where
  "u128_amount w = rbind (check_assert (drop_bit 64 w = 0)) (\<lambda>_. Inr (to_int64 w))"

definition asset_mul_price :: "asset \<Rightarrow> price \<Rightarrow> asset result" where
  "asset_mul_price a p =
     rbind (symbol_name a) (\<lambda>na.
     rbind (symbol_name (base p)) (\<lambda>nb.
     if na = nb then
       rbind (check_assert (0 < amount (base p))) (\<lambda>_.
       rbind (u128_amount (mul_div_u128 (amount a) (amount (quote p)) (amount (base p)))) (\<lambda>x.
       Inr (mk_asset x (symbol (quote p)))))
     else
       rbind (symbol_name (quote p)) (\<lambda>nq.
       if na = nq then
         rbind (check_assert (0 < amount (quote p))) (\<lambda>_.
         rbind (u128_amount (mul_div_u128 (amount a) (amount (base p)) (amount (quote p)))) (\<lambda>x.
         Inr (mk_asset x (symbol (base p)))))
       else Inl Assert_Exception)))"

definition asset_div_asset :: "asset \<Rightarrow> asset \<Rightarrow> price result" where
  "asset_div_asset b q =
     rbind (symbol_name b) (\<lambda>nb. rbind (symbol_name q) (\<lambda>nq.
     rbind (check_assert (nb \<noteq> nq)) (\<lambda>_. Inr (mk_price b q))))"

definition price_max :: "asset_symbol_type \<Rightarrow> asset_symbol_type \<Rightarrow> price result" where
  "price_max b q = asset_div_asset (mk_asset STEEMIT_MAX_SHARE_SUPPLY b) (mk_asset 1 q)"

definition price_min :: "asset_symbol_type \<Rightarrow> asset_symbol_type \<Rightarrow> price result" where
  "price_min b q = asset_div_asset (mk_asset 1 b) (mk_asset STEEMIT_MAX_SHARE_SUPPLY q)"

definition price_is_null :: "price \<Rightarrow> bool" where
  "price_is_null p \<longleftrightarrow> price_eq p default_price"

definition price_validate :: "price \<Rightarrow> unit result" where
  "price_validate p =
     rbind (check_value (0 < amount (base p))) (\<lambda>_.
     rbind (check_value (0 < amount (quote p))) (\<lambda>_.
     rbind (symbol_name (base p)) (\<lambda>nb. rbind (symbol_name (quote p)) (\<lambda>nq.
     check_value (nb \<noteq> nq)))))"

section \<open>Text form\<close>

record fc_string_lib =
  fc_trim :: "string \<Rightarrow> string"
  fc_to_string :: "int \<Rightarrow> string"
  fc_to_int64 :: "string \<Rightarrow> int result"

definition asset_to_string :: "fc_string_lib \<Rightarrow> asset \<Rightarrow> string result" where
  "asset_to_string L a = rbind (precision a) (\<lambda>prec.
     let int_part = fc_to_string L (cdiv (amount a) prec);
         fract_part = (if 1 < prec
           then ''.'' @ drop 1 (fc_to_string L (prec + cmod (amount a) prec)) else [])
     in rbind (symbol_name a) (\<lambda>n. Inr (int_part @ fract_part @ '' '' @ n)))"

fun str_find :: "char \<Rightarrow> string \<Rightarrow> nat option" where
  "str_find c [] = None"
| "str_find c (x # xs) = (if x = c then Some 0 else map_option Suc (str_find c xs))"

text \<open>Arithmetic on the raw \<open>int64_t\<close> inside an amount (\<open>amount.value\<close>), which is not checked.\<close>

definition wrap64 :: "int \<Rightarrow> int" where
  "wrap64 x = sint (word_of_int x :: 64 word)"

definition copy_symbol_name :: "asset_symbol_type \<Rightarrow> string \<Rightarrow> asset_symbol_type" where
  "copy_symbol_name s name =
     (let bs = symbol_bytes s;
          b0 = (if 6 < length name then bs ! 0 + 100 else bs ! 0)
      in symbol_of_bytes (b0 # map (\<lambda>c. of_char c) name @ drop (length name + 1) bs))"

definition asset_from_string :: "fc_string_lib \<Rightarrow> string \<Rightarrow> asset result" where
  "asset_from_string L from =
    (let s = fc_trim L from; result0 = mk_asset 0 0 in
     case str_find (CHR '' '') s of None \<Rightarrow> Inl Invalid_Value
     | Some space_pos \<Rightarrow>
       rbind
         (case str_find (CHR ''.'') s of
            Some dot_pos \<Rightarrow>
              rbind (check_value (dot_pos < space_pos)) (\<lambda>_.
              let intpart = take dot_pos s;
                  fractpart = ''1'' @ take (space_pos - dot_pos - 1) (drop (dot_pos + 1) s)
              in rbind (check_value (length fractpart - 1 < 15)) (\<lambda>_.
              rbind (set_decimals result0 (length fractpart - 1)) (\<lambda>r.
              rbind (fc_to_int64 L intpart) (\<lambda>i.
              rbind (precision r) (\<lambda>prec.
              rbind (fc_to_int64 L fractpart) (\<lambda>f.
              Inr (r\<lparr>amount := wrap64 (wrap64 (wrap64 (i * prec) + f) - prec)\<rparr>)))))))
          | None \<Rightarrow>
              rbind (fc_to_int64 L (take space_pos s)) (\<lambda>i.
              rbind (set_decimals result0 0) (\<lambda>r. Inr (r\<lparr>amount := i\<rparr>))))
         (\<lambda>r. let name = drop (space_pos + 1) s in
            if 0 < length name then
              rbind (check_value (length name \<le> 14)) (\<lambda>_.
              Inr (r\<lparr>symbol := copy_symbol_name (symbol r) name\<rparr>))
            else Inr r))"

section \<open>Binary form\<close>

text \<open>
  The stream is the list of the 64-bit words written so far; a long symbol is written as its low
  and then its high half (\<open>lo\<close> precedes \<open>hi\<close> in the class).
\<close>

definition asset_pack :: "asset \<Rightarrow> 64 word list result" where
  "asset_pack a =
     (if sint (symbol_bytes (symbol a) ! 0) < 100
      then rbind (check_assert (drop_bit 64 (symbol a) = 0)) (\<lambda>_.
        Inr [word_of_int (amount a), ucast (symbol a)])
      else Inr [word_of_int (amount a), ucast (symbol a), ucast (drop_bit 64 (symbol a))])"

definition asset_unpack :: "64 word list \<Rightarrow> (asset \<times> 64 word list) option" where
  "asset_unpack s = (case s of
     am # low # rest \<Rightarrow>
       if sint (ucast low :: 8 word) < 100 then Some (mk_asset (sint am) (ucast low), rest)
       else (case rest of
         high # rest' \<Rightarrow> Some (mk_asset (sint am) (push_bit 64 (ucast high) OR ucast low), rest')
       | [] \<Rightarrow> None)
   | _ \<Rightarrow> None)"

section \<open>Lemmas on symbols\<close>

lemma core_symbols:
  "VESTS_SYMBOL = 91621639407366"
  "STEEM_SYMBOL = 91600047785731"
  "SBD_SYMBOL = 1195525891"
  "STMD_SYMBOL = 293355148035"
  by (simp_all add: VESTS_SYMBOL_def STEEM_SYMBOL_def SBD_SYMBOL_def STMD_SYMBOL_def)

lemma max_symbol_eq: "max_symbol = 1329227995784915872903807060280344434"
  by (simp add: max_symbol_def symbol_bytes_def symbol_of_bytes_def u128_abs_def u_max_value_def
      unsigned_minus_1_eq_mask mask_eq_exp_minus_1)

lemma core_symbols_distinct [simp]:
  "STEEM_SYMBOL \<noteq> SBD_SYMBOL" "SBD_SYMBOL \<noteq> STEEM_SYMBOL"
  "STEEM_SYMBOL \<noteq> VESTS_SYMBOL" "VESTS_SYMBOL \<noteq> STEEM_SYMBOL"
  "SBD_SYMBOL \<noteq> VESTS_SYMBOL" "VESTS_SYMBOL \<noteq> SBD_SYMBOL"
  by (simp_all add: core_symbols)

lemma symbol_name_core [simp]:
  "symbol_name (mk_asset x STEEM_SYMBOL) = Inr ''GOLOS''"
  "symbol_name (mk_asset x SBD_SYMBOL) = Inr ''GBG''"
  "symbol_name (mk_asset x VESTS_SYMBOL) = Inr ''GESTS''"
  by (simp_all add: symbol_name_def core_symbols max_symbol_eq symbol_bytes_def char_of_def)

lemma symbol_name_symbol: "symbol a = symbol b \<Longrightarrow> symbol_name a = symbol_name b"
  by (simp add: symbol_name_def)

lemma length_symbol_bytes [simp]: "length (symbol_bytes s) = 16"
  by (simp add: symbol_bytes_def)

lemma symbol_bytes_nth:
  assumes "i < 16"
  shows "symbol_bytes s ! i = ucast (drop_bit (8 * i) s)"
proof -
  have "\<forall>i \<in> {0..<16}.
      [0, 8, 16, 24, 32, 40, 48, 56, 64, 72, 80, 88, 96, 104, 112, 120::nat] ! i = 8 * i"
    by (simp add: atLeastLessThan_nat_numeral)
  with assms show ?thesis by (simp add: symbol_bytes_def nth_map del: list.map)
qed

lemma bit_symbol_of_bytes:
  "n < 128 \<Longrightarrow> bit (symbol_of_bytes bs) n \<longleftrightarrow> n div 8 < length bs \<and> bit (bs ! (n div 8)) (n mod 8)"
proof (induction bs arbitrary: n)
  case Nil
  then show ?case by (simp add: symbol_of_bytes_def)
next
  case (Cons b bs)
  have step: "symbol_of_bytes (b # bs) = push_bit 8 (symbol_of_bytes bs) OR ucast b"
    by (simp add: symbol_of_bytes_def)
  show ?case
  proof (cases "n < 8")
    case True
    with Cons.prems show ?thesis by (simp add: step bit_or_iff bit_push_bit_iff bit_ucast_iff)
  next
    case False
    then have "n div 8 = Suc ((n - 8) div 8)" "n mod 8 = (n - 8) mod 8"
      by (simp_all add: le_div_geq le_mod_geq)
    moreover have "\<not> bit b n" using False by (auto dest: bit_imp_le_length)
    ultimately show ?thesis using False Cons.prems Cons.IH [of "n - 8"]
      by (simp add: step bit_or_iff bit_push_bit_iff bit_ucast_iff)
  qed
qed

lemma symbol_bytes_of_bytes:
  assumes "length bs = 16"
  shows "symbol_bytes (symbol_of_bytes bs) = bs"
proof (rule nth_equalityI)
  fix i assume "i < length (symbol_bytes (symbol_of_bytes bs))"
  then have i: "i < 16" by simp
  show "symbol_bytes (symbol_of_bytes bs) ! i = bs ! i"
  proof (rule bit_word_eqI)
    fix n assume "n < LENGTH(8)"
    then have n: "n < 8" by simp
    with i assms show "bit (symbol_bytes (symbol_of_bytes bs) ! i) n = bit (bs ! i) n"
      by (simp add: symbol_bytes_nth bit_ucast_iff bit_drop_bit_eq bit_symbol_of_bytes)
  qed
qed (simp add: assms)

lemma symbol_of_bytes_bytes [simp]: "symbol_of_bytes (symbol_bytes s) = s"
proof (rule bit_word_eqI)
  fix n assume "n < LENGTH(128)"
  then have n: "n < 128" by simp
  then have "n div 8 < 16" by simp
  with n show "bit (symbol_of_bytes (symbol_bytes s)) n = bit s n"
    by (simp add: bit_symbol_of_bytes symbol_bytes_nth bit_ucast_iff bit_drop_bit_eq)
qed
section \<open>Price arithmetic\<close>

lemma u128_amount_small:
  assumes "uint w < 2 ^ 63"
  shows "u128_amount w = Inr (uint w)"
proof -
  have "uint w div 2 ^ 64 = 0" using assms by (intro div_pos_pos_trivial) auto
  then have "uint (drop_bit 64 w) = 0"
    by (simp add: drop_bit_eq_div uint_div)
  then have "drop_bit 64 w = 0" by (simp only: unsigned_eq_0_iff)
  with assms show ?thesis by (simp add: u128_amount_def to_int64_small)
qed

lemma u128_amount_mul_div:
  assumes "0 \<le> a" "a < 2 ^ 63" "0 \<le> b" "b < 2 ^ 63" "0 \<le> c" "c < 2 ^ 63" "a * b div c < 2 ^ 63"
  shows "u128_amount (mul_div_u128 a b c) = Inr (a * b div c)"
  using u128_amount_small [of "mul_div_u128 a b c"] uint_mul_div_u128 [OF assms(1-6)] assms(7)
  by simp

definition amount_ok :: "asset \<Rightarrow> bool" where
  "amount_ok a \<longleftrightarrow> 0 \<le> amount a \<and> amount a < 2 ^ 63"

lemma asset_mul_price_base:
  assumes "symbol_name a = Inr n" "symbol_name (base p) = Inr n"
    and "amount_ok a" "amount_ok (quote p)" "amount_ok (base p)" "0 < amount (base p)"
    and "amount a * amount (quote p) div amount (base p) < 2 ^ 63"
  shows "asset_mul_price a p
    = Inr (mk_asset (amount a * amount (quote p) div amount (base p)) (symbol (quote p)))"
  using assms by (simp add: asset_mul_price_def amount_ok_def u128_amount_mul_div)



lemma asset_mul_price_floor_inverse:
  assumes "symbol_name a = Inr n" "symbol_name (base p) = Inr m" "m \<noteq> n" "symbol_name (quote p) = Inr n"
    and "amount_ok a" "amount_ok (quote p)" "amount_ok (base p)" "0 < amount (quote p)"
    and "amount a * amount (base p) div amount (quote p) < 2 ^ 63"
  shows "asset_mul_price a p
    = Inr (mk_asset (amount a * amount (base p) div amount (quote p)) (symbol (base p)))"
  using assms by (simp add: asset_mul_price_def amount_ok_def u128_amount_mul_div)

lemma price_is_null_iff:
  "price_is_null p \<longleftrightarrow> symbol (base p) = STEEM_SYMBOL \<and> symbol (quote p) = STEEM_SYMBOL"
  by (auto simp: price_is_null_def price_eq_def default_price_def)

definition price_ok :: "price \<Rightarrow> bool" where
  "price_ok p \<longleftrightarrow> amount_ok (base p) \<and> amount_ok (quote p) \<and> 0 < amount (base p) \<and> 0 < amount (quote p)"

definition price_cross_lt :: "price \<Rightarrow> price \<Rightarrow> bool" where
  "price_cross_lt a b \<longleftrightarrow> amount (base a) * amount (quote b) < amount (base b) * amount (quote a)"

lemma u128_prod_less:
  assumes "price_ok a" "price_ok b"
  shows "u128 (amount (quote b)) * u128 (amount (base a)) < u128 (amount (quote a)) * u128 (amount (base b))
     \<longleftrightarrow> price_cross_lt a b"
  using assms uint_u128_mult [of "amount (quote b)" "amount (base a)"]
    uint_u128_mult [of "amount (quote a)" "amount (base b)"]
  by (simp add: word_less_def price_ok_def amount_ok_def price_cross_lt_def mult.commute)

lemma u128_prod_eq:
  assumes "price_ok a" "price_ok b"
  shows "u128 (amount (quote b)) * u128 (amount (base a)) = u128 (amount (quote a)) * u128 (amount (base b))
     \<longleftrightarrow> \<not> price_cross_lt a b \<and> \<not> price_cross_lt b a"
  using assms uint_u128_mult [of "amount (quote b)" "amount (base a)"]
    uint_u128_mult [of "amount (quote a)" "amount (base b)"]
  by (simp add: word_uint_eq_iff price_ok_def amount_ok_def price_cross_lt_def mult.commute) linarith

lemma price_cross_lt_trans:
  assumes "price_ok a" "price_ok b" "price_ok c" "price_cross_lt a b" "price_cross_lt b c"
  shows "price_cross_lt a c"
proof -
  have pos: "0 < amount (quote x)" "0 < amount (base x)" if "price_ok x" for x
    using that by (simp_all add: price_ok_def)
  have "(amount (base a) * amount (quote b)) * amount (quote c) < (amount (base b) * amount (quote a)) * amount (quote c)"
    using assms pos by (simp add: price_cross_lt_def)
  moreover have "(amount (base b) * amount (quote c)) * amount (quote a) < (amount (base c) * amount (quote b)) * amount (quote a)"
    using assms pos by (simp add: price_cross_lt_def)
  ultimately have "(amount (base a) * amount (quote c)) * amount (quote b) < (amount (base c) * amount (quote a)) * amount (quote b)"
    by (simp add: mult_ac)
  then show ?thesis using pos(1) [OF assms(2)] by (simp add: price_cross_lt_def)
qed

lemma price_cross_eq_trans:
  assumes "price_ok a" "price_ok b" "price_ok c" 
    "\<not> price_cross_lt a b" "\<not> price_cross_lt b a" "\<not> price_cross_lt b c" "\<not> price_cross_lt c b"
  shows "\<not> price_cross_lt a c"
proof
  assume lt: "price_cross_lt a c"
  have pos: "0 < amount (quote x)" "0 < amount (base x)" if "price_ok x" for x
    using that by (simp_all add: price_ok_def)
  have e1: "amount (base a) * amount (quote b) = amount (base b) * amount (quote a)"
    and e2: "amount (base b) * amount (quote c) = amount (base c) * amount (quote b)"
    using assms by (simp_all add: price_cross_lt_def)
  have "amount (base a) * amount (quote c) * amount (quote b) = amount (base b) * amount (quote c) * amount (quote a)"
    using e1 by (metis mult.assoc mult.commute)
  also have "\<dots> = amount (base c) * amount (quote a) * amount (quote b)"
    using e2 by (metis mult.assoc mult.commute)
  finally have "amount (base a) * amount (quote c) = amount (base c) * amount (quote a)"
    using pos(1) [OF assms(2)] by simp
  with lt show False by (simp add: price_cross_lt_def)
qed

lemma price_lt_ok:
  assumes "price_ok a" "price_ok b"
  shows "price_lt a b \<longleftrightarrow> symbol (base a) < symbol (base b) \<or> symbol (base a) = symbol (base b) \<and>
      (symbol (quote a) < symbol (quote b) \<or> symbol (quote a) = symbol (quote b) \<and> price_cross_lt a b)"
  using u128_prod_less [OF assms] by (auto simp: price_lt_def)

lemma price_eq_ok:
  assumes "price_ok a" "price_ok b"
  shows "price_eq a b \<longleftrightarrow> symbol (base a) = symbol (base b) \<and> symbol (quote a) = symbol (quote b)
      \<and> \<not> price_cross_lt a b \<and> \<not> price_cross_lt b a"
  using u128_prod_eq [OF assms] by (auto simp: price_eq_def)

lemma price_order_laws:
  assumes "price_ok a" "price_ok b" "price_ok c"
  shows "\<not> price_lt a a"
    and "price_lt a b \<Longrightarrow> price_lt b c \<Longrightarrow> price_lt a c"
    and "price_eq a b \<longleftrightarrow> \<not> price_lt a b \<and> \<not> price_lt b a"
    and "price_eq a b \<Longrightarrow> price_eq b c \<Longrightarrow> price_eq a c"
  using assms price_cross_lt_trans [OF assms] price_cross_eq_trans [OF assms]
    price_cross_eq_trans [OF assms(3) assms(2) assms(1)]
  by (auto simp: price_lt_ok price_eq_ok price_cross_lt_def)

text \<open>
  The order of prices that the order book is sorted by is a strict weak order on prices with
  positive amounts: irreflexive and transitive, with \<open>==\<close> (equal ratios) as its equivalence;
  128-bit cross products never wrap.
\<close>

theorem price_order:
  assumes "price_ok a" "price_ok b" "price_ok c"
  shows "\<not> price_lt a a \<and> (price_lt a b \<and> price_lt b c \<longrightarrow> price_lt a c)
    \<and> (price_eq a b \<longleftrightarrow> \<not> price_lt a b \<and> \<not> price_lt b a)
    \<and> (price_eq a b \<and> price_eq b c \<longrightarrow> price_eq a c)"
  using price_order_laws [OF assms] by blast

theorem price_order_witness:
  "price_lt \<lparr>base = mk_asset 1 STEEM_SYMBOL, quote = mk_asset 3 SBD_SYMBOL\<rparr>
            \<lparr>base = mk_asset 2 STEEM_SYMBOL, quote = mk_asset 3 SBD_SYMBOL\<rparr>"
  using price_order [of "\<lparr>base = mk_asset 1 STEEM_SYMBOL, quote = mk_asset 3 SBD_SYMBOL\<rparr>"
      "\<lparr>base = mk_asset 3 STEEM_SYMBOL, quote = mk_asset 5 SBD_SYMBOL\<rparr>"
      "\<lparr>base = mk_asset 2 STEEM_SYMBOL, quote = mk_asset 3 SBD_SYMBOL\<rparr>"]
  by (simp add: price_ok_def amount_ok_def price_lt_def)

end
