(* ===== verification/Asset_Text.thy ===== *)
theory Asset_Text
  imports Asset
begin

unbundle bit_operations_syntax

text \<open>
  Round trips of an asset: \<open>asset::to_string\<close> / \<open>asset::from_string\<close> and the binary
  \<open>fc::raw::pack\<close> / \<open>unpack\<close>. The string conversions of the fc library
  (\<open>fc::trim\<close>, \<open>fc::to_string\<close>, \<open>fc::to_int64\<close>) are the parameter \<open>fc_string_lib\<close>; what the
  round trip needs of them is \<open>fc_decimal\<close>: non-negative numbers print and parse as their decimal
  digits, and trimming leaves a string alone that begins and ends with a printing character.
  \<open>ref_strings\<close> is a concrete library with these properties.
\<close>

fun dec_string :: "nat \<Rightarrow> string" where
  "dec_string n = (if n < 10 then [char_of (48 + n)]
     else dec_string (n div 10) @ [char_of (48 + n mod 10)])"

declare dec_string.simps [simp del]

definition graphic :: "char \<Rightarrow> bool" where
  "graphic c \<longleftrightarrow> 33 \<le> (of_char c :: nat) \<and> (of_char c :: nat) < 127"

definition fc_decimal :: "fc_string_lib \<Rightarrow> bool" where
  "fc_decimal L \<longleftrightarrow>
     (\<forall>n. int n < 2 ^ 63 \<longrightarrow> fc_to_string L (int n) = dec_string n
        \<and> fc_to_int64 L (dec_string n) = Inr (int n)) \<and>
     (\<forall>s. s \<noteq> [] \<and> graphic (hd s) \<and> graphic (last s) \<longrightarrow> fc_trim L s = s)"

definition mk_symbol :: "nat \<Rightarrow> string \<Rightarrow> asset_symbol_type" where
  "mk_symbol d name = copy_symbol_name (symbol_of_bytes (word_of_nat d # replicate 15 0)) name"

lemma digit_char: "k < 10 \<Longrightarrow> (of_char (char_of (48 + k)) :: nat) = 48 + k"
  by (simp add: of_char_of)

definition is_digit_char :: "char \<Rightarrow> bool" where
  "is_digit_char c \<longleftrightarrow> 48 \<le> (of_char c :: nat) \<and> (of_char c :: nat) \<le> 57"

lemma dec_string_digits: "c \<in> set (dec_string n) \<Longrightarrow> is_digit_char c"
proof (induction n rule: dec_string.induct)
  case (1 n)
  then show ?case
    by (subst (asm) dec_string.simps) (auto simp: is_digit_char_def digit_char split: if_splits)
qed

lemma dec_string_nonempty [simp]: "dec_string n \<noteq> []"
  by (subst dec_string.simps) simp

lemma dec_string_lead:
  "r < 10 ^ d \<Longrightarrow> \<exists>ds. dec_string (10 ^ d + r) = CHR ''1'' # ds \<and> length ds = d"
proof (induction d arbitrary: r)
  case 0
  then show ?case by (subst dec_string.simps) (simp add: char_of_def bit_0)
next
  case (Suc d)
  then have "r div 10 < 10 ^ d" by (simp add: less_mult_imp_div_less mult.commute)
  then obtain ds where ds: "dec_string (10 ^ d + r div 10) = CHR ''1'' # ds" "length ds = d"
    using Suc.IH by blast
  have "10 * 1 \<le> 10 * (10::nat) ^ d" by (intro mult_le_mono2) simp
  then have "\<not> 10 ^ Suc d + r < (10::nat)" unfolding power_Suc by linarith
  then show ?case using ds by (subst dec_string.simps) simp
qed

lemma str_find_found: "c \<notin> set xs \<Longrightarrow> str_find c (xs @ c # ys) = Some (length xs)"
  by (induction xs) auto

lemma str_find_None: "str_find c s = None \<longleftrightarrow> c \<notin> set s"
  by (induction s) auto

lemma wrap64_id: "int64_ok x \<Longrightarrow> wrap64 x = x"
  by (simp add: wrap64_def int64_ok_def signed_of_int signed_take_bit_int_eq_self)

lemma wrap64_add: "wrap64 (wrap64 x + y) = wrap64 (x + y)"
  by (simp add: wrap64_def)
lemma wrap64_sub: "wrap64 (wrap64 x - y) = wrap64 (x - y)"
  by (simp add: wrap64_def)

lemma symbol_bytes_mk_symbol:
  assumes "length name \<le> 14" "d < 15"
  shows "symbol_bytes (mk_symbol d name) = word_of_nat (if 6 < length name then d + 100 else d)
     # map of_char name @ replicate (15 - length name) 0"
  using assms
  by (simp add: mk_symbol_def copy_symbol_name_def symbol_bytes_of_bytes Let_def drop_Cons' numeral_2_eq_2)

lemma char_word: "(of_char c :: 8 word) = word_of_nat (of_char c)"
  by (metis of_nat_of_char)

lemma uint_char_word: "uint (of_char c :: 8 word) = of_char c"
proof -
  have "(of_char c :: nat) < 256" by (metis of_char_of char_of_char mod_less_divisor of_char_mod_256 zero_less_numeral)
  then have "uint (word_of_nat (of_char c) :: 8 word) = int (of_char c)"
    by (simp add: unsigned_of_nat take_bit_nat_eq_self)
  then show ?thesis by (metis char_word of_nat_of_char)
qed

lemma graphic_char_word:
  assumes "graphic c"
  shows "(of_char c :: 8 word) \<noteq> 0" "char_of (uint (of_char c :: 8 word)) = c"
    "uint (of_char c :: 8 word) < 127"
proof -
  have "int (of_char c) = of_char c" by (metis of_nat_of_char)
  then have u: "33 \<le> uint (of_char c :: 8 word)" "uint (of_char c :: 8 word) < 127"
    using assms by (simp_all add: uint_char_word graphic_def)
  then show "(of_char c :: 8 word) \<noteq> 0" "uint (of_char c :: 8 word) < 127" by auto
  show "char_of (uint (of_char c :: 8 word)) = c" by (simp add: uint_char_word)
qed

lemma decimals_mk_symbol:
  assumes "length name \<le> 14" "d < 15"
  shows "decimals (mk_asset x (mk_symbol d name)) = Inr d"
  using assms by (simp add: decimals_def symbol_bytes_mk_symbol unat_of_nat)

lemma mk_symbol_not_max:
  assumes "length name \<le> 14" "name \<noteq> []" "\<forall>c \<in> set name. graphic c" "d < 15"
  shows "mk_symbol d name \<noteq> max_symbol"
proof
  assume "mk_symbol d name = max_symbol"
  then have "symbol_bytes (mk_symbol d name) ! 1 = symbol_bytes max_symbol ! 1" by simp
  moreover have "symbol_bytes (mk_symbol d name) ! 1 = of_char (hd name)"
    using assms by (simp add: symbol_bytes_mk_symbol nth_append hd_conv_nth)
  moreover have "symbol_bytes max_symbol ! 1 = 255"
    by (simp add: max_symbol_eq symbol_bytes_def)
  ultimately have "uint (of_char (hd name) :: 8 word) = 255" by simp
  moreover have "graphic (hd name)" using assms by simp
  ultimately show False using graphic_char_word(3) by fastforce
qed

lemma symbol_name_mk_symbol:
  assumes "length name \<le> 14" "name \<noteq> []" "\<forall>c \<in> set name. graphic c" "d < 15"
  shows "symbol_name (mk_asset x (mk_symbol d name)) = Inr name"
proof -
  let ?bs = "symbol_bytes (mk_symbol d name)"
  have bs: "?bs = word_of_nat (if 6 < length name then d + 100 else d)
     # map of_char name @ replicate (15 - length name) 0"
    using assms by (simp add: symbol_bytes_mk_symbol)
  have "takeWhile (\<lambda>b. b \<noteq> 0) (map of_char name @ replicate (15 - length name) (0 :: 8 word)) = map of_char name"
    using assms graphic_char_word(1) by (subst takeWhile_append2) (auto simp: takeWhile_replicate)
  then have name: "map (\<lambda>b. char_of (uint b)) (takeWhile (\<lambda>b. b \<noteq> 0) (drop 1 ?bs)) = name"
    using assms graphic_char_word(2) by (simp add: bs map_idI o_def)
  have b0: "sint (?bs ! 0) = int (if 6 < length name then d + 100 else d)"
    using assms by (simp add: bs signed_of_nat signed_take_bit_int_eq_self)
  have z: "?bs ! 15 = 0" "length name \<le> 6 \<Longrightarrow> ?bs ! 7 = 0"
    using assms by (simp_all add: bs nth_append)
  show ?thesis using assms mk_symbol_not_max [OF assms] name b0 z
    by (simp add: symbol_name_def Let_def)
qed

lemma precision_mk_symbol:
  assumes "length name \<le> 14" "d < 15"
  shows "precision (mk_asset x (mk_symbol d name)) = Inr (10 ^ d)"
proof -
  have "\<forall>d \<in> {0..<15}. precision_table ! d = 10 ^ d"
    by (simp add: atLeastLessThan_nat_numeral precision_table_def)
  then show ?thesis using assms by (simp add: precision_def decimals_mk_symbol)
qed

lemma copy_zero_symbol: "d < 15 \<Longrightarrow> set_decimals (mk_asset 0 0) d
    = Inr (mk_asset 0 (symbol_of_bytes (word_of_nat d # replicate 15 0)))"
  by (simp add: set_decimals_def symbol_bytes_def Let_def numeral_eq_Suc)

lemma zero_symbol_decimals: "d < 15 \<Longrightarrow> precision (mk_asset x (symbol_of_bytes (word_of_nat d # replicate 15 0))) = Inr (10 ^ d)"
proof -
  assume d: "d < 15"
  have "\<forall>d \<in> {0..<15}. precision_table ! d = 10 ^ d"
    by (simp add: atLeastLessThan_nat_numeral precision_table_def)
  then show ?thesis using d
    by (simp add: precision_def decimals_def symbol_bytes_of_bytes unat_of_nat)
qed

text \<open>
  The symbols the text form can carry: at most 14 decimals, a name of at most 14 printing
  characters, and no dot in the name of a symbol without decimals (the parser takes the first dot
  for the decimal point).
\<close>

definition roundtrip_ok :: "nat \<Rightarrow> string \<Rightarrow> bool" where
  "roundtrip_ok d name \<longleftrightarrow> d < 15 \<and> name \<noteq> [] \<and> length name \<le> 14 \<and> (\<forall>c \<in> set name. graphic c)
     \<and> (d = 0 \<longrightarrow> CHR ''.'' \<notin> set name)"

lemma fraction_small:
  assumes "d < 15"
  shows "int (10 ^ d + A mod 10 ^ d) < 2 ^ 63"
proof -
  have P: "(10::nat) ^ d \<le> 10 ^ 14" using assms by (intro power_increasing) auto
  have "A mod 10 ^ d < 10 ^ d" by simp
  with P have "10 ^ d + A mod 10 ^ d < 10 ^ 14 + (10 ^ 14 :: nat)" by linarith
  also have "\<dots> < 2 ^ 63" by simp
  finally show ?thesis by (metis of_nat_less_numeral_power_cancel_iff)
qed

lemma asset_to_string_eq:
  assumes "fc_decimal L" "roundtrip_ok d name" "int A < 2 ^ 63"
  shows "asset_to_string L (mk_asset (int A) (mk_symbol d name)) =
    Inr (dec_string (A div 10 ^ d)
      @ (if 0 < d then ''.'' @ drop 1 (dec_string (10 ^ d + A mod 10 ^ d)) else [])
      @ '' '' @ name)"
proof -
  have d: "d \<le> 14" "d < 15" using assms(2) by (auto simp: roundtrip_ok_def)
  have q: "A div 10 ^ d \<le> A" by (rule div_le_dividend)
  have cd: "cdiv (int A) (10 ^ d) = int (A div 10 ^ d)" "cmod (int A) (10 ^ d) = int (A mod 10 ^ d)"
    by (simp_all add: cdiv_nonneg cmod_nonneg zdiv_int zmod_int)
  have s1: "fc_to_string L (int (A div 10 ^ d)) = dec_string (A div 10 ^ d)"
    using assms(1,3) q unfolding fc_decimal_def by (meson le_less_trans of_nat_mono)
  have "int (10 ^ d + A mod 10 ^ d) < 2 ^ 63" using d(2) by (rule fraction_small)
  then have s2: "fc_to_string L (int (10 ^ d + A mod 10 ^ d)) = dec_string (10 ^ d + A mod 10 ^ d)"
    using assms(1) unfolding fc_decimal_def by blast
  have "10 ^ d + int (A mod 10 ^ d) = int (10 ^ d + A mod 10 ^ d)" by simp
  then show ?thesis using assms(2) cd s1 s2 d
    by (auto simp: asset_to_string_def precision_mk_symbol symbol_name_mk_symbol roundtrip_ok_def Let_def
       one_less_power simp del: of_nat_add)
qed

lemma fc_decimalD:
  assumes "fc_decimal L"
  shows "int n < 2 ^ 63 \<Longrightarrow> fc_to_int64 L (dec_string n) = Inr (int n)"
    and "s \<noteq> [] \<Longrightarrow> graphic (hd s) \<Longrightarrow> graphic (last s) \<Longrightarrow> fc_trim L s = s"
  using assms by (auto simp: fc_decimal_def)

lemma digit_graphic: "is_digit_char c \<Longrightarrow> graphic c"
  by (simp add: is_digit_char_def graphic_def)

lemma digit_not: "is_digit_char c \<Longrightarrow> c \<noteq> CHR '' '' \<and> c \<noteq> CHR ''.''"
  by (auto simp: is_digit_char_def)

lemma graphic_not_space: "graphic c \<Longrightarrow> c \<noteq> CHR '' ''"
  by (auto simp: graphic_def)

lemma trim_money:
  assumes "fc_decimal L" "roundtrip_ok d name"
  shows "fc_trim L (dec_string n @ f @ '' '' @ name) = dec_string n @ f @ '' '' @ name"
proof (rule fc_decimalD(2) [OF assms(1)])
  have "graphic (hd (dec_string n))" by (rule digit_graphic [OF dec_string_digits [of _ n]]) (simp add: hd_in_set)
  then show "graphic (hd (dec_string n @ f @ '' '' @ name))" by (simp add: hd_append)
  show "graphic (last (dec_string n @ f @ '' '' @ name))"
    using assms(2) by (auto simp: roundtrip_ok_def)
qed simp


text \<open>A concrete string library.\<close>

fun dec_value :: "string \<Rightarrow> nat \<Rightarrow> nat option" where
  "dec_value [] acc = Some acc"
| "dec_value (c # cs) acc = (if is_digit_char c then dec_value cs (10 * acc + (of_char c - 48)) else None)"

definition graphic_trim :: "string \<Rightarrow> string" where
  "graphic_trim s = rev (dropWhile (\<lambda>c. \<not> graphic c) (rev (dropWhile (\<lambda>c. \<not> graphic c) s)))"

definition ref_strings :: fc_string_lib where
  "ref_strings = \<lparr>fc_trim = graphic_trim,
     fc_to_string = (\<lambda>i. if i < 0 then CHR ''-'' # dec_string (nat (- i)) else dec_string (nat i)),
     fc_to_int64 = (\<lambda>s. if s = [] then Inl Invalid_Value else case dec_value s 0 of None \<Rightarrow> Inl Invalid_Value | Some n \<Rightarrow> safe64 (int n))\<rparr>"

lemma dec_value_append: "dec_value (xs @ ys) acc = Option.bind (dec_value xs acc) (dec_value ys)"
  by (induction xs arbitrary: acc) auto

lemma dec_value_dec_string: "dec_value (dec_string n) 0 = Some n"
proof (induction n rule: dec_string.induct)
  case (1 n)
  show ?case
  proof (cases "n < 10")
    case True
    then show ?thesis by (subst dec_string.simps) (simp add: is_digit_char_def digit_char)
  next
    case False
    have "n mod 10 < 10" by simp
    then have "is_digit_char (char_of (48 + n mod 10))" "of_char (char_of (48 + n mod 10)) - 48 = n mod 10"
      by (simp_all only: is_digit_char_def digit_char) simp_all
    then show ?thesis using 1 False
      by (subst dec_string.simps) (simp add: dec_value_append)
  qed
qed

lemma graphic_trim_id: "s \<noteq> [] \<Longrightarrow> graphic (hd s) \<Longrightarrow> graphic (last s) \<Longrightarrow> graphic_trim s = s"
  using dropWhile_eq_self_iff [of "\<lambda>c. \<not> graphic c" s] dropWhile_eq_self_iff [of "\<lambda>c. \<not> graphic c" "rev s"]
  by (simp add: graphic_trim_def hd_rev)

lemma ref_strings_decimal: "fc_decimal ref_strings"
  by (simp add: fc_decimal_def ref_strings_def dec_value_dec_string graphic_trim_id int64_ok_def)


text \<open>
  Whatever \<open>fc::raw::pack\<close> writes for an asset whose amount fits 64 bits,
  \<open>fc::raw::unpack\<close> reads back exactly that asset and stops at the end of its bytes.
\<close>

theorem asset_binary_roundtrip:
  assumes "int64_ok (amount a)" "asset_pack a = Inr ws"
  shows "asset_unpack (ws @ rest) = Some (a, rest)"
proof -
  have am: "sint (word_of_int (amount a) :: 64 word) = amount a"
    using assms(1) wrap64_id by (simp add: wrap64_def)
  have lo: "(ucast (ucast (symbol a) :: 64 word) :: 8 word) = symbol_bytes (symbol a) ! 0"
    by (simp add: symbol_bytes_nth) (rule bit_word_eqI, simp add: bit_ucast_iff)
  have hi: "push_bit 64 (ucast (ucast (drop_bit 64 s) :: 64 word)) OR ucast (ucast s :: 64 word) = s" for s :: "128 word"
    by (rule bit_word_eqI) (auto simp: bit_or_iff bit_push_bit_iff bit_ucast_iff bit_drop_bit_eq not_less)
  have short: "ucast (ucast (symbol a) :: 64 word) = symbol a" if "drop_bit 64 (symbol a) = 0"
    using hi [of "symbol a"] that by simp
  show ?thesis
    using assms(2) am lo hi short
    by (cases a) (auto simp: asset_pack_def asset_unpack_def split: if_splits)
qed

theorem asset_binary_roundtrip_witness:
  "asset_unpack [1500, 91600047785731, 7] = Some (mk_asset 1500 STEEM_SYMBOL, [7])"
  using asset_binary_roundtrip [of "mk_asset 1500 STEEM_SYMBOL" "[1500, 91600047785731]" "[7]"]
  by (simp add: asset_pack_def int64_ok_def core_symbols symbol_bytes_def)

lemma asset_pack_stuck:
  "asset_pack a = Inl e \<longleftrightarrow> e = Assert_Exception \<and> sint (symbol_bytes (symbol a) ! 0) < 100 \<and> drop_bit 64 (symbol a) \<noteq> 0"
  by (auto simp: asset_pack_def rbind_Inl)

text \<open>The text form of a negative amount is wrong: the fraction is computed from a negative remainder.\<close>

lemma asset_to_string_negative:
  "asset_to_string ref_strings (mk_asset (- 5) (mk_symbol 3 ''GOLOS'')) = Inr ''0.95 GOLOS''"
  by (simp add: asset_to_string_def precision_mk_symbol symbol_name_mk_symbol graphic_def ref_strings_def
     cdiv_def cmod_def dec_string.simps char_of_def bit_nat_def)

text \<open>A dot in the name of a symbol without decimals makes the printed asset unreadable.\<close>

lemma asset_from_string_dotted:
  "asset_to_string ref_strings (mk_asset 5 (mk_symbol 0 ''AAA.BBB'')) = Inr ''5 AAA.BBB''"
  "asset_from_string ref_strings ''5 AAA.BBB'' = Inl Invalid_Value"
  by (simp_all add: asset_to_string_def precision_mk_symbol symbol_name_mk_symbol graphic_def ref_strings_def
     cdiv_def cmod_def dec_string.simps char_of_def bit_nat_def asset_from_string_def graphic_trim_def)
end
