(* ===== verification/Block.thy ===== *)
theory Block
  imports Golos_Prelude
begin

text \<open>
  Blocks: \<^verbatim>\<open>libraries/protocol/block.cpp\<close> and \<^verbatim>\<open>block.hpp\<close>. A block id is the block number, which
  the code stores in the first four bytes, and the rest of the hash of the header; the hash
  functions of the fc library are parameters (\<open>blk_digest\<close> is the hash of the header, \<open>H\<close> and \<open>F\<close>
  below hash a pair of digests and the last digest).
\<close>

section \<open>Blocks\<close>

record block_id_type =
  bid_num :: "32 word"
  bid_hash :: nat

definition null_block_id :: block_id_type where
  "null_block_id = \<lparr>bid_num = 0, bid_hash = 0\<rparr>"

text \<open>
  A block with the fields the chain reads: \<open>blk_signee\<close> is the key recovered from the witness
  signature, \<open>blk_pack_size\<close> the size of its serialisation and \<open>blk_transactions\<close> the digests of
  its transactions.
\<close>

datatype header_extension = Void_Extension | Version_Extension "32 word" | Hardfork_Vote_Extension "32 word" int

record signed_block =
  blk_previous :: block_id_type
  blk_digest :: nat
  blk_timestamp :: "32 word"
  blk_witness :: string
  blk_signee :: string
  blk_transactions :: "nat list"
  blk_merkle_root :: nat
  blk_pack_size :: "32 word"
  blk_extensions :: "header_extension list"

definition num_from_id :: "block_id_type \<Rightarrow> 32 word" where
  "num_from_id i = bid_num i"

definition block_num :: "signed_block \<Rightarrow> 32 word" where
  "block_num b = num_from_id (blk_previous b) + 1"

definition block_id :: "signed_block \<Rightarrow> block_id_type" where
  "block_id b = \<lparr>bid_num = block_num b, bid_hash = blk_digest b\<rparr>"

section \<open>Merkle root\<close>

text \<open>
  The source overwrites the array of digests in place: position \<open>k\<close> receives the hash of the pair at
  \<open>i\<close>, and an odd last digest is copied down.
\<close>

function merkle_pass :: "('d \<Rightarrow> 'd \<Rightarrow> 'd) \<Rightarrow> nat \<Rightarrow> nat \<Rightarrow> nat \<Rightarrow> 'd list \<Rightarrow> 'd list \<times> nat" where
  "merkle_pass H i_max i k ids =
    (if i < i_max then merkle_pass H i_max (i + 2) (k + 1) (ids[k := H (ids ! i) (ids ! (i + 1))])
     else (ids, k))"
  by pat_completeness auto
termination by (relation "measure (\<lambda>(H, m, i, k, ids). m - i)") auto

declare merkle_pass.simps [simp del]

lemma merkle_pass_count: "snd (merkle_pass H i_max i k ids) = k + (i_max + 1 - i) div 2"
proof (induction H i_max i k ids rule: merkle_pass.induct)
  case (1 H i_max i k ids)
  show ?case
  proof (cases "i < i_max")
    case True
    then have "(i_max + 1 - i) div 2 = (i_max + 1 - (i + 2)) div 2 + 1"
      by (cases "i_max = i + 1") (auto simp: div_if)
    with 1 True show ?thesis by (subst merkle_pass.simps) simp
  qed (subst merkle_pass.simps, simp)
qed

function merkle_loop :: "('d \<Rightarrow> 'd \<Rightarrow> 'd) \<Rightarrow> nat \<Rightarrow> 'd list \<Rightarrow> 'd" where
  "merkle_loop H n ids =
    (if n > 1 then
       let i_max = n - n mod 2;
           p = merkle_pass H i_max 0 0 ids
       in if n mod 2 = 1 then merkle_loop H (snd p + 1) ((fst p)[snd p := fst p ! i_max])
          else merkle_loop H (snd p) (fst p)
     else ids ! 0)"
  by pat_completeness auto
termination
  by (relation "measure (\<lambda>(H, n, ids). n)") (auto simp: merkle_pass_count div_le_dividend | presburger)+

declare merkle_loop.simps [simp del]

definition calculate_merkle_root :: "('d \<Rightarrow> 'd \<Rightarrow> 'd) \<Rightarrow> ('d \<Rightarrow> 'c) \<Rightarrow> 'c \<Rightarrow> 'd list \<Rightarrow> 'c" where
  "calculate_merkle_root H F zero digests =
    (if length digests = 0 then zero else F (merkle_loop H (length digests) digests))"

text \<open>The reference: pair neighbours, keep an odd last digest, until one is left.\<close>

fun pair_up :: "('d \<Rightarrow> 'd \<Rightarrow> 'd) \<Rightarrow> 'd list \<Rightarrow> 'd list" where
  "pair_up H (a # b # xs) = H a b # pair_up H xs"
| "pair_up H xs = xs"

lemma length_pair_up: "length (pair_up H xs) = (length xs + 1) div 2"
  by (induction H xs rule: pair_up.induct) auto

function merkle_tree :: "('d \<Rightarrow> 'd \<Rightarrow> 'd) \<Rightarrow> 'd list \<Rightarrow> 'd" where
  "merkle_tree H xs = (if length xs \<le> 1 then hd xs else merkle_tree H (pair_up H xs))"
  by pat_completeness auto
termination by (relation "measure (\<lambda>(H, xs). length xs)") (auto simp: length_pair_up)

declare merkle_tree.simps [simp del]

lemma merkle_pass_pairs:
  assumes "even (i_max - i)" "k \<le> i" "i \<le> i_max" "i_max \<le> length ids"
  shows "take (k + (i_max - i) div 2) (fst (merkle_pass H i_max i k ids)) = take k ids @ pair_up H (take (i_max - i) (drop i ids))
    \<and> drop i_max (fst (merkle_pass H i_max i k ids)) = drop i_max ids
    \<and> length (fst (merkle_pass H i_max i k ids)) = length ids"
  using assms
proof (induction H i_max i k ids rule: merkle_pass.induct)
  case (1 H i_max i k ids)
  show ?case
  proof (cases "i < i_max")
    case True
    let ?v = "H (ids ! i) (ids ! (i + 1))" let ?ids = "ids[k := ?v]"
    have ge: "i + 2 \<le> i_max" using True 1(2) by presburger
    define m where "m = i_max - (i + 2)"
    then have m: "i_max - i = m + 2" using ge by simp
    have eq: "merkle_pass H i_max i k ids = merkle_pass H i_max (i + 2) (k + 1) ?ids"
      using True by (subst merkle_pass.simps) simp
    have m2: "i_max - (i + 2) = m" using m by simp
    have dr: "take (i_max - i) (drop i ids) = ids ! i # ids ! (i + 1) # take m (drop (i + 2) ids)"
    proof -
      have "i < length ids" "Suc i < length ids" using ge 1(5) by simp_all
      then have "drop i ids = ids ! i # ids ! (i + 1) # drop (i + 2) ids"
        by (simp add: Cons_nth_drop_Suc)
      then show ?thesis using m by simp
    qed
    have "drop (i + 2) ?ids = drop (i + 2) ids" "take (k + 1) ?ids = take k ids @ [?v]" "drop i_max ?ids = drop i_max ids"
      using 1(3,5) ge by (simp_all add: take_Suc_conv_app_nth drop_update_cancel)
    moreover have "even (i_max - (i + 2))" using 1(2) m m2 by simp
    moreover have "k + (i_max - i) div 2 = k + 1 + (i_max - (i + 2)) div 2" using m m2 by simp
    ultimately show ?thesis
      using 1(1) [OF True] 1(3,4,5) ge unfolding eq dr m2 by (simp only: pair_up.simps append_assoc append_Cons append_Nil length_list_update)
  next
    case False
    then show ?thesis using 1(3,4) by (subst (1 2 3) merkle_pass.simps) simp
  qed
qed

lemma pair_up_odd: "even (length xs) \<Longrightarrow> pair_up H (xs @ [y]) = pair_up H xs @ [y]"
  by (induction H xs rule: pair_up.induct) auto

lemma merkle_loop_tree: "0 < n \<Longrightarrow> n \<le> length ids \<Longrightarrow> merkle_loop H n ids = merkle_tree H (take n ids)"
proof (induction n arbitrary: ids rule: less_induct)
  case (less n)
  show ?case
  proof (cases "n > 1")
    case False
    then have "n = 1" using less.prems by simp
    then show ?thesis using less.prems by (subst merkle_loop.simps, subst merkle_tree.simps) (cases ids; simp)
  next
    case True
    let ?m = "n - n mod 2" let ?p = "merkle_pass H ?m 0 0 ids"
    have ev: "even ?m" "?m \<le> length ids" using less.prems by auto
    have cnt: "snd ?p = ?m div 2" using merkle_pass_count [of H ?m 0 0 ids] ev by simp
    have P: "take (?m div 2) (fst ?p) = pair_up H (take ?m ids)" "drop ?m (fst ?p) = drop ?m ids" "length (fst ?p) = length ids"
      using merkle_pass_pairs [of ?m 0 0 ids H] ev by simp_all
    have tree: "merkle_tree H (take n ids) = merkle_tree H (pair_up H (take n ids))"
      using True less.prems by (subst merkle_tree.simps) simp
    show ?thesis
    proof (cases "n mod 2 = 1")
      case odd: True
      let ?ids = "(fst ?p)[?m div 2 := fst ?p ! ?m]"
      have nm: "n = Suc ?m" using odd by presburger
      have "fst ?p ! ?m = ids ! ?m"
        using P(2,3) less.prems nm by (metis Suc_le_eq hd_drop_conv_nth)
      then have "take (?m div 2 + 1) ?ids = pair_up H (take ?m ids) @ [ids ! ?m]"
        using P nm less.prems(2) by (simp add: take_Suc_conv_app_nth)
      also have "\<dots> = pair_up H (take n ids)"
        using ev less.prems(2) nm by (subst pair_up_odd [symmetric]) (auto simp: take_Suc_conv_app_nth [symmetric])
      finally have t: "take (?m div 2 + 1) ?ids = pair_up H (take n ids)" .
      have "merkle_loop H n ids = merkle_loop H (?m div 2 + 1) ?ids"
        using True odd cnt by (subst merkle_loop.simps) (simp add: Let_def)
      also have "\<dots> = merkle_tree H (take (?m div 2 + 1) ?ids)"
        using True odd nm less.prems(2) P(3) by (intro less.IH) auto
      finally show ?thesis using t tree by simp
    next
      case False
      then have nm: "n = ?m" by simp
      have "merkle_loop H n ids = merkle_loop H (n div 2) (fst ?p)"
        using True False cnt nm by (subst merkle_loop.simps) (simp add: Let_def)
      also have "\<dots> = merkle_tree H (take (n div 2) (fst ?p))"
        using True less.prems(2) P(3) by (intro less.IH) auto
      finally show ?thesis using P(1) nm tree by simp
    qed
  qed
qed

text \<open>
  C13. The in-place loop of \<open>signed_block::calculate_merkle_root\<close> ends and computes the root of the
  hash tree over the transaction digests, for every number of transactions.
\<close>

theorem calculate_merkle_root_tree:
  "calculate_merkle_root H F zero ds = (if ds = [] then zero else F (merkle_tree H ds))"
  using merkle_loop_tree [of "length ds" ds H] by (simp add: calculate_merkle_root_def)

lemma pair_up_inject:
  assumes "\<And>a b c d. H a b = H c d \<Longrightarrow> a = c \<and> b = d"
  shows "length xs = length ys \<Longrightarrow> pair_up H xs = pair_up H ys \<Longrightarrow> xs = ys"
proof (induction xs arbitrary: ys rule: induct_list012)
  case (2 x)
  then obtain y where "ys = [y]" by (cases ys) auto
  with 2 show ?case by simp
next
  case (3 a b xs)
  then obtain c d zs where ys: "ys = c # d # zs" by (cases ys; cases "tl ys") auto
  with 3 have e: "H a b = H c d" "pair_up H xs = pair_up H zs" "length xs = length zs" by simp_all
  with assms [OF e(1)] 3(1) [of zs] ys show ?case by simp
qed simp

lemma merkle_tree_inject:
  assumes "\<And>a b c d. H a b = H c d \<Longrightarrow> a = c \<and> b = d"
  shows "length xs = length ys \<Longrightarrow> xs \<noteq> [] \<Longrightarrow> merkle_tree H xs = merkle_tree H ys \<Longrightarrow> xs = ys"
proof (induction "length xs" arbitrary: xs ys rule: less_induct)
  case less
  show ?case
  proof (cases "length xs \<le> 1")
    case True
    then show ?thesis using less.prems
      by (subst (asm) (1 2) merkle_tree.simps) (cases xs; cases ys; simp)
  next
    case False
    then have "merkle_tree H (pair_up H xs) = merkle_tree H (pair_up H ys)"
      using less.prems by (subst (asm) (1 2) merkle_tree.simps) simp
    moreover have "length (pair_up H xs) < length xs" "length (pair_up H xs) = length (pair_up H ys)" "pair_up H xs \<noteq> []"
      using False less.prems by (auto simp: length_pair_up) (cases xs; cases "tl xs"; simp)
    ultimately have "pair_up H xs = pair_up H ys" using less.hyps by blast
    then show ?thesis using pair_up_inject [OF assms] less.prems(1) by blast
  qed
qed

datatype digest_term = Leaf nat | Pair digest_term digest_term


end
