(* ===== verification/Fork_Database.thy ===== *)
theory Fork_Database
  imports Block
begin

text \<open>
  The fork database: \<^verbatim>\<open>libraries/chain/fork_database.cpp\<close>. Every public operation is modelled,
  with the loops over links as partial functions whose termination is proved from the invariant
  (a link names an item created earlier). \<open>_push_next\<close> is not modelled: nothing calls it. The
  locks assume that no other \<open>shared_ptr\<close> to an item is held across operations.
\<close>

section \<open>The fork database\<close>

record fork_item =
  fi_prev :: "nat option"
  fi_num :: "32 word"
  fi_invalid :: bool
  fi_id :: block_id_type
  fi_data :: signed_block

definition mk_fork_item :: "signed_block \<Rightarrow> fork_item" where
  "mk_fork_item b = \<lparr>fi_prev = None, fi_num = block_num b, fi_invalid = False, fi_id = block_id b, fi_data = b\<rparr>"

definition previous_id :: "fork_item \<Rightarrow> block_id_type" where
  "previous_id i = blk_previous (fi_data i)"

text \<open>
  Items live in a heap and are named by their address; \<open>_index\<close>, \<open>_unlinked_index\<close> and \<open>_head\<close>
  own items, and the \<open>weak_ptr\<close> in \<open>fi_prev\<close> can be locked as long as one of them still owns the
  item it names.
\<close>

record fork_database =
  fd_heap :: "fork_item list"
  fd_index :: "nat list"
  fd_unlinked :: "nat list"
  fd_head :: "nat option"
  fd_max_size :: "32 word"

definition new_fork_database :: fork_database where
  "new_fork_database = \<lparr>fd_heap = [], fd_index = [], fd_unlinked = [], fd_head = None, fd_max_size = 1024\<rparr>"

definition item :: "fork_database \<Rightarrow> nat \<Rightarrow> fork_item" where
  "item fd a = fd_heap fd ! a"

definition lock :: "fork_database \<Rightarrow> nat option \<Rightarrow> nat option" where
  "lock fd w = (case w of None \<Rightarrow> None
     | Some a \<Rightarrow> if a \<in> set (fd_index fd) \<or> a \<in> set (fd_unlinked fd) \<or> fd_head fd = Some a
                then Some a else None)"

definition find_id :: "fork_database \<Rightarrow> block_id_type \<Rightarrow> nat list \<Rightarrow> nat option" where
  "find_id fd i as = find (\<lambda>a. fi_id (item fd a) = i) as"

definition index_insert :: "nat \<Rightarrow> fork_database \<Rightarrow> fork_database" where
  "index_insert a fd = (if find_id fd (fi_id (item fd a)) (fd_index fd) = None
     then fd\<lparr>fd_index := fd_index fd @ [a]\<rparr> else fd)"

definition alloc :: "fork_item \<Rightarrow> fork_database \<Rightarrow> nat \<times> fork_database" where
  "alloc i fd = (length (fd_heap fd), fd\<lparr>fd_heap := fd_heap fd @ [i]\<rparr>)"

definition fd_reset :: "fork_database \<Rightarrow> fork_database" where
  "fd_reset fd = fd\<lparr>fd_head := None, fd_index := []\<rparr>"

definition pop_block :: "fork_database \<Rightarrow> fork_database result" where
  "pop_block fd = (case fd_head fd of None \<Rightarrow> Inl Assert_Exception
     | Some h \<Rightarrow> (case lock fd (fi_prev (item fd h)) of None \<Rightarrow> Inl Assert_Exception
        | Some p \<Rightarrow> Inr (fd\<lparr>fd_head := Some p\<rparr>)))"

definition start_block :: "signed_block \<Rightarrow> fork_database \<Rightarrow> fork_database" where
  "start_block b fd = (let (a, fd1) = alloc (mk_fork_item b) fd
     in (index_insert a fd1)\<lparr>fd_head := Some a\<rparr>)"

definition window_start :: "fork_database \<Rightarrow> nat \<Rightarrow> int" where
  "window_start fd h = max 0 (uint (fi_num (item fd h)) - uint (fd_max_size fd))"

definition link_item :: "fork_item \<Rightarrow> fork_database \<Rightarrow> fork_item result" where
  "link_item i fd =
    (if fd_head fd \<noteq> None \<and> previous_id i \<noteq> null_block_id then
       (case find_id fd (previous_id i) (fd_index fd) of
          None \<Rightarrow> Inl Unlinkable_Block
        | Some p \<Rightarrow> rbind (check_assert (\<not> fi_invalid (item fd p))) (\<lambda>_. Inr (i\<lparr>fi_prev := Some p\<rparr>)))
     else Inr i)"

definition place_item :: "fork_item \<Rightarrow> fork_database \<Rightarrow> fork_database" where
  "place_item i fd =
    (let (a, fd1) = alloc i fd; fd2 = index_insert a fd1
     in case fd_head fd2 of None \<Rightarrow> fd2\<lparr>fd_head := Some a\<rparr>
        | Some h \<Rightarrow> if fi_num (item fd2 a) > fi_num (item fd2 h) then fd2\<lparr>fd_head := Some a\<rparr> else fd2)"

definition push_item :: "fork_item \<Rightarrow> fork_database \<Rightarrow> fork_database result" where
  "push_item i fd =
     rbind (case fd_head fd of None \<Rightarrow> Inr ()
            | Some h \<Rightarrow> check_assert (uint (fi_num i) > window_start fd h)) (\<lambda>_.
     rbind (link_item i fd) (\<lambda>i'. Inr (place_item i' fd)))"

definition push_block :: "signed_block \<Rightarrow> fork_database \<Rightarrow> (nat option \<times> fork_database) result" where
  "push_block b fd = rbind (push_item (mk_fork_item b) fd) (\<lambda>fd'. Inr (fd_head fd', fd'))"

text \<open>The first of the items with the least number: \<open>by_num_idx.begin()\<close>.\<close>

fun first_by_num :: "fork_database \<Rightarrow> nat list \<Rightarrow> nat option" where
  "first_by_num fd [] = None"
| "first_by_num fd (a # as) = (case first_by_num fd as of None \<Rightarrow> Some a
     | Some b \<Rightarrow> if fi_num (item fd b) < fi_num (item fd a) then Some b else Some a)"

lemma first_by_num_mem: "first_by_num fd as = Some a \<Longrightarrow> a \<in> set as"
  by (induction as arbitrary: a) (auto split: option.splits if_splits)

function prune :: "fork_database \<Rightarrow> int \<Rightarrow> nat list \<Rightarrow> nat list" where
  "prune fd limit as = (case first_by_num fd as of None \<Rightarrow> as
     | Some a \<Rightarrow> if uint (fi_num (item fd a)) < limit then prune fd limit (remove1 a as) else as)"
  by pat_completeness auto
termination
proof (relation "measure (\<lambda>(fd, l, as). length as)")
  fix fd limit as a
  assume "first_by_num fd as = Some a"
  then have "a \<in> set as" by (rule first_by_num_mem)
  moreover from this have "0 < length as" by (cases as) auto
  ultimately show "((fd, limit, remove1 a as), fd, limit, as) \<in> measure (\<lambda>(fd, l, as). length as)"
    by (simp add: length_remove1)
qed simp

declare prune.simps [simp del]

definition set_max_size :: "32 word \<Rightarrow> fork_database \<Rightarrow> fork_database" where
  "set_max_size s fd = (let fd1 = fd\<lparr>fd_max_size := s\<rparr> in
     case fd_head fd1 of None \<Rightarrow> fd1
     | Some h \<Rightarrow> fd1\<lparr>fd_index := prune fd1 (window_start fd1 h) (fd_index fd1),
                    fd_unlinked := prune fd1 (window_start fd1 h) (fd_unlinked fd1)\<rparr>)"

definition is_known_block :: "block_id_type \<Rightarrow> fork_database \<Rightarrow> bool" where
  "is_known_block i fd = (if find_id fd i (fd_index fd) \<noteq> None then True
     else find_id fd i (fd_unlinked fd) \<noteq> None)"

definition fetch_block :: "block_id_type \<Rightarrow> fork_database \<Rightarrow> nat option" where
  "fetch_block i fd = (case find_id fd i (fd_index fd) of Some a \<Rightarrow> Some a
     | None \<Rightarrow> find_id fd i (fd_unlinked fd))"

definition fetch_block_by_number :: "32 word \<Rightarrow> fork_database \<Rightarrow> nat list" where
  "fetch_block_by_number n fd = filter (\<lambda>a. fi_num (item fd a) = n) (fd_index fd)"

partial_function (option) descend :: "fork_database \<Rightarrow> 32 word \<Rightarrow> nat \<Rightarrow> nat list \<Rightarrow> (nat \<times> nat list) result option" where
  "descend fd n a acc =
    (if block_num (fi_data (item fd a)) > n then
       (case lock fd (fi_prev (item fd a)) of
          None \<Rightarrow> Some (Inl Assert_Exception)
        | Some p \<Rightarrow> descend fd n p (acc @ [a]))
     else Some (Inr (a, acc)))"

partial_function (option) descend_both :: "fork_database \<Rightarrow> nat \<Rightarrow> nat \<Rightarrow> nat list \<Rightarrow> nat list
    \<Rightarrow> (nat list \<times> nat list) result option" where
  "descend_both fd a b acc1 acc2 =
    (if previous_id (item fd a) \<noteq> previous_id (item fd b) then
       (case lock fd (fi_prev (item fd a)) of
          None \<Rightarrow> Some (Inl Assert_Exception)
        | Some p \<Rightarrow> (case lock fd (fi_prev (item fd b)) of
            None \<Rightarrow> Some (Inl Assert_Exception)
          | Some q \<Rightarrow> descend_both fd p q (acc1 @ [a]) (acc2 @ [b])))
     else Some (Inr (acc1 @ [a], acc2 @ [b])))"

definition fetch_branch_from :: "block_id_type \<Rightarrow> block_id_type \<Rightarrow> fork_database
    \<Rightarrow> (nat list \<times> nat list) result option" where
  "fetch_branch_from first second fd =
    (case find_id fd first (fd_index fd) of None \<Rightarrow> Some (Inl Assert_Exception)
     | Some f \<Rightarrow> (case find_id fd second (fd_index fd) of None \<Rightarrow> Some (Inl Assert_Exception)
       | Some g \<Rightarrow>
         Option.bind (descend fd (block_num (fi_data (item fd g))) f []) (\<lambda>r1.
         case r1 of Inl e \<Rightarrow> Some (Inl e)
         | Inr (f1, acc1) \<Rightarrow>
             Option.bind (descend fd (block_num (fi_data (item fd f1))) g []) (\<lambda>r2.
             case r2 of Inl e \<Rightarrow> Some (Inl e)
             | Inr (g1, acc2) \<Rightarrow> descend_both fd f1 g1 acc1 acc2))))"

partial_function (option) walk_down :: "fork_database \<Rightarrow> 32 word \<Rightarrow> nat option \<Rightarrow> nat option option" where
  "walk_down fd n next = (case next of None \<Rightarrow> Some None
     | Some a \<Rightarrow> if fi_num (item fd a) > n then walk_down fd n (lock fd (fi_prev (item fd a)))
                else Some (Some a))"

text \<open>With an empty database the source dereferences a null head.\<close>

definition walk_main_branch_to_num :: "32 word \<Rightarrow> fork_database \<Rightarrow> nat option option" where
  "walk_main_branch_to_num n fd = (case fd_head fd of None \<Rightarrow> None
     | Some h \<Rightarrow> if n > fi_num (item fd h) then Some None else walk_down fd n (Some h))"

definition fetch_block_on_main_branch_by_number :: "32 word \<Rightarrow> fork_database \<Rightarrow> nat option option" where
  "fetch_block_on_main_branch_by_number n fd = (let blocks = fetch_block_by_number n fd in
     if length blocks = 1 then Some (Some (blocks ! 0))
     else if length blocks = 0 then Some None
     else walk_main_branch_to_num n fd)"

definition set_head :: "nat option \<Rightarrow> fork_database \<Rightarrow> fork_database" where
  "set_head h fd = fd\<lparr>fd_head := h\<rparr>"

definition fd_remove :: "block_id_type \<Rightarrow> fork_database \<Rightarrow> fork_database" where
  "fd_remove i fd = fd\<lparr>fd_index := filter (\<lambda>a. fi_id (item fd a) \<noteq> i) (fd_index fd)\<rparr>"

section \<open>Invariant\<close>

definition wf_item :: "fork_database \<Rightarrow> nat \<Rightarrow> bool" where
  "wf_item fd a \<longleftrightarrow> fi_num (item fd a) = block_num (fi_data (item fd a))
     \<and> fi_id (item fd a) = block_id (fi_data (item fd a))
     \<and> (\<forall>p. fi_prev (item fd a) = Some p \<longrightarrow> p < a \<and> fi_id (item fd p) = previous_id (item fd a))"

definition fd_wf :: "fork_database \<Rightarrow> bool" where
  "fd_wf fd \<longleftrightarrow> (\<forall>a \<in> set (fd_index fd). a < length (fd_heap fd))
     \<and> fd_unlinked fd = []
     \<and> (\<forall>h. fd_head fd = Some h \<longrightarrow> h < length (fd_heap fd))
     \<and> distinct (map (\<lambda>a. fi_id (item fd a)) (fd_index fd))
     \<and> (\<forall>a < length (fd_heap fd). wf_item fd a)"

text \<open>The public operations of the class as steps; \<open>set_head\<close> receives an item of the index.\<close>

inductive fd_step :: "fork_database \<Rightarrow> fork_database \<Rightarrow> bool" where
  "fd_step fd (fd_reset fd)"
| "fd_step fd (start_block b fd)"
| "push_block b fd = Inr (h, fd') \<Longrightarrow> fd_step fd fd'"
| "pop_block fd = Inr fd' \<Longrightarrow> fd_step fd fd'"
| "fd_step fd (set_max_size s fd)"
| "a \<in> set (fd_index fd) \<Longrightarrow> fd_step fd (set_head (Some a) fd)"
| "fd_step fd (fd_remove i fd)"

inductive fd_reachable :: "fork_database \<Rightarrow> bool" where
  init: "fd_reachable new_fork_database"
| step: "fd_reachable fd \<Longrightarrow> fd_step fd fd' \<Longrightarrow> fd_reachable fd'"

lemma find_id_Some: "find_id fd i as = Some a \<Longrightarrow> a \<in> set as \<and> fi_id (item fd a) = i"
  by (auto simp: find_id_def find_Some_iff in_set_conv_nth)

lemma find_id_None: "find_id fd i as = None \<longleftrightarrow> i \<notin> (\<lambda>a. fi_id (item fd a)) ` set as"
  by (auto simp: find_id_def find_None_iff)

lemma item_upd [simp]:
  "item (fd\<lparr>fd_index := x\<rparr>) a = item fd a" "item (fd\<lparr>fd_unlinked := x\<rparr>) a = item fd a"
  "item (fd\<lparr>fd_head := y\<rparr>) a = item fd a" "item (fd\<lparr>fd_max_size := z\<rparr>) a = item fd a"
  by (simp_all add: item_def)

lemma item_alloc [simp]:
  "a < length (fd_heap fd) \<Longrightarrow> item (fd\<lparr>fd_heap := fd_heap fd @ [i]\<rparr>) a = item fd a"
  "item (fd\<lparr>fd_heap := fd_heap fd @ [i]\<rparr>) (length (fd_heap fd)) = i"
  by (simp_all add: item_def nth_append)

lemma wf_item_upd [simp]:
  "wf_item (fd\<lparr>fd_index := x\<rparr>) a = wf_item fd a" "wf_item (fd\<lparr>fd_unlinked := x\<rparr>) a = wf_item fd a"
  "wf_item (fd\<lparr>fd_head := y\<rparr>) a = wf_item fd a" "wf_item (fd\<lparr>fd_max_size := z\<rparr>) a = wf_item fd a"
  by (simp_all add: wf_item_def)

lemma wf_alloc:
  assumes "fd_wf fd" "fi_num i = block_num (fi_data i)" "fi_id i = block_id (fi_data i)"
    "\<And>p. fi_prev i = Some p \<Longrightarrow> p < length (fd_heap fd) \<and> fi_id (item fd p) = previous_id i"
  shows "fd_wf (fd\<lparr>fd_heap := fd_heap fd @ [i]\<rparr>)"
proof -
  let ?fd = "fd\<lparr>fd_heap := fd_heap fd @ [i]\<rparr>"
  have old: "wf_item ?fd a" if "a < length (fd_heap fd)" for a
    using assms(1) that by (force simp: fd_wf_def wf_item_def)
  have new: "wf_item ?fd (length (fd_heap fd))"
    using assms(2-4) by (auto simp: wf_item_def)
  have "map (\<lambda>a. fi_id (item ?fd a)) (fd_index fd) = map (\<lambda>a. fi_id (item fd a)) (fd_index fd)"
    using assms(1) by (intro map_cong) (auto simp: fd_wf_def)
  then have "distinct (map (\<lambda>a. fi_id (item ?fd a)) (fd_index fd))" using assms(1) by (simp only: fd_wf_def)
  then show ?thesis using assms(1) old new by (auto simp: fd_wf_def less_Suc_eq simp del: item_alloc)
qed

lemma wf_index_insert:
  assumes "fd_wf fd" "a < length (fd_heap fd)"
  shows "fd_wf (index_insert a fd)"
  using assms by (auto simp: index_insert_def fd_wf_def find_id_None)

lemma wf_set_head: "fd_wf fd \<Longrightarrow> a < length (fd_heap fd) \<Longrightarrow> fd_wf (fd\<lparr>fd_head := Some a\<rparr>)"
  by (simp add: fd_wf_def)

lemma heap_index_insert [simp]: "fd_heap (index_insert a fd) = fd_heap fd" "fd_head (index_insert a fd) = fd_head fd"
  "fd_unlinked (index_insert a fd) = fd_unlinked fd" "item (index_insert a fd) b = item fd b"
  by (simp_all add: index_insert_def)

lemma wf_start: "fd_wf fd \<Longrightarrow> fd_wf (start_block b fd)"
  by (auto simp: start_block_def alloc_def mk_fork_item_def intro!: wf_set_head wf_index_insert wf_alloc)

lemma link_item_Inr:
  assumes "link_item i fd = Inr i'"
  shows "i' = i \<or> (\<exists>p. p \<in> set (fd_index fd) \<and> fi_id (item fd p) = previous_id i \<and> i' = i\<lparr>fi_prev := Some p\<rparr>)"
  using assms by (auto simp: link_item_def dest: find_id_Some split: if_splits option.splits)

lemma wf_place:
  assumes "fd_wf (fd\<lparr>fd_heap := fd_heap fd @ [i]\<rparr>)"
  shows "fd_wf (place_item i fd)"
proof -
  have "fd_wf (index_insert (length (fd_heap fd)) (fd\<lparr>fd_heap := fd_heap fd @ [i]\<rparr>))"
    using assms by (rule wf_index_insert) simp
  then show ?thesis by (auto simp: place_item_def alloc_def Let_def intro!: wf_set_head split: option.splits)
qed

lemma wf_push_item:
  assumes "push_item (mk_fork_item b) fd = Inr fd'" "fd_wf fd"
  shows "fd_wf fd'"
proof -
  obtain i where i: "link_item (mk_fork_item b) fd = Inr i" and fd': "fd' = place_item i fd"
    using assms(1) by (auto simp: push_item_def)
  have "fd_wf (fd\<lparr>fd_heap := fd_heap fd @ [i]\<rparr>)"
    using link_item_Inr [OF i] assms(2)
    by (intro wf_alloc) (auto simp: mk_fork_item_def previous_id_def fd_wf_def)
  then show ?thesis unfolding fd' by (rule wf_place)
qed

lemma first_by_num_None: "first_by_num fd as = None \<longleftrightarrow> as = []"
  by (cases as) (auto split: option.splits if_splits)

lemma first_by_num_least:
  "first_by_num fd as = Some a \<Longrightarrow> b \<in> set as \<Longrightarrow> fi_num (item fd a) \<le> fi_num (item fd b)"
proof (induction as arbitrary: a)
  case (Cons x as)
  then show ?case by (cases "first_by_num fd as") (auto simp: first_by_num_None split: if_splits dest: order.strict_trans1)
qed simp

lemma prune_filter: "distinct as \<Longrightarrow> prune fd limit as = filter (\<lambda>a. limit \<le> uint (fi_num (item fd a))) as"
proof (induction fd limit as rule: prune.induct)
  case (1 fd limit as)
  show ?case
  proof (cases "first_by_num fd as")
    case None
    then show ?thesis by (subst prune.simps) (simp add: first_by_num_None)
  next
    case (Some a)
    show ?thesis
    proof (cases "uint (fi_num (item fd a)) < limit")
      case True
      have "filter (\<lambda>a. limit \<le> uint (fi_num (item fd a))) (remove1 a as) = filter (\<lambda>a. limit \<le> uint (fi_num (item fd a))) as"
        using True by (simp add: filter_remove1 remove1_idem)
      with 1 Some True show ?thesis by (subst prune.simps) simp
    next
      case False
      have "limit \<le> uint (fi_num (item fd b))" if "b \<in> set as" for b
        using first_by_num_least [OF Some that] False by (simp add: word_le_def)
      with Some False show ?thesis by (subst prune.simps) (simp add: filter_id_conv)
    qed
  qed
qed

lemma distinct_ids: "fd_wf fd \<Longrightarrow> distinct (fd_index fd)"
  by (auto simp: fd_wf_def distinct_map)

lemma set_max_size_eq:
  assumes "fd_wf fd"
  shows "set_max_size s fd = (case fd_head fd of None \<Rightarrow> fd\<lparr>fd_max_size := s\<rparr>
    | Some h \<Rightarrow> fd\<lparr>fd_max_size := s, fd_index :=
        filter (\<lambda>a. max 0 (uint (fi_num (item fd h)) - uint s) \<le> uint (fi_num (item fd a))) (fd_index fd)\<rparr>)"
  using assms distinct_ids [OF assms]
  by (auto simp: set_max_size_def Let_def prune_filter window_start_def fd_wf_def split: option.splits)

lemma wf_filter_index: "fd_wf fd \<Longrightarrow> fd_wf (fd\<lparr>fd_index := filter P (fd_index fd)\<rparr>)"
  by (auto simp: fd_wf_def distinct_map_filter)

lemma fd_wf_max_size [simp]: "fd_wf (fd\<lparr>fd_max_size := s\<rparr>) = fd_wf fd"
  by (simp add: fd_wf_def)

lemma lock_Some: "lock fd w = Some a \<Longrightarrow> w = Some a"
  by (auto simp: lock_def split: option.splits if_splits)

lemma wf_step: "fd_step fd fd' \<Longrightarrow> fd_wf fd \<Longrightarrow> fd_wf fd'"
proof (induction rule: fd_step.induct)
  case (3 b fd h fd')
  then show ?case by (auto simp: push_block_def intro: wf_push_item)
next
  case (4 fd fd')
  then obtain h p where "fd_head fd = Some h" "fi_prev (item fd h) = Some p" "fd' = fd\<lparr>fd_head := Some p\<rparr>"
    by (auto simp: pop_block_def dest: lock_Some split: option.splits)
  moreover from this 4 have "wf_item fd h" "h < length (fd_heap fd)" by (auto simp: fd_wf_def)
  ultimately show ?case using 4 by (auto simp: wf_item_def intro!: wf_set_head)
next
  case (5 fd s)
  then show ?case using wf_filter_index [of "fd\<lparr>fd_max_size := s\<rparr>"]
    by (auto simp: set_max_size_eq split: option.splits)
qed (auto simp: fd_reset_def wf_start set_head_def fd_remove_def wf_filter_index intro!: wf_set_head, auto simp: fd_wf_def)

text \<open>
  C7. However the fork database is used, its index keeps one item per block id, the link of an item
  names an earlier item whose id is the block's previous id, and no item is ever kept among the
  unlinked blocks.
\<close>

theorem fork_database_invariant: "fd_reachable fd \<Longrightarrow> fd_wf fd"
proof (induction rule: fd_reachable.induct)
  case init
  then show ?case by (simp add: fd_wf_def new_fork_database_def)
qed (rule wf_step)

section \<open>The head\<close>

definition head_highest :: "fork_database \<Rightarrow> bool" where
  "head_highest fd \<longleftrightarrow> (case fd_head fd of None \<Rightarrow> fd_index fd = []
     | Some h \<Rightarrow> (\<forall>a \<in> set (fd_index fd). fi_num (item fd a) \<le> fi_num (item fd h)))"

lemma set_index_insert: "set (fd_index (index_insert a fd)) \<subseteq> insert a (set (fd_index fd))"
  by (auto simp: index_insert_def)


text \<open>
  \<open>set_max_size\<close> removes exactly the blocks whose number is below the window under the head,
  although it only ever erases the first item by number; the head stays the highest block.
\<close>

theorem set_max_size_window:
  assumes "fd_wf fd" "head_highest fd" "fd_head fd = Some h"
  shows "head_highest (set_max_size s fd) \<and> fd_head (set_max_size s fd) = Some h
    \<and> set (fd_index (set_max_size s fd)) =
       {a \<in> set (fd_index fd). uint (fi_num (item fd h)) - uint s \<le> uint (fi_num (item fd a))}"
  using assms by (auto simp: set_max_size_eq head_highest_def)

section \<open>Branches\<close>

abbreviation links :: "fork_database \<Rightarrow> nat \<Rightarrow> nat \<Rightarrow> bool" where
  "links fd a b \<equiv> fi_prev (item fd a) = Some b"

lemma wf_prev:
  assumes "fd_wf fd" "a < length (fd_heap fd)" "fi_prev (item fd a) = Some p"
  shows "p < a" "p < length (fd_heap fd)" "fi_id (item fd p) = previous_id (item fd a)"
    "block_num (fi_data (item fd p)) = num_from_id (previous_id (item fd a))"
  using assms by (auto simp: fd_wf_def wf_item_def num_from_id_def block_id_def) (metis block_id_type.select_convs(1) order.strict_trans)

lemma descend_spec:
  assumes "fd_wf fd" "a < length (fd_heap fd)"
  shows "\<exists>r. descend fd n a acc = Some r \<and> (\<forall>a' acc'. r = Inr (a', acc') \<longrightarrow>
    (\<exists>mid. acc' = acc @ mid \<and> successively (links fd) (mid @ [a']) \<and> hd (mid @ [a']) = a
      \<and> a' < length (fd_heap fd) \<and> block_num (fi_data (item fd a')) \<le> n
      \<and> (mid \<noteq> [] \<longrightarrow> block_num (fi_data (item fd a')) = n)))"
  using assms(2)
proof (induction a arbitrary: acc rule: less_induct)
  case (less a)
  let ?num = "\<lambda>x. block_num (fi_data (item fd x))"
  show ?case
  proof (cases "n < ?num a")
    case False
    then show ?thesis using less.prems by (subst descend.simps) auto
  next
    case True
    show ?thesis
    proof (cases "lock fd (fi_prev (item fd a))")
      case None
      then show ?thesis using True by (subst descend.simps) auto
    next
      case (Some p)
      then have l: "links fd a p" by (rule lock_Some)
      note P = wf_prev [OF assms(1) less.prems l]
      obtain r where r: "descend fd n p (acc @ [a]) = Some r"
        and R: "\<forall>a' acc'. r = Inr (a', acc') \<longrightarrow> (\<exists>mid. acc' = (acc @ [a]) @ mid
          \<and> successively (links fd) (mid @ [a']) \<and> hd (mid @ [a']) = p \<and> a' < length (fd_heap fd)
          \<and> ?num a' \<le> n \<and> (mid \<noteq> [] \<longrightarrow> ?num a' = n))"
        using less.IH [OF P(1,2), of "acc @ [a]"] by blast
      have ge: "n \<le> ?num p"
      proof -
        have "?num a = ?num p + 1" using P(4) by (simp add: block_num_def previous_id_def)
        moreover have "?num a \<noteq> 0" using True by (metis word_not_simps(1))
        ultimately have "unat (?num a) = Suc (unat (?num p))" by (metis Suc_eq_plus1 add.commute unatSuc add.right_neutral)
        then show ?thesis using True by (simp add: word_le_nat_alt word_less_nat_alt)
      qed
      have "\<exists>mid. acc' = acc @ mid \<and> successively (links fd) (mid @ [a']) \<and> hd (mid @ [a']) = a
          \<and> a' < length (fd_heap fd) \<and> ?num a' \<le> n \<and> (mid \<noteq> [] \<longrightarrow> ?num a' = n)"
        if "r = Inr (a', acc')" for a' acc'
      proof -
        from R that obtain mid where m: "acc' = (acc @ [a]) @ mid" "successively (links fd) (mid @ [a'])"
          "hd (mid @ [a']) = p" "a' < length (fd_heap fd)" "?num a' \<le> n" "mid \<noteq> [] \<longrightarrow> ?num a' = n" by blast
        have "?num a' = n" using m(3,5,6) ge by (cases mid) auto
        moreover have "successively (links fd) ((a # mid) @ [a'])"
          using m(2,3) l by (cases mid) auto
        ultimately show ?thesis using m by (intro exI [of _ "a # mid"]) simp
      qed
      then show ?thesis using r Some True by (subst descend.simps) auto
    qed
  qed
qed

definition parts_at_fork :: "fork_database \<Rightarrow> nat list \<Rightarrow> nat list \<Rightarrow> bool" where
  "parts_at_fork fd b1 b2 \<longleftrightarrow> b1 \<noteq> [] \<and> b2 \<noteq> []
     \<and> previous_id (item fd (last b1)) = previous_id (item fd (last b2))
     \<and> (\<forall>i. 0 < i \<and> i < length b1 \<and> i < length b2 \<longrightarrow>
          previous_id (item fd (rev b1 ! i)) \<noteq> previous_id (item fd (rev b2 ! i)))"

lemma descend_both_spec:
  assumes "fd_wf fd" "a < length (fd_heap fd)" "b < length (fd_heap fd)"
  shows "\<exists>r. descend_both fd a b acc1 acc2 = Some r \<and> (\<forall>b1 b2. r = Inr (b1, b2) \<longrightarrow>
    (\<exists>m1 m2. b1 = acc1 @ m1 \<and> b2 = acc2 @ m2 \<and> length m1 = length m2 \<and> parts_at_fork fd m1 m2
      \<and> hd m1 = a \<and> hd m2 = b \<and> successively (links fd) m1 \<and> successively (links fd) m2))"
  using assms(2,3)
proof (induction a arbitrary: b acc1 acc2 rule: less_induct)
  case (less a)
  show ?case
  proof (cases "previous_id (item fd a) \<noteq> previous_id (item fd b)
      \<and> lock fd (fi_prev (item fd a)) \<noteq> None \<and> lock fd (fi_prev (item fd b)) \<noteq> None")
    case False
    have "parts_at_fork fd [a] [b]" if "previous_id (item fd a) = previous_id (item fd b)"
      using that by (auto simp: parts_at_fork_def)
    then show ?thesis using False
      by (subst descend_both.simps) (auto split: option.splits intro!: exI [of _ "[a]"] exI [of _ "[b]"])
  next
    case True
    then obtain p q where p: "lock fd (fi_prev (item fd a)) = Some p" and q: "lock fd (fi_prev (item fd b)) = Some q"
      and ne: "previous_id (item fd a) \<noteq> previous_id (item fd b)" by blast
    have lp: "links fd a p" "links fd b q" using p q by (auto dest: lock_Some)
    note P = wf_prev [OF assms(1) less.prems(1) lp(1)] and Q = wf_prev [OF assms(1) less.prems(2) lp(2)]
    obtain r where r: "descend_both fd p q (acc1 @ [a]) (acc2 @ [b]) = Some r"
      and R: "\<forall>b1 b2. r = Inr (b1, b2) \<longrightarrow> (\<exists>m1 m2. b1 = (acc1 @ [a]) @ m1 \<and> b2 = (acc2 @ [b]) @ m2
        \<and> length m1 = length m2 \<and> parts_at_fork fd m1 m2
        \<and> hd m1 = p \<and> hd m2 = q \<and> successively (links fd) m1 \<and> successively (links fd) m2)"
      using less.IH [OF P(1,2) Q(2), of "acc1 @ [a]" "acc2 @ [b]"] by blast
    have "\<exists>m1 m2. b1 = acc1 @ m1 \<and> b2 = acc2 @ m2 \<and> length m1 = length m2 \<and> parts_at_fork fd m1 m2
      \<and> hd m1 = a \<and> hd m2 = b \<and> successively (links fd) m1 \<and> successively (links fd) m2"
      if "r = Inr (b1, b2)" for b1 b2
    proof -
      from R that obtain m1 m2 where m: "b1 = acc1 @ a # m1" "b2 = acc2 @ b # m2"
        "length m1 = length m2" "parts_at_fork fd m1 m2" "hd m1 = p" "hd m2 = q"
        "successively (links fd) m1" "successively (links fd) m2" by auto
      have "parts_at_fork fd (a # m1) (b # m2)"
        using m(3,4) ne unfolding parts_at_fork_def
        by (auto simp: nth_append less_Suc_eq_le le_less rev_nth)
      moreover have "successively (links fd) (a # m1)" "successively (links fd) (b # m2)"
        using m lp by (auto simp: successively_Cons)
      ultimately show ?thesis using m by (intro exI [of _ "a # m1"] exI [of _ "b # m2"]) simp
    qed
    then show ?thesis using r p q ne by (subst descend_both.simps) auto
  qed
qed

lemma parts_at_fork_prefix:
  assumes "parts_at_fork fd m1 m2" "length m1 = length m2" "pre1 = [] \<or> pre2 = []"
  shows "parts_at_fork fd (pre1 @ m1) (pre2 @ m2)"
  using assms by (auto simp: parts_at_fork_def nth_append)

lemma successively_join:
  assumes "successively R (xs @ [y])" "successively R ys" "hd ys = y" "ys \<noteq> []"
  shows "successively R (xs @ ys)"
  using assms by (auto simp: successively_append_iff)

lemma descend_nil:
  assumes "fd_wf fd" "a < length (fd_heap fd)"
  obtains r where "descend fd n a [] = Some r"
    "\<And>a' acc'. r = Inr (a', acc') \<Longrightarrow> successively (links fd) (acc' @ [a']) \<and> hd (acc' @ [a']) = a
      \<and> a' < length (fd_heap fd) \<and> (acc' \<noteq> [] \<longrightarrow> block_num (fi_data (item fd a')) = n)"
  using descend_spec [OF assms, of n "[]"] by simp blast

lemma descend_stop: "block_num (fi_data (item fd a)) \<le> n \<Longrightarrow> descend fd n a acc = Some (Inr (a, acc))"
  by (subst descend.simps) auto

lemma descend_both_stop: "previous_id (item fd a) = previous_id (item fd b) \<Longrightarrow>
    descend_both fd a b acc1 acc2 = Some (Inr (acc1 @ [a], acc2 @ [b]))"
  by (subst descend_both.simps) simp

text \<open>
  C8. \<open>fetch_branch_from\<close> always returns; when it returns two branches, they start at the requested
  blocks, each item links to the next, their last blocks have the same previous block, and
  above it no two blocks at the same distance do: the branches meet at the most recent common
  ancestor.
\<close>

theorem fetch_branch_from_correct:
  assumes "fd_wf fd"
  shows "\<exists>r. fetch_branch_from first second fd = Some r \<and> (\<forall>b1 b2. r = Inr (b1, b2) \<longrightarrow>
    fi_id (item fd (hd b1)) = first \<and> fi_id (item fd (hd b2)) = second
    \<and> successively (links fd) b1 \<and> successively (links fd) b2 \<and> parts_at_fork fd b1 b2)"
proof (cases "find_id fd first (fd_index fd) = None \<or> find_id fd second (fd_index fd) = None")
  case True
  then show ?thesis by (auto simp: fetch_branch_from_def split: option.splits)
next
  case False
  then obtain f g where fg: "find_id fd first (fd_index fd) = Some f" "find_id fd second (fd_index fd) = Some g" by auto
  have F: "f < length (fd_heap fd)" "g < length (fd_heap fd)" "fi_id (item fd f) = first" "fi_id (item fd g) = second"
    using find_id_Some [OF fg(1)] find_id_Some [OF fg(2)] assms by (auto simp: fd_wf_def)
  let ?num = "\<lambda>x. block_num (fi_data (item fd x))"
  obtain r1 where r1: "descend fd (?num g) f [] = Some r1" and R1: "\<And>a' acc'. r1 = Inr (a', acc') \<Longrightarrow>
      successively (links fd) (acc' @ [a']) \<and> hd (acc' @ [a']) = f \<and> a' < length (fd_heap fd)
      \<and> (acc' \<noteq> [] \<longrightarrow> ?num a' = ?num g)"
    using descend_nil [OF assms F(1)] by blast
  show ?thesis
  proof (cases r1)
    case (Inl e)
    then show ?thesis using fg r1 by (simp add: fetch_branch_from_def)
  next
    case (Inr x)
    obtain f1 acc1 where x: "x = (f1, acc1)" by fastforce
    note R1' = R1 [OF Inr [unfolded x]]
    obtain r2 where r2: "descend fd (?num f1) g [] = Some r2" and R2: "\<And>a' acc'. r2 = Inr (a', acc') \<Longrightarrow>
      successively (links fd) (acc' @ [a']) \<and> hd (acc' @ [a']) = g \<and> a' < length (fd_heap fd)
      \<and> (acc' \<noteq> [] \<longrightarrow> ?num a' = ?num f1)"
      using descend_nil [OF assms F(2)] by blast
    have N2: "r2 = Inr (g, [])" if "?num f1 = ?num g" using r2 descend_stop [of fd g] that by simp
    show ?thesis
    proof (cases r2)
      case (Inl e)
      then show ?thesis using fg r1 r2 Inr x by (simp add: fetch_branch_from_def)
    next
      case i2: (Inr y)
      obtain g1 acc2 where y: "y = (g1, acc2)" by fastforce
      note R2' = R2 [OF i2 [unfolded y]]
      have one: "acc1 = [] \<or> acc2 = []" using N2 R1' i2 y by auto
      obtain r3 where r3: "descend_both fd f1 g1 acc1 acc2 = Some r3" and R3: "\<forall>b1 b2. r3 = Inr (b1, b2) \<longrightarrow>
        (\<exists>m1 m2. b1 = acc1 @ m1 \<and> b2 = acc2 @ m2 \<and> length m1 = length m2 \<and> parts_at_fork fd m1 m2
        \<and> hd m1 = f1 \<and> hd m2 = g1 \<and> successively (links fd) m1 \<and> successively (links fd) m2)"
        using descend_both_spec [OF assms, of f1 g1 acc1 acc2] R1' R2' by blast
      have "fi_id (item fd (hd b1)) = first \<and> fi_id (item fd (hd b2)) = second
          \<and> successively (links fd) b1 \<and> successively (links fd) b2 \<and> parts_at_fork fd b1 b2"
        if "r3 = Inr (b1, b2)" for b1 b2
      proof -
        from R3 that obtain m1 m2 where m: "b1 = acc1 @ m1" "b2 = acc2 @ m2" "length m1 = length m2"
          "parts_at_fork fd m1 m2" "hd m1 = f1" "hd m2 = g1"
          "successively (links fd) m1" "successively (links fd) m2" by blast
        have ne: "m1 \<noteq> []" "m2 \<noteq> []" using m(4) by (auto simp: parts_at_fork_def)
        have "hd b1 = f" using m(1,5) ne R1' by (cases acc1) simp_all
        moreover have "hd b2 = g" using m(2,6) ne R2' by (cases acc2) simp_all
        moreover have "successively (links fd) b1"
          unfolding m(1) by (rule successively_join [of _ _ f1]) (use m ne R1' in simp_all)
        moreover have "successively (links fd) b2"
          unfolding m(2) by (rule successively_join [of _ _ g1]) (use m ne R2' in simp_all)
        moreover have "parts_at_fork fd b1 b2" unfolding m(1,2) by (rule parts_at_fork_prefix [OF m(4,3) one])
        ultimately show ?thesis using F by simp
      qed
      then show ?thesis using fg r1 r2 r3 Inr x i2 y by (simp add: fetch_branch_from_def)
    qed
  qed
qed

section \<open>Witnesses\<close>

definition demo_block :: "block_id_type \<Rightarrow> nat \<Rightarrow> signed_block" where
  "demo_block p d = \<lparr>blk_previous = p, blk_digest = d, blk_timestamp = 0, blk_witness = [], blk_signee = [],
     blk_transactions = [], blk_merkle_root = 0, blk_pack_size = 0, blk_extensions = []\<rparr>"

abbreviation demo_id :: "32 word \<Rightarrow> nat \<Rightarrow> block_id_type" where
  "demo_id n d \<equiv> \<lparr>bid_num = n, bid_hash = d\<rparr>"

definition demo_fd :: fork_database where
  "demo_fd = start_block (demo_block (demo_id 6 70) 71) new_fork_database"

lemma demo_fd_reachable: "fd_reachable demo_fd"
  unfolding demo_fd_def by (rule fd_reachable.step [OF fd_reachable.init]) (rule fd_step.intros)

lemma demo_fd_wf: "fd_wf demo_fd"
proof -
  have "fd_wf new_fork_database" by (simp add: fd_wf_def new_fork_database_def)
  then show ?thesis unfolding demo_fd_def by (rule wf_start)
qed

lemmas fork_eval = demo_block_def demo_fd_def push_block_def push_item_def link_item_def place_item_def
  start_block_def alloc_def new_fork_database_def mk_fork_item_def block_num_def block_id_def
  num_from_id_def previous_id_def item_def index_insert_def find_id_def window_start_def
  null_block_id_def Let_def

theorem fork_database_invariant_witness: "fd_wf (set_max_size 10 demo_fd) \<and> fd_unlinked (set_max_size 10 demo_fd) = []"
proof -
  have "fd_reachable (set_max_size 10 demo_fd)"
    by (rule fd_reachable.step [OF demo_fd_reachable]) (rule fd_step.intros)
  from fork_database_invariant [OF this] show ?thesis by (simp add: fd_wf_def)
qed


theorem set_max_size_window_witness:
  "fd_head demo_fd = Some 0 \<and> set (fd_index (set_max_size 5 demo_fd)) = {0}"
proof -
  have d: "head_highest demo_fd" "fd_head demo_fd = Some 0" "fd_index demo_fd = [0]" "fi_num (item demo_fd 0) = 7"
    by (simp_all add: head_highest_def fork_eval)
  have "set (fd_index (set_max_size 5 demo_fd)) = {a \<in> {0}. uint (fi_num (item demo_fd 0)) - 5 \<le> uint (fi_num (item demo_fd a))}"
    using set_max_size_window [OF demo_fd_wf d(1,2), of 5] d(3) by simp
  also have "\<dots> = {0}" by auto
  finally show ?thesis using d(2) by simp
qed

theorem fetch_branch_from_correct_witness:
  "fetch_branch_from (demo_id 7 71) (demo_id 7 71) demo_fd = Some (Inr ([0], [0]))"
proof -
  have "fd_index demo_fd = [0]" "fi_id (item demo_fd 0) = demo_id 7 71" by (simp_all add: fork_eval)
  then have "find_id demo_fd (demo_id 7 71) (fd_index demo_fd) = Some 0" by (simp add: find_id_def)
  then have "fetch_branch_from (demo_id 7 71) (demo_id 7 71) demo_fd = Some (Inr ([0], [0]))"
    by (simp add: fetch_branch_from_def descend_stop [OF order_refl] descend_both_stop [OF refl])
  moreover have "\<exists>r. fetch_branch_from (demo_id 7 71) (demo_id 7 71) demo_fd = Some r"
    using fetch_branch_from_correct [OF demo_fd_wf, of "demo_id 7 71" "demo_id 7 71"]
    by (rule ex_forward) (rule conjunct1)
  ultimately show ?thesis by simp
qed

end
