(* ===== verification/Chain_Properties.thy ===== *)
theory Chain_Properties
  imports Asset
begin

text \<open>
  The chain properties the witnesses vote on: \<open>chain_properties_17\<close> to \<open>chain_properties_30\<close> of
  \<^verbatim>\<open>steem_operations.hpp\<close> with their validators from \<^verbatim>\<open>steem_operations.cpp\<close>. Each class of the
  source extends the previous one, and so does each record here; a validator is defined on every
  extension of its record, as the inherited method is. The value checks of
  \<^verbatim>\<open>validate_helper.hpp\<close> that the operations share come first.
\<close>

text \<open>How the delegator's share of the curation reward is paid.\<close>

datatype delegator_payout_strategy = to_delegator | to_delegated_vesting | payout_size

section \<open>Value checks\<close>

datatype asset_kind = GESTS | GOLOS | GBG | GOLOS_OR_GBG | GOLOS_OR_UIA | UIA

definition asset_kind_ok :: "asset_kind \<Rightarrow> asset_symbol_type \<Rightarrow> bool" where
  "asset_kind_ok k s = (case k of
     GESTS \<Rightarrow> s = VESTS_SYMBOL
   | GOLOS \<Rightarrow> s = STEEM_SYMBOL
   | GBG \<Rightarrow> s = SBD_SYMBOL
   | GOLOS_OR_GBG \<Rightarrow> s = STEEM_SYMBOL \<or> s = SBD_SYMBOL
   | GOLOS_OR_UIA \<Rightarrow> s = STEEM_SYMBOL \<or> s \<noteq> SBD_SYMBOL \<and> s \<noteq> VESTS_SYMBOL \<and> s \<noteq> STMD_SYMBOL
   | UIA \<Rightarrow> s \<noteq> STEEM_SYMBOL \<or> s \<noteq> SBD_SYMBOL \<and> s \<noteq> VESTS_SYMBOL \<and> s \<noteq> STMD_SYMBOL)"

definition check_asset_ge :: "asset_kind \<Rightarrow> int \<Rightarrow> asset \<Rightarrow> unit result" where
  "check_asset_ge k v x = checks [check_value (asset_kind_ok k (symbol x)), check_value (v \<le> amount x)]"

definition check_asset_gt0 :: "asset_kind \<Rightarrow> asset \<Rightarrow> unit result" where
  "check_asset_gt0 k x = checks [check_value (asset_kind_ok k (symbol x)), check_value (0 < amount x)]"

abbreviation check_asset_ge0 :: "asset_kind \<Rightarrow> asset \<Rightarrow> unit result" where
  "check_asset_ge0 k x \<equiv> check_asset_ge k 0 x"

lemma check_asset_Inr [simp]:
  "check_asset_ge k v x = Inr () \<longleftrightarrow> asset_kind_ok k (symbol x) \<and> v \<le> amount x"
  "check_asset_gt0 k x = Inr () \<longleftrightarrow> asset_kind_ok k (symbol x) \<and> 0 < amount x"
  by (simp_all add: check_asset_ge_def check_asset_gt0_def checks_Inr)

lemma asset_kind_ok_simps [simp]:
  "asset_kind_ok GESTS s \<longleftrightarrow> s = VESTS_SYMBOL"
  "asset_kind_ok GOLOS s \<longleftrightarrow> s = STEEM_SYMBOL"
  "asset_kind_ok GBG s \<longleftrightarrow> s = SBD_SYMBOL"
  "asset_kind_ok GOLOS_OR_GBG s \<longleftrightarrow> s = STEEM_SYMBOL \<or> s = SBD_SYMBOL"
  by (simp_all add: asset_kind_ok_def)

text \<open>The check for a user-issued asset is a tautology: every symbol passes it.\<close>

lemma asset_kind_ok_UIA: "asset_kind_ok UIA s"
proof -
  have "STEEM_SYMBOL \<noteq> SBD_SYMBOL" "STEEM_SYMBOL \<noteq> VESTS_SYMBOL" "STEEM_SYMBOL \<noteq> STMD_SYMBOL"
    by (simp_all add: STEEM_SYMBOL_def SBD_SYMBOL_def VESTS_SYMBOL_def STMD_SYMBOL_def)
  then show ?thesis by (auto simp: asset_kind_ok_def)
qed

section \<open>The properties\<close>

datatype curation_curve = curve_bounded | curve_linear | curve_square_root | curve_size | curve_detect

record chain_properties_17 =
  account_creation_fee :: asset
  maximum_block_size :: "32 word"
  sbd_interest_rate :: "16 word"

record chain_properties_18 = chain_properties_17 +
  create_account_min_golos_fee :: asset
  create_account_min_delegation :: asset
  create_account_delegation_time :: "32 word"
  min_delegation :: asset

record chain_properties_19 = chain_properties_18 +
  max_referral_interest_rate :: "16 word"
  max_referral_term_sec :: "32 word"
  min_referral_break_fee :: asset
  max_referral_break_fee :: asset
  posts_window :: "16 word"
  posts_per_window :: "16 word"
  comments_window :: "16 word"
  comments_per_window :: "16 word"
  votes_window :: "16 word"
  votes_per_window :: "16 word"
  auction_window_size :: "16 word"
  max_delegated_vesting_interest_rate :: "16 word"
  custom_ops_bandwidth_multiplier :: "16 word"
  min_curation_percent :: "16 word"
  max_curation_percent :: "16 word"
  curation_reward_curve :: curation_curve
  allow_return_auction_reward_to_fund :: bool
  allow_distribute_auction_reward :: bool

record chain_properties_22 = chain_properties_19 +
  worker_reward_percent :: "16 word"
  witness_reward_percent :: "16 word"
  vesting_reward_percent :: "16 word"
  worker_request_creation_fee :: asset
  worker_request_approve_min_percent :: "16 word"
  sbd_debt_convert_rate :: "16 word"
  vote_regeneration_per_day :: "32 word"
  witness_skipping_reset_time :: "32 word"
  witness_idleness_time :: "32 word"
  account_idleness_time :: "32 word"

record chain_properties_23 = chain_properties_22 +
  claim_idleness_time :: "32 word"
  min_invite_balance :: asset

record chain_properties_24 = chain_properties_23 +
  asset_creation_fee :: asset
  invite_transfer_interval_sec :: "32 word"

record chain_properties_26 = chain_properties_24 +
  convert_fee_percent :: "16 word"
  min_golos_power_to_curate :: asset
  worker_emission_percent :: "16 word"
  vesting_of_remain_percent :: "16 word"
  negrep_posting_window :: "16 word"
  negrep_posting_per_window :: "16 word"

record chain_properties_27 = chain_properties_26 +
  unwanted_operation_cost :: asset
  unlimit_operation_cost :: asset

record chain_properties_28 = chain_properties_27 +
  min_golos_power_to_emission :: asset

record chain_properties_29 = chain_properties_28 +
  nft_issue_cost :: asset

record chain_properties_30 = chain_properties_29 +
  private_group_golos_power :: asset
  private_group_cost :: asset

text \<open>The member initialisers.\<close>

definition new_chain_properties :: chain_properties_30 where
  "new_chain_properties = \<lparr>account_creation_fee = mk_asset 1 STEEM_SYMBOL,
     maximum_block_size = 1024 * 64 * 2, sbd_interest_rate = 1000,
     create_account_min_golos_fee = mk_asset (1 * 30) STEEM_SYMBOL,
     create_account_min_delegation = mk_asset (1 * 30 * 5) STEEM_SYMBOL,
     create_account_delegation_time = 60 * 60 * 24 * 30,
     min_delegation = mk_asset (1 * 10) STEEM_SYMBOL,
     max_referral_interest_rate = 1000, max_referral_term_sec = 60 * 60 * 24 * 30 * 6,
     min_referral_break_fee = mk_asset 1 STEEM_SYMBOL, max_referral_break_fee = mk_asset 100000 STEEM_SYMBOL,
     posts_window = 3, posts_per_window = 1, comments_window = 200, comments_per_window = 10,
     votes_window = 15, votes_per_window = 5, auction_window_size = 60 * 30,
     max_delegated_vesting_interest_rate = 2500, custom_ops_bandwidth_multiplier = 100,
     min_curation_percent = 2500, max_curation_percent = 2500, curation_reward_curve = curve_linear,
     allow_return_auction_reward_to_fund = True, allow_distribute_auction_reward = True,
     worker_reward_percent = 1500, witness_reward_percent = 1000, vesting_reward_percent = 1000,
     worker_request_creation_fee = mk_asset 100000 SBD_SYMBOL,
     worker_request_approve_min_percent = 1000, sbd_debt_convert_rate = 100,
     vote_regeneration_per_day = 10, witness_skipping_reset_time = 60 * 60 * 6,
     witness_idleness_time = 60 * 60 * 24 * 30 * 12, account_idleness_time = 60 * 60 * 24 * 30 * 12,
     claim_idleness_time = 60 * 60 * 24, min_invite_balance = mk_asset 10000 STEEM_SYMBOL,
     asset_creation_fee = mk_asset 2000000 SBD_SYMBOL, invite_transfer_interval_sec = 60,
     convert_fee_percent = 500, min_golos_power_to_curate = mk_asset 1000000 STEEM_SYMBOL,
     worker_emission_percent = 100, vesting_of_remain_percent = 8000,
     negrep_posting_window = 24 * 60, negrep_posting_per_window = 3,
     unwanted_operation_cost = mk_asset 100000 STEEM_SYMBOL, unlimit_operation_cost = mk_asset 10000 STEEM_SYMBOL,
     min_golos_power_to_emission = mk_asset 1000000 SBD_SYMBOL, nft_issue_cost = mk_asset 5000 SBD_SYMBOL,
     private_group_golos_power = mk_asset 1000000 SBD_SYMBOL, private_group_cost = mk_asset 0 SBD_SYMBOL\<rparr>"

section \<open>Bounds\<close>

definition STEEMIT_MIN_ACCOUNT_CREATION_FEE :: int where "STEEMIT_MIN_ACCOUNT_CREATION_FEE = 1"
definition STEEMIT_MIN_BLOCK_SIZE_LIMIT :: int where "STEEMIT_MIN_BLOCK_SIZE_LIMIT = 1024 * 64"
definition GOLOS_CREATE_ACCOUNT_DELEGATION_TIME :: int where
  "GOLOS_CREATE_ACCOUNT_DELEGATION_TIME = 60 * 60 * 24 * 30"
definition GOLOS_MAX_REFERRAL_TERM_SEC :: int where "GOLOS_MAX_REFERRAL_TERM_SEC = 60 * 60 * 24 * 30 * 12"
definition STEEMIT_MIN_CURATION_PERCENT :: int where "STEEMIT_MIN_CURATION_PERCENT = 0"
definition STEEMIT_MAX_CURATION_PERCENT :: int where "STEEMIT_MAX_CURATION_PERCENT = 10000"
definition GOLOS_MIN_WITNESS_SKIPPING_RESET_TIME :: int where
  "GOLOS_MIN_WITNESS_SKIPPING_RESET_TIME = 60 * 60 * 1"
definition GOLOS_MIN_WITNESS_IDLENESS_TIME :: int where
  "GOLOS_MIN_WITNESS_IDLENESS_TIME = 60 * 60 * 24 * 30 * 1"
definition GOLOS_MIN_ACCOUNT_IDLENESS_TIME :: int where
  "GOLOS_MIN_ACCOUNT_IDLENESS_TIME = 60 * 60 * 24 * 30 * 1"
definition GOLOS_MIN_CLAIM_IDLENESS_TIME :: int where "GOLOS_MIN_CLAIM_IDLENESS_TIME = 60 * 60 * 24 * 1"
definition GOLOS_MIN_INVITE_BALANCE :: int where "GOLOS_MIN_INVITE_BALANCE = 1000"
definition GOLOS_MIN_ASSET_CREATION_FEE :: int where "GOLOS_MIN_ASSET_CREATION_FEE = 100000"
definition GOLOS_MIN_INVITE_TRANSFER_INTERVAL_SEC :: int where
  "GOLOS_MIN_INVITE_TRANSFER_INTERVAL_SEC = 1"
definition GOLOS_MAX_WORKER_EMISSION_PERCENT :: int where "GOLOS_MAX_WORKER_EMISSION_PERCENT = 5000"

definition STEEMIT_100_PERCENT :: int where
  "STEEMIT_100_PERCENT = 10000"

lemmas property_bounds = STEEMIT_MIN_ACCOUNT_CREATION_FEE_def STEEMIT_MIN_BLOCK_SIZE_LIMIT_def
  GOLOS_CREATE_ACCOUNT_DELEGATION_TIME_def GOLOS_MAX_REFERRAL_TERM_SEC_def
  STEEMIT_MIN_CURATION_PERCENT_def STEEMIT_MAX_CURATION_PERCENT_def
  GOLOS_MIN_WITNESS_SKIPPING_RESET_TIME_def GOLOS_MIN_WITNESS_IDLENESS_TIME_def
  GOLOS_MIN_ACCOUNT_IDLENESS_TIME_def GOLOS_MIN_INVITE_BALANCE_def GOLOS_MIN_ASSET_CREATION_FEE_def
  GOLOS_MIN_INVITE_TRANSFER_INTERVAL_SEC_def GOLOS_MAX_WORKER_EMISSION_PERCENT_def
  STEEMIT_100_PERCENT_def

section \<open>Validation\<close>

text \<open>An unsigned field between two bounds; the fields are promoted to \<open>int\<close> before they are compared.\<close>

abbreviation check_range :: "int \<Rightarrow> 'a :: len word \<Rightarrow> int \<Rightarrow> unit result" where
  "check_range l x h \<equiv> check_value (l \<le> uint x \<and> uint x \<le> h)"

definition chain_properties_17_validate :: "'a chain_properties_17_scheme \<Rightarrow> unit result" where
  "chain_properties_17_validate p = checks [
     check_asset_ge GOLOS STEEMIT_MIN_ACCOUNT_CREATION_FEE (account_creation_fee p),
     check_value (STEEMIT_MIN_BLOCK_SIZE_LIMIT \<le> uint (maximum_block_size p)),
     check_range 0 (sbd_interest_rate p) STEEMIT_100_PERCENT]"

definition chain_properties_18_validate :: "'a chain_properties_18_scheme \<Rightarrow> unit result" where
  "chain_properties_18_validate p = checks [
     chain_properties_17_validate p,
     check_asset_gt0 GOLOS (create_account_min_golos_fee p),
     check_asset_gt0 GOLOS (create_account_min_delegation p),
     check_asset_gt0 GOLOS (min_delegation p),
     check_value (GOLOS_CREATE_ACCOUNT_DELEGATION_TIME div 2 < uint (create_account_delegation_time p))]"

definition chain_properties_19_validate :: "'a chain_properties_19_scheme \<Rightarrow> unit result" where
  "chain_properties_19_validate p = checks [
     chain_properties_18_validate p,
     check_value (uint (max_referral_interest_rate p) \<le> STEEMIT_100_PERCENT),
     check_value (uint (max_referral_term_sec p) \<le> GOLOS_MAX_REFERRAL_TERM_SEC),
     check_param ''min_referral_break_fee'' (checks [
       check_value (symbol (min_referral_break_fee p) = STEEM_SYMBOL),
       rbind (asset_ge (min_referral_break_fee p) (mk_asset 0 STEEM_SYMBOL)) check_value]),
     check_param ''max_referral_break_fee'' (checks [
       check_value (symbol (max_referral_break_fee p) = STEEM_SYMBOL),
       rbind (asset_ge (max_referral_break_fee p) (min_referral_break_fee p)) check_value]),
     check_range 1 (posts_window p) (65535 div 2),
     check_range 1 (posts_per_window p) (uint (posts_window p)),
     check_range 1 (comments_window p) (65535 div 2),
     check_range 1 (comments_per_window p) (uint (comments_window p)),
     check_range 1 (votes_window p) (65535 div 2),
     check_range 1 (votes_per_window p) (uint (votes_window p)),
     check_value (uint (max_delegated_vesting_interest_rate p) \<le> STEEMIT_100_PERCENT),
     check_value (1 \<le> uint (custom_ops_bandwidth_multiplier p)),
     check_range STEEMIT_MIN_CURATION_PERCENT (min_curation_percent p) (uint (max_curation_percent p)),
     check_range (uint (min_curation_percent p)) (max_curation_percent p) STEEMIT_MAX_CURATION_PERCENT,
     check_param ''curation_reward_curve'' (check_value (curation_reward_curve p = curve_bounded
       \<or> curation_reward_curve p = curve_linear \<or> curation_reward_curve p = curve_square_root)),
     check_param ''allow_return_auction_reward_to_fund''
       (check_value (allow_return_auction_reward_to_fund p \<or> allow_distribute_auction_reward p))]"

definition chain_properties_22_validate :: "'a chain_properties_22_scheme \<Rightarrow> unit result" where
  "chain_properties_22_validate p = checks [
     chain_properties_19_validate p,
     check_value (uint (worker_reward_percent p) + uint (witness_reward_percent p)
       + uint (vesting_reward_percent p) \<le> STEEMIT_100_PERCENT),
     check_asset_ge0 GBG (worker_request_creation_fee p),
     check_value (uint (worker_request_approve_min_percent p) \<le> STEEMIT_100_PERCENT),
     check_value (uint (sbd_debt_convert_rate p) \<le> STEEMIT_100_PERCENT),
     check_value (uint (vote_regeneration_per_day p) \<le> STEEMIT_100_PERCENT),
     check_value (GOLOS_MIN_WITNESS_SKIPPING_RESET_TIME \<le> uint (witness_skipping_reset_time p)),
     check_value (GOLOS_MIN_WITNESS_IDLENESS_TIME \<le> uint (witness_idleness_time p)),
     check_value (GOLOS_MIN_ACCOUNT_IDLENESS_TIME \<le> uint (account_idleness_time p))]"

definition chain_properties_23_validate :: "'a chain_properties_23_scheme \<Rightarrow> unit result" where
  "chain_properties_23_validate p = checks [
     chain_properties_22_validate p,
     check_asset_ge GOLOS GOLOS_MIN_INVITE_BALANCE (min_invite_balance p)]"

definition chain_properties_24_validate :: "'a chain_properties_24_scheme \<Rightarrow> unit result" where
  "chain_properties_24_validate p = checks [
     chain_properties_23_validate p,
     check_asset_ge GBG GOLOS_MIN_ASSET_CREATION_FEE (asset_creation_fee p),
     check_value (GOLOS_MIN_INVITE_TRANSFER_INTERVAL_SEC \<le> uint (invite_transfer_interval_sec p))]"

definition chain_properties_26_validate :: "'a chain_properties_26_scheme \<Rightarrow> unit result" where
  "chain_properties_26_validate p = checks [
     chain_properties_24_validate p,
     check_range 0 (convert_fee_percent p) STEEMIT_100_PERCENT,
     check_value (uint (worker_emission_percent p) \<le> GOLOS_MAX_WORKER_EMISSION_PERCENT),
     check_value (uint (vesting_of_remain_percent p) \<le> STEEMIT_100_PERCENT)]"

definition chain_properties_27_validate :: "'a chain_properties_27_scheme \<Rightarrow> unit result" where
  "chain_properties_27_validate p = checks [
     chain_properties_26_validate p,
     check_asset_ge GOLOS 0 (unwanted_operation_cost p),
     check_asset_ge GOLOS 0 (unlimit_operation_cost p)]"

definition chain_properties_28_validate :: "'a chain_properties_28_scheme \<Rightarrow> unit result" where
  "chain_properties_28_validate p = checks [
     chain_properties_27_validate p,
     check_asset_ge GBG 0 (min_golos_power_to_emission p)]"

definition chain_properties_29_validate :: "'a chain_properties_29_scheme \<Rightarrow> unit result" where
  "chain_properties_29_validate p = checks [
     chain_properties_28_validate p,
     check_asset_ge GBG 0 (nft_issue_cost p)]"

definition chain_properties_30_validate :: "'a chain_properties_30_scheme \<Rightarrow> unit result" where
  "chain_properties_30_validate p = checks [
     chain_properties_29_validate p,
     check_asset_ge GBG 0 (private_group_golos_power p),
     check_asset_ge GBG 0 (private_group_cost p)]"

datatype versioned_chain_properties =
    Props_17 chain_properties_17 | Props_18 chain_properties_18 | Props_19 chain_properties_19
  | Props_22 chain_properties_22 | Props_23 chain_properties_23 | Props_24 chain_properties_24
  | Props_26 chain_properties_26 | Props_27 chain_properties_27 | Props_28 chain_properties_28
  | Props_29 chain_properties_29 | Props_30 chain_properties_30

definition chain_properties_validator :: "versioned_chain_properties \<Rightarrow> unit result" where
  "chain_properties_validator v = (case v of
     Props_17 p \<Rightarrow> chain_properties_17_validate p | Props_18 p \<Rightarrow> chain_properties_18_validate p
   | Props_19 p \<Rightarrow> chain_properties_19_validate p | Props_22 p \<Rightarrow> chain_properties_22_validate p
   | Props_23 p \<Rightarrow> chain_properties_23_validate p | Props_24 p \<Rightarrow> chain_properties_24_validate p
   | Props_26 p \<Rightarrow> chain_properties_26_validate p | Props_27 p \<Rightarrow> chain_properties_27_validate p
   | Props_28 p \<Rightarrow> chain_properties_28_validate p | Props_29 p \<Rightarrow> chain_properties_29_validate p
   | Props_30 p \<Rightarrow> chain_properties_30_validate p)"

section \<open>Assignment between versions\<close>

text \<open>
  \<open>operator=\<close> from an older version overwrites the fields of that version and keeps the others.
  The overload that starts from version 17 copies the three fields one by one.
\<close>

definition assign_17 :: "chain_properties_17 \<Rightarrow> 'a chain_properties_18_scheme \<Rightarrow> 'a chain_properties_18_scheme" where
  "assign_17 src dst = dst\<lparr>account_creation_fee := account_creation_fee src,
     maximum_block_size := maximum_block_size src, sbd_interest_rate := sbd_interest_rate src\<rparr>"

definition assign_18 :: "chain_properties_18 \<Rightarrow> 'a chain_properties_18_scheme \<Rightarrow> 'a chain_properties_18_scheme" where
  "assign_18 src dst = chain_properties_18.extend src (chain_properties_18.more dst)"

definition assign_19 :: "chain_properties_19 \<Rightarrow> 'a chain_properties_19_scheme \<Rightarrow> 'a chain_properties_19_scheme" where
  "assign_19 src dst = chain_properties_19.extend src (chain_properties_19.more dst)"

definition assign_22 :: "chain_properties_22 \<Rightarrow> 'a chain_properties_22_scheme \<Rightarrow> 'a chain_properties_22_scheme" where
  "assign_22 src dst = chain_properties_22.extend src (chain_properties_22.more dst)"

definition assign_23 :: "chain_properties_23 \<Rightarrow> 'a chain_properties_23_scheme \<Rightarrow> 'a chain_properties_23_scheme" where
  "assign_23 src dst = chain_properties_23.extend src (chain_properties_23.more dst)"

definition assign_24 :: "chain_properties_24 \<Rightarrow> 'a chain_properties_24_scheme \<Rightarrow> 'a chain_properties_24_scheme" where
  "assign_24 src dst = chain_properties_24.extend src (chain_properties_24.more dst)"

definition assign_26 :: "chain_properties_26 \<Rightarrow> 'a chain_properties_26_scheme \<Rightarrow> 'a chain_properties_26_scheme" where
  "assign_26 src dst = chain_properties_26.extend src (chain_properties_26.more dst)"

definition assign_27 :: "chain_properties_27 \<Rightarrow> 'a chain_properties_27_scheme \<Rightarrow> 'a chain_properties_27_scheme" where
  "assign_27 src dst = chain_properties_27.extend src (chain_properties_27.more dst)"

definition assign_28 :: "chain_properties_28 \<Rightarrow> 'a chain_properties_28_scheme \<Rightarrow> 'a chain_properties_28_scheme" where
  "assign_28 src dst = chain_properties_28.extend src (chain_properties_28.more dst)"

definition assign_29 :: "chain_properties_29 \<Rightarrow> 'a chain_properties_29_scheme \<Rightarrow> 'a chain_properties_29_scheme" where
  "assign_29 src dst = chain_properties_29.extend src (chain_properties_29.more dst)"

text \<open>
  The visitor of \<^verbatim>\<open>chain_properties_evaluators.cpp\<close>: what a witness may set depends on the
  hardfork (\<open>hf\<close> tells which hardforks are applied). Versions 17 and 18 take the generic overload.
\<close>

definition update_19_check :: "(nat \<Rightarrow> bool) \<Rightarrow> 'a chain_properties_19_scheme \<Rightarrow> unit result" where
  "update_19_check hf p = check_param ''props'' (checks [
     if \<not> hf 22 then check_value (uint (max_delegated_vesting_interest_rate p) \<le> 8000) else Inr (),
     if \<not> hf 22 then check_range 2500 (min_curation_percent p) (uint (max_curation_percent p)) else Inr (),
     if \<not> hf 23 then check_param ''max_referral_break_fee''
       (rbind (asset_le (max_referral_break_fee p) (mk_asset 100000 STEEM_SYMBOL)) check_value)
     else Inr ()])"

definition hf23_check :: "(nat \<Rightarrow> bool) \<Rightarrow> 'a chain_properties_23_scheme \<Rightarrow> unit result" where
  "hf23_check hf p = check_param ''props''
     (if \<not> hf 27 then check_value (GOLOS_MIN_CLAIM_IDLENESS_TIME \<le> uint (claim_idleness_time p)) else Inr ())"

definition hf26_check :: "(nat \<Rightarrow> bool) \<Rightarrow> 'a chain_properties_26_scheme \<Rightarrow> unit result" where
  "hf26_check hf p = check_param ''props'' (checks [
     if \<not> hf 27 then check_range 1 (negrep_posting_window p) (65535 div 2) else Inr (),
     check_asset_ge (if \<not> hf 28 then GOLOS else GBG) 0 (min_golos_power_to_curate p)])"

abbreviation req_hf :: "(nat \<Rightarrow> bool) \<Rightarrow> nat \<Rightarrow> unit result" where
  "req_hf hf n \<equiv> check (hf n) Unsupported_Operation"

definition chain_properties_update ::
  "(nat \<Rightarrow> bool) \<Rightarrow> versioned_chain_properties \<Rightarrow> chain_properties_30 \<Rightarrow> chain_properties_30 result" where
  "chain_properties_update hf v w = (case v of
     Props_17 p \<Rightarrow> Inr (assign_17 p w)
   | Props_18 p \<Rightarrow> Inr (assign_18 p w)
   | Props_19 p \<Rightarrow> rbind (update_19_check hf p) (\<lambda>_. Inr (assign_19 p w))
   | Props_22 p \<Rightarrow> rbind (req_hf hf 22) (\<lambda>_. Inr (assign_22 p w))
   | Props_23 p \<Rightarrow> rbind (checks [req_hf hf 23, hf23_check hf p]) (\<lambda>_. Inr (assign_23 p w))
   | Props_24 p \<Rightarrow> rbind (checks [req_hf hf 24, hf23_check hf p]) (\<lambda>_. Inr (assign_24 p w))
   | Props_26 p \<Rightarrow> rbind (checks [req_hf hf 26, hf23_check hf p, hf26_check hf p]) (\<lambda>_. Inr (assign_26 p w))
   | Props_27 p \<Rightarrow> rbind (checks [req_hf hf 27, hf23_check hf p, hf26_check hf p]) (\<lambda>_. Inr (assign_27 p w))
   | Props_28 p \<Rightarrow> rbind (checks [req_hf hf 28, hf23_check hf p, hf26_check hf p]) (\<lambda>_. Inr (assign_28 p w))
   | Props_29 p \<Rightarrow> rbind (checks [req_hf hf 29, hf23_check hf p, hf26_check hf p]) (\<lambda>_. Inr (assign_29 p w))
   | Props_30 p \<Rightarrow> rbind (checks [req_hf hf 30, hf23_check hf p, hf26_check hf p]) (\<lambda>_. Inr p))"

end
