(* ===== verification/Chain_Tables.thy ===== *)
theory Chain_Tables
  imports Golos_Prelude
begin

text \<open>
  The chain state lives in multi-index containers (\<^verbatim>\<open>chainbase\<close> indices). A table here is the
  list of the rows in the order of their object ids, each with the unique secondary key the code
  looks it up by; creating a row appends it, as a fresh object id is larger than every earlier
  one. The locale \<open>keyed_table\<close> is the interface the ledger relies on: what a lookup returns after
  each change, that keys stay unique, and how each change moves the total of a weight over the
  rows. Its lemmas (totals of a two-row transfer, a row is bounded by the total) are proved once
  there, and the association-list tables interpret it.
\<close>

section \<open>Interface\<close>

locale keyed_table =
  fixes get :: "'k \<Rightarrow> 't \<Rightarrow> 'v option"
    and create :: "'k \<Rightarrow> 'v \<Rightarrow> 't \<Rightarrow> 't"
    and modify :: "'k \<Rightarrow> ('v \<Rightarrow> 'v) \<Rightarrow> 't \<Rightarrow> 't"
    and remove :: "'k \<Rightarrow> 't \<Rightarrow> 't"
    and rows :: "'t \<Rightarrow> 'v set"
    and total :: "('v \<Rightarrow> int) \<Rightarrow> 't \<Rightarrow> int"
    and wf :: "'t \<Rightarrow> bool"
  assumes get_create: "get k t = None \<Longrightarrow> get k' (create k v t) = (if k' = k then Some v else get k' t)"
    and get_modify: "get k' (modify k f t) = (if k' = k then map_option f (get k t) else get k' t)"
    and get_remove: "get k' (remove k t) = (if k' = k then None else get k' t)"
    and wf_create: "wf t \<Longrightarrow> get k t = None \<Longrightarrow> wf (create k v t)"
    and wf_modify: "wf t \<Longrightarrow> wf (modify k f t)"
    and wf_remove: "wf t \<Longrightarrow> wf (remove k t)"
    and rows_get: "wf t \<Longrightarrow> r \<in> rows t \<longleftrightarrow> (\<exists>k. get k t = Some r)"
    and total_create: "get k t = None \<Longrightarrow> total w (create k v t) = total w t + w v"
    and total_modify: "wf t \<Longrightarrow> get k t = Some v \<Longrightarrow>
      total w (modify k f t) = total w t - w v + w (f v)"
    and total_remove: "wf t \<Longrightarrow> get k t = Some v \<Longrightarrow> total w (remove k t) = total w t - w v"
    and total_nonneg: "(\<And>r. r \<in> rows t \<Longrightarrow> 0 \<le> w r) \<Longrightarrow> 0 \<le> total w t"
begin

lemma row_le_total:
  assumes "wf t" "get k t = Some v" "\<And>r. r \<in> rows t \<Longrightarrow> 0 \<le> w r"
  shows "w v \<le> total w t"
proof -
  have "0 \<le> total w (remove k t)"
  proof (rule total_nonneg)
    fix r assume "r \<in> rows (remove k t)"
    then have "\<exists>k'. get k' (remove k t) = Some r" using assms(1) rows_get wf_remove by blast
    then have "r \<in> rows t" using assms(1) get_remove rows_get by (metis option.distinct(1))
    then show "0 \<le> w r" by (rule assms(3))
  qed
  then show ?thesis using assms(1,2) by (simp add: total_remove)
qed

text \<open>Moving weight between two rows leaves the total alone.\<close>

lemma total_transfer:
  assumes "wf t" "get k t = Some v" "get k' t = Some v'" "k \<noteq> k'"
    and "w (f v) = w v - d" "w (g v') = w v' + d"
  shows "total w (modify k' g (modify k f t)) = total w t"
  using assms by (simp add: total_modify wf_modify get_modify)

lemma rows_modify:
  assumes "wf t" "r \<in> rows (modify k f t)"
  shows "r \<in> rows t \<or> (\<exists>v. get k t = Some v \<and> r = f v)"
  using assms by (auto simp: rows_get wf_modify get_modify split: if_splits)

lemma rows_create:
  assumes "wf t" "get k t = None"
  shows "rows (create k v t) = insert v (rows t)"
proof (rule set_eqI)
  fix r
  have "get k' t = Some r \<Longrightarrow> k' \<noteq> k" for k' using assms(2) by auto
  then show "r \<in> rows (create k v t) \<longleftrightarrow> r \<in> insert v (rows t)"
    using assms by (auto simp: rows_get wf_create get_create split: if_splits)
qed

lemma rows_remove: "wf t \<Longrightarrow> r \<in> rows (remove k t) \<Longrightarrow> r \<in> rows t"
  by (auto simp: rows_get wf_remove get_remove split: if_splits)

end

section \<open>Tables as association lists\<close>

type_synonym ('k, 'v) table = "('k \<times> 'v) list"

definition t_get :: "'k \<Rightarrow> ('k, 'v) table \<Rightarrow> 'v option" where
  "t_get k t = map_of t k"

definition t_create :: "'k \<Rightarrow> 'v \<Rightarrow> ('k, 'v) table \<Rightarrow> ('k, 'v) table" where
  "t_create k v t = t @ [(k, v)]"

definition t_modify :: "'k \<Rightarrow> ('v \<Rightarrow> 'v) \<Rightarrow> ('k, 'v) table \<Rightarrow> ('k, 'v) table" where
  "t_modify k f t = map (\<lambda>(k', v). (k', if k' = k then f v else v)) t"

definition t_remove :: "'k \<Rightarrow> ('k, 'v) table \<Rightarrow> ('k, 'v) table" where
  "t_remove k t = filter (\<lambda>(k', v). k' \<noteq> k) t"

definition t_rows :: "('k, 'v) table \<Rightarrow> 'v set" where
  "t_rows t = snd ` set t"

definition t_total :: "('v \<Rightarrow> int) \<Rightarrow> ('k, 'v) table \<Rightarrow> int" where
  "t_total w t = sum_list (map (\<lambda>(k, v). w v) t)"

definition t_wf :: "('k, 'v) table \<Rightarrow> bool" where
  "t_wf t \<longleftrightarrow> distinct (map fst t)"

lemmas table_defs = t_get_def t_create_def t_modify_def t_remove_def t_rows_def t_total_def t_wf_def

lemma map_of_t_modify: "map_of (t_modify k f t) k' =
    (if k' = k then map_option f (map_of t k) else map_of t k')"
  by (induction t) (auto simp: t_modify_def)

lemma map_of_t_remove: "map_of (t_remove k t) k' = (if k' = k then None else map_of t k')"
  by (induction t) (auto simp: t_remove_def)

lemma fst_t_modify [simp]: "map fst (t_modify k f t) = map fst t"
  by (induction t) (auto simp: t_modify_def)

lemma t_modify_absent: "k \<notin> fst ` set t \<Longrightarrow> t_modify k f t = t"
  by (induction t) (auto simp: t_modify_def)

lemma t_remove_absent: "k \<notin> fst ` set t \<Longrightarrow> t_remove k t = t"
  by (induction t) (auto simp: t_remove_def)

lemma t_total_modify:
  "t_wf t \<Longrightarrow> t_get k t = Some v \<Longrightarrow> t_total w (t_modify k f t) = t_total w t - w v + w (f v)"
proof (induction t)
  case (Cons p t)
  obtain k' v' where p: "p = (k', v')" by fastforce
  show ?case
  proof (cases "k' = k")
    case True
    with Cons.prems p have "k \<notin> fst ` set t" "v' = v" by (auto simp: t_wf_def t_get_def)
    then show ?thesis using p True t_modify_absent [of k t f]
      by (simp add: t_total_def t_modify_def)
  next
    case False
    with Cons p show ?thesis by (simp add: t_wf_def t_get_def t_total_def t_modify_def)
  qed
qed (simp add: t_get_def)

lemma t_total_remove:
  "t_wf t \<Longrightarrow> t_get k t = Some v \<Longrightarrow> t_total w (t_remove k t) = t_total w t - w v"
proof (induction t)
  case (Cons p t)
  obtain k' v' where p: "p = (k', v')" by fastforce
  show ?case
  proof (cases "k' = k")
    case True
    with Cons.prems p have "k \<notin> fst ` set t" "v' = v" by (auto simp: t_wf_def t_get_def)
    then show ?thesis using p True t_remove_absent [of k t]
      by (simp add: t_total_def t_remove_def)
  next
    case False
    with Cons p show ?thesis by (simp add: t_wf_def t_get_def t_total_def t_remove_def)
  qed
qed (simp add: t_get_def)

lemma t_get_modify: "t_get k' (t_modify k f t) =
    (if k' = k then map_option f (t_get k t) else t_get k' t)"
  by (simp add: t_get_def map_of_t_modify)

lemma t_get_remove: "t_get k' (t_remove k t) = (if k' = k then None else t_get k' t)"
  by (simp add: t_get_def map_of_t_remove)

lemma t_wf_create: "t_wf t \<Longrightarrow> t_get k t = None \<Longrightarrow> t_wf (t_create k v t)"
  by (simp add: t_wf_def t_get_def t_create_def map_of_eq_None_iff)

lemma t_wf_modify: "t_wf t \<Longrightarrow> t_wf (t_modify k f t)"
  by (simp add: t_wf_def)

lemma t_wf_remove: "t_wf t \<Longrightarrow> t_wf (t_remove k t)"
  by (simp add: t_wf_def t_remove_def distinct_map_filter)

lemma t_total_create: "t_total w (t_create k v t) = t_total w t + w v"
  by (simp add: t_total_def t_create_def)

interpretation tbl: keyed_table t_get t_create t_modify t_remove t_rows t_total t_wf
proof unfold_locales
  fix k k' :: 'a and t :: "('a, 'b) table" and v :: 'b
  assume "t_get k t = None"
  then show "t_get k' (t_create k v t) = (if k' = k then Some v else t_get k' t)"
    by (auto simp: t_get_def t_create_def map_add_def split: option.split)
next
  fix t :: "('a, 'b) table" and r :: 'b
  assume "t_wf t"
  then show "r \<in> t_rows t \<longleftrightarrow> (\<exists>k. t_get k t = Some r)"
    by (force simp: t_rows_def t_get_def t_wf_def)
next
  fix t :: "('a, 'b) table" and w :: "'b \<Rightarrow> int"
  assume "\<And>r. r \<in> t_rows t \<Longrightarrow> 0 \<le> w r"
  then show "0 \<le> t_total w t"
    by (force simp: t_total_def t_rows_def intro!: sum_list_nonneg)
qed (simp_all add: t_get_modify t_get_remove t_wf_create t_wf_modify t_wf_remove
    t_total_create t_total_modify t_total_remove)

lemmas table_simps = tbl.get_create tbl.get_modify tbl.get_remove tbl.wf_create tbl.wf_modify
  tbl.wf_remove tbl.total_create tbl.total_modify tbl.total_remove

text \<open>Creation in a container with a unique key fails when the key is taken.\<close>

definition t_insert :: "'k \<Rightarrow> 'v \<Rightarrow> ('k, 'v) table \<Rightarrow> ('k, 'v) table result" where
  "t_insert k v t = (if t_get k t = None then Inr (t_create k v t) else Inl Uniqueness_Violated)"

lemma t_insert_Inr [simp]: "t_insert k v t = Inr t' \<longleftrightarrow> t_get k t = None \<and> t' = t_create k v t"
  by (auto simp: t_insert_def)

text \<open>A property of every row and its key.\<close>

definition t_all :: "('k \<Rightarrow> 'v \<Rightarrow> bool) \<Rightarrow> ('k, 'v) table \<Rightarrow> bool" where
  "t_all P t = (\<forall>(k, v) \<in> set t. P k v)"

lemma t_all_get: "t_all P t \<Longrightarrow> t_get k t = Some v \<Longrightarrow> P k v"
  by (auto simp: t_all_def t_get_def dest!: map_of_SomeD)

lemma t_all_create [simp]: "t_all P (t_create k v t) \<longleftrightarrow> t_all P t \<and> P k v"
  by (auto simp: t_all_def t_create_def)

lemma t_all_modify: "t_all P t \<Longrightarrow> (\<And>v. P k v \<Longrightarrow> P k (f v)) \<Longrightarrow> t_all P (t_modify k f t)"
  by (fastforce simp: t_all_def t_modify_def)

lemma t_all_modify_const: "t_all P t \<Longrightarrow> P k v \<Longrightarrow> t_all P (t_modify k (\<lambda>_. v) t)"
  by (rule t_all_modify)

lemma t_all_remove: "t_all P t \<Longrightarrow> t_all P (t_remove k t)"
  by (auto simp: t_all_def t_remove_def)

lemmas t_all_intros = t_all_modify_const t_all_remove

end
