(* ===== verification/Chain_State.thy ===== *)
theory Chain_State
  imports Chain_Properties Chain_Tables Block
begin

text \<open>
  The chain state: the objects of \<^verbatim>\<open>libraries/chain/include/golos/chain/\<close> as records (fields
  keep the source's names behind a short prefix per object; of the wide objects, such as the account,
  the fields that the modelled operations read or write) and the database as the record of its
  indices, with the lookups of \<^verbatim>\<open>libraries/chain/database.cpp\<close>. Times are seconds, account names
  are strings (the empty string is \<open>account_name_type()\<close>), \<open>share_type\<close> amounts are integers kept
  in range by checked arithmetic, and 128-bit accumulators are 128-bit words. \<open>db_log\<close> collects
  the virtual operations and events handed to the observers; they do not feed back into the state.
\<close>

section \<open>Objects\<close>

type_synonym account_name = string
type_synonym public_key = string

record authority_data =
  weight_threshold :: "32 word"
  account_auths :: "(account_name \<times> 16 word) list"
  key_auths :: "(public_key \<times> 16 word) list"

record account_object =
  acc_name :: account_name
  acc_memo_key :: public_key
  acc_proxy :: account_name
  acc_last_account_update :: int
  acc_created :: int
  acc_mined :: bool
  acc_owner_challenged :: bool
  acc_active_challenged :: bool
  acc_last_owner_proved :: int
  acc_last_active_proved :: int
  acc_recovery_account :: account_name
  acc_reset_account :: account_name
  acc_last_account_recovery :: int
  acc_reputation :: int
  acc_balance :: asset
  acc_savings_balance :: asset
  acc_accumulative_balance :: asset
  acc_tip_balance :: asset
  acc_market_balance :: asset
  acc_sbd_balance :: asset
  acc_sbd_seconds :: "128 word"
  acc_sbd_seconds_last_update :: int
  acc_sbd_last_interest_payment :: int
  acc_market_sbd_balance :: asset
  acc_savings_sbd_balance :: asset
  acc_savings_sbd_seconds :: "128 word"
  acc_savings_sbd_seconds_last_update :: int
  acc_savings_sbd_last_interest_payment :: int
  acc_savings_withdraw_requests :: "8 word"
  acc_vesting_shares :: asset
  acc_delegated_vesting_shares :: asset
  acc_received_vesting_shares :: asset
  acc_emission_delegated_vesting_shares :: asset
  acc_emission_received_vesting_shares :: asset
  acc_withdrawn :: int
  acc_to_withdraw :: int
  acc_proxied_vsf_votes :: "int list"
  acc_witnesses_voted_for :: "16 word"
  acc_last_vote_time :: int
  acc_last_active_operation :: int
  acc_last_claim :: int
  acc_proved_hf :: nat
  acc_frozen :: bool
  acc_do_not_bother :: bool
  acc_can_vote :: bool
  acc_voting_power :: nat
  acc_vesting_withdraw_rate :: asset
  acc_next_vesting_withdrawal :: int
  acc_withdraw_routes :: "16 word"
  acc_referrer_account :: account_name
  acc_referrer_interest_rate :: nat
  acc_referral_end_date :: int
  acc_referral_break_fee :: asset
  acc_referral_count :: "32 word"

text \<open>A fresh account: the member initialisers of the class.\<close>

definition STEEMIT_MAX_PROXY_RECURSION_DEPTH :: nat where
  "STEEMIT_MAX_PROXY_RECURSION_DEPTH = 4"

text \<open>\<open>time_point_sec::maximum()\<close>.\<close>

definition time_point_max :: int where
  "time_point_max = 2 ^ 32 - 1"

definition new_account_object :: account_object where
  "new_account_object = \<lparr>acc_name = [], acc_memo_key = [], acc_proxy = [], acc_last_account_update = 0, acc_created = 0,
     acc_mined = True, acc_owner_challenged = False, acc_active_challenged = False, acc_last_owner_proved = 0,
     acc_last_active_proved = 0,
     acc_recovery_account = [], acc_reset_account = ''null'', acc_last_account_recovery = 0, acc_reputation = 0,
     acc_balance = mk_asset 0 STEEM_SYMBOL, acc_savings_balance = mk_asset 0 STEEM_SYMBOL,
     acc_accumulative_balance = mk_asset 0 STEEM_SYMBOL, acc_tip_balance = mk_asset 0 STEEM_SYMBOL,
     acc_market_balance = mk_asset 0 STEEM_SYMBOL, acc_sbd_balance = mk_asset 0 SBD_SYMBOL,
     acc_sbd_seconds = 0, acc_sbd_seconds_last_update = 0, acc_sbd_last_interest_payment = 0,
     acc_market_sbd_balance = mk_asset 0 SBD_SYMBOL, acc_savings_sbd_balance = mk_asset 0 SBD_SYMBOL,
     acc_savings_sbd_seconds = 0, acc_savings_sbd_seconds_last_update = 0,
     acc_savings_sbd_last_interest_payment = 0, acc_savings_withdraw_requests = 0,
     acc_vesting_shares = mk_asset 0 VESTS_SYMBOL,
     acc_delegated_vesting_shares = mk_asset 0 VESTS_SYMBOL,
     acc_received_vesting_shares = mk_asset 0 VESTS_SYMBOL,
     acc_emission_delegated_vesting_shares = mk_asset 0 VESTS_SYMBOL,
     acc_emission_received_vesting_shares = mk_asset 0 VESTS_SYMBOL,
     acc_withdrawn = 0, acc_to_withdraw = 0,
     acc_proxied_vsf_votes = replicate STEEMIT_MAX_PROXY_RECURSION_DEPTH 0,
     acc_witnesses_voted_for = 0, acc_last_vote_time = 0, acc_last_active_operation = 0,
     acc_last_claim = 0, acc_proved_hf = 0, acc_frozen = False, acc_do_not_bother = False,
     acc_can_vote = True, acc_voting_power = 10000,
     acc_vesting_withdraw_rate = mk_asset 0 VESTS_SYMBOL, acc_next_vesting_withdrawal = time_point_max,
     acc_withdraw_routes = 0, acc_referrer_account = [], acc_referrer_interest_rate = 0,
     acc_referral_end_date = 0, acc_referral_break_fee = mk_asset 0 STEEM_SYMBOL,
     acc_referral_count = 0\<rparr>"

record account_balance_object =
  ab_account :: account_name
  ab_balance :: asset
  ab_tip_balance :: asset
  ab_market_balance :: asset

record account_authority_object =
  aut_account :: account_name
  aut_owner :: authority_data
  aut_active :: authority_data
  aut_posting :: authority_data
  aut_last_owner_update :: int

record account_freeze_object =
  frz_account :: account_name
  frz_owner :: authority_data
  frz_active :: authority_data
  frz_posting :: authority_data
  frz_frozen :: int
  frz_hardfork :: nat

record convert_request_object =
  cr_owner :: account_name
  cr_requestid :: "32 word"
  cr_amount :: asset
  cr_fee :: asset
  cr_conversion_date :: int

record escrow_object =
  esc_escrow_id :: "32 word"
  esc_from :: account_name
  esc_to :: account_name
  esc_agent :: account_name
  esc_ratification_deadline :: int
  esc_escrow_expiration :: int
  esc_sbd_balance :: asset
  esc_steem_balance :: asset
  esc_pending_fee :: asset
  esc_to_approved :: bool
  esc_agent_approved :: bool
  esc_disputed :: bool

definition is_approved :: "escrow_object \<Rightarrow> bool" where
  "is_approved e \<longleftrightarrow> esc_to_approved e \<and> esc_agent_approved e"

record savings_withdraw_object =
  sw_from :: account_name
  sw_to :: account_name
  sw_memo :: string
  sw_request_id :: "32 word"
  sw_amount :: asset
  sw_complete :: int

record limit_order_object =
  lo_created :: int
  lo_expiration :: int
  lo_seller :: account_name
  lo_orderid :: "32 word"
  lo_for_sale :: int
  lo_symbol :: asset_symbol_type
  lo_sell_price :: price

definition amount_for_sale :: "limit_order_object \<Rightarrow> asset" where
  "amount_for_sale o1 = mk_asset (lo_for_sale o1) (symbol (base (lo_sell_price o1)))"

definition amount_to_receive :: "limit_order_object \<Rightarrow> asset result" where
  "amount_to_receive o1 = asset_mul_price (amount_for_sale o1) (lo_sell_price o1)"

definition buy_price :: "limit_order_object \<Rightarrow> price" where
  "buy_price o1 = price_invert (lo_sell_price o1)"

definition get_market :: "limit_order_object \<Rightarrow> asset_symbol_type \<times> asset_symbol_type" where
  "get_market o1 = (let b = symbol (base (lo_sell_price o1)); q = symbol (quote (lo_sell_price o1))
     in if b < q then (b, q) else (q, b))"

record liquidity_reward_balance_object =
  lr_steem_volume :: "64 word"
  lr_sbd_volume :: "64 word"
  lr_weight :: "128 word"
  lr_last_update :: int

definition lr_is_positive :: "liquidity_reward_balance_object \<Rightarrow> 64 word" where
  "lr_is_positive r = (if 0 < sint (lr_steem_volume r) \<and> 0 < sint (lr_sbd_volume r) then 1 else 0)"

definition volume_weight :: "liquidity_reward_balance_object \<Rightarrow> 128 word" where
  "volume_weight r = u128 (sint (lr_steem_volume r * lr_sbd_volume r * lr_is_positive r))"

definition min_volume_weight :: "liquidity_reward_balance_object \<Rightarrow> 128 word" where
  "min_volume_weight r =
     u128 (min (sint (lr_steem_volume r)) (sint (lr_sbd_volume r)) * sint (lr_is_positive r))"

definition update_weight :: "bool \<Rightarrow> liquidity_reward_balance_object \<Rightarrow> liquidity_reward_balance_object" where
  "update_weight hf9 r = r\<lparr>lr_weight := (if hf9 then min_volume_weight r else volume_weight r)\<rparr>"

record asset_object =
  ast_creator :: account_name
  ast_max_supply :: asset
  ast_supply :: asset
  ast_allow_fee :: bool
  ast_allow_override_transfer :: bool
  ast_created :: int
  ast_modified :: int
  ast_marketed :: int
  ast_symbols_whitelist :: "asset_symbol_type list"
  ast_fee_percent :: nat
  ast_json_metadata :: string

definition whitelists :: "asset_object \<Rightarrow> asset_symbol_type \<Rightarrow> bool" where
  "whitelists a s \<longleftrightarrow> ast_symbols_whitelist a = [] \<or> s \<in> set (ast_symbols_whitelist a)"

record market_pair_object =
  mp_base_depth :: asset
  mp_quote_depth :: asset

datatype witness_schedule_type = Top19 | Timeshare | Miner | No_Schedule

record witness_object =
  wit_owner :: account_name
  wit_votes :: int
  wit_virtual_last_update :: "128 word"
  wit_virtual_position :: "128 word"
  wit_virtual_scheduled_time :: "128 word"
  wit_sbd_exchange_rate :: price
  wit_last_sbd_exchange_update :: int
  wit_created :: int
  wit_url :: string
  wit_signing_key :: public_key
  wit_props :: chain_properties_30
  wit_transit_to_cyberway_vote :: int
  wit_total_missed :: "32 word"
  wit_last_aslot :: "64 word"
  wit_last_confirmed_block_num :: "64 word"
  wit_pow_worker :: "64 word"
  wit_schedule :: witness_schedule_type
  wit_running_version :: "32 word"
  wit_hardfork_version_vote :: "32 word"
  wit_hardfork_time_vote :: int

text \<open>\<open>witness_schedule_object\<close>, whose \<open>median_props\<close> and \<open>current_virtual_time\<close> are fields of the database.\<close>

record witness_schedule_object =
  wso_next_shuffle_block_num :: "32 word"
  wso_current_shuffled_witnesses :: "account_name list"
  wso_num_scheduled_witnesses :: "8 word"
  wso_top19_weight :: "8 word"
  wso_timeshare_weight :: "8 word"
  wso_miner_weight :: "8 word"
  wso_witness_pay_normalization_factor :: "32 word"
  wso_majority_version :: "32 word"

text \<open>\<open>hardfork_property_object\<close>, whose \<open>last_hardfork\<close> is \<open>db_hardfork\<close>.\<close>

record hardfork_property_object =
  hpo_current_hardfork_version :: "32 word"
  hpo_next_hardfork :: "32 word"
  hpo_next_hardfork_time :: int
  hpo_hf27_applied_block :: "32 word"

text \<open>\<open>feed_history_object\<close>, whose \<open>current_median_history\<close> is \<open>db_median_history\<close>.\<close>

record feed_history_object =
  fho_witness_median_history :: price
  fho_price_history :: "price list"

record withdraw_vesting_route_object =
  wro_percent :: nat
  wro_auto_vest :: bool

record vesting_delegation_object =
  vdo_delegator :: account_name
  vdo_delegatee :: account_name
  vdo_vesting_shares :: asset
  vdo_interest_rate :: nat
  vdo_payout_strategy :: delegator_payout_strategy
  vdo_is_emission :: bool
  vdo_min_delegation_time :: int

record vesting_delegation_expiration_object =
  vde_delegator :: account_name
  vde_vesting_shares :: asset
  vde_expiration :: int
  vde_is_emission :: bool

record invite_object =
  ino_creator :: account_name
  ino_balance :: asset
  ino_time :: int
  ino_last_transfer :: int
  ino_is_referral :: bool

record owner_authority_history_object =
  oah_account :: account_name
  oah_previous_owner_authority :: authority_data
  oah_last_valid_time :: int

record account_recovery_request_object =
  arr_new_owner_authority :: authority_data
  arr_expires :: int

record change_recovery_account_request_object =
  crr_recovery_account :: account_name
  crr_effective_on :: int

record dynamic_global_property_object =
  dgp_head_block_number :: nat
  dgp_time :: int
  dgp_virtual_supply :: asset
  dgp_current_supply :: asset
  dgp_current_sbd_supply :: asset
  dgp_total_vesting_fund_steem :: asset
  dgp_total_vesting_shares :: asset
  dgp_accumulative_balance :: asset
  dgp_accumulative_remainder :: asset
  dgp_total_reward_fund_steem :: asset
  dgp_sbd_interest_rate :: nat
  dgp_sbd_print_rate :: nat
  dgp_sbd_debt_percent :: nat
  dgp_is_forced_min_price :: bool
  dgp_maximum_block_size :: nat
  dgp_custom_ops_bandwidth_multiplier :: nat
  dgp_head_block_id :: block_id_type
  dgp_current_witness :: account_name
  dgp_num_pow_witnesses :: "32 word"
  dgp_average_block_size :: "32 word"
  dgp_current_aslot :: "64 word"
  dgp_recent_slots_filled :: "128 word"
  dgp_participation_count :: "8 word"
  dgp_last_irreversible_block_num :: "32 word"
  dgp_max_virtual_bandwidth :: "64 word"
  dgp_current_reserve_ratio :: "64 word"
  dgp_transit_block_num :: "32 word"

definition get_vesting_share_price :: "dynamic_global_property_object \<Rightarrow> price" where
  "get_vesting_share_price p =
     (if amount (dgp_total_vesting_fund_steem p) = 0 \<or> amount (dgp_total_vesting_shares p) = 0
      then mk_price (mk_asset 1000 STEEM_SYMBOL) (mk_asset 1000000 VESTS_SYMBOL)
      else mk_price (dgp_total_vesting_shares p) (dgp_total_vesting_fund_steem p))"

section \<open>The log\<close>

datatype chain_event =
    Interest_Op account_name asset
  | Fill_Order_Op account_name "32 word" asset asset account_name account_name "32 word" asset asset account_name price
  | Fill_Convert_Request_Op account_name "32 word" asset asset asset
  | Fill_Transfer_From_Savings_Op account_name account_name asset "32 word" string
  | Convert_Sbd_Debt_Op account_name asset asset asset asset
  | Order_Create_Event limit_order_object
  | Order_Delete_Event limit_order_object
  | Unwanted_Cost_Op account_name account_name asset
  | Account_Freeze_Op account_name bool asset
  | Fill_Vesting_Withdraw_Op account_name account_name asset asset
  | Return_Vesting_Delegation_Op account_name asset
  | Shutdown_Witness_Op account_name
  | Referral_Op account_name account_name nat int asset
  | Authority_Updated_Op account_name

section \<open>The database\<close>

record database =
  db_hardfork :: nat
  db_dgp :: dynamic_global_property_object
  db_median_history :: price
  db_median_props :: chain_properties_30
  db_current_virtual_time :: "128 word"
  db_store_memo :: bool
  db_accounts :: "(account_name, account_object) table"
  db_authorities :: "(account_name, account_authority_object) table"
  db_freezes :: "(account_name, account_freeze_object) table"
  db_metadata :: "(account_name, string) table"
  db_blockings :: "(account_name \<times> account_name) list"
  db_balances :: "(asset_symbol_type \<times> account_name, account_balance_object) table"
  db_assets :: "(asset_symbol_type, asset_object) table"
  db_orders :: "(account_name \<times> 32 word, limit_order_object) table"
  db_pairs :: "(asset_symbol_type \<times> asset_symbol_type, market_pair_object) table"
  db_liquidity :: "(account_name, liquidity_reward_balance_object) table"
  db_escrows :: "(account_name \<times> 32 word, escrow_object) table"
  db_withdraws :: "(account_name \<times> 32 word, savings_withdraw_object) table"
  db_converts :: "(account_name \<times> 32 word, convert_request_object) table"
  db_witnesses :: "(account_name, witness_object) table"
  db_witness_votes :: "(account_name \<times> account_name, int) table"
  db_schedule :: witness_schedule_object
  db_hardfork_property :: hardfork_property_object
  db_feed_history :: feed_history_object
  db_routes :: "(account_name \<times> account_name, withdraw_vesting_route_object) table"
  db_delegations :: "(account_name \<times> account_name, vesting_delegation_object) table"
  db_expirations :: "(nat, vesting_delegation_expiration_object) table"
  db_next_expiration :: nat
  db_fix_me :: "account_name list"
  db_owner_history :: "owner_authority_history_object list"
  db_recoveries :: "(account_name, account_recovery_request_object) table"
  db_recovery_changes :: "(account_name, change_recovery_account_request_object) table"
  db_declines :: "(account_name, int) table"
  db_donates :: "(account_name \<times> 16 word \<times> string) list"
  db_store_asset_metadata :: bool
  db_metadata_accounts :: "account_name list option"
  db_is_producing :: bool
  db_invites :: "(public_key, invite_object) table"
  db_log :: "chain_event list"

definition has_hardfork :: "nat \<Rightarrow> database \<Rightarrow> bool" where
  "has_hardfork h db \<longleftrightarrow> h < Suc (db_hardfork db)"

abbreviation head_block_time :: "database \<Rightarrow> int" where
  "head_block_time db \<equiv> dgp_time (db_dgp db)"

abbreviation head_block_num :: "database \<Rightarrow> nat" where
  "head_block_num db \<equiv> dgp_head_block_number (db_dgp db)"

definition push_log :: "chain_event \<Rightarrow> database \<Rightarrow> database" where
  "push_log ev db = db\<lparr>db_log := db_log db @ [ev]\<rparr>"

definition get_account :: "account_name \<Rightarrow> database \<Rightarrow> account_object result" where
  "get_account n db = (case t_get n (db_accounts db) of
     None \<Rightarrow> Inl (Missing_Object ''account'') | Some a \<Rightarrow> Inr a)"

definition throw_if_exists_account :: "account_name \<Rightarrow> database \<Rightarrow> unit result" where
  "throw_if_exists_account n db =
     check (t_get n (db_accounts db) = None) (Object_Already_Exist ''account'')"

text \<open>\<open>modify\<close> on an account: the reference is live, so the update sees the current row.\<close>

definition modify_account ::
  "account_name \<Rightarrow> (account_object \<Rightarrow> account_object result) \<Rightarrow> database \<Rightarrow> database result" where
  "modify_account n f db = rbind (get_account n db) (\<lambda>a. rbind (f a) (\<lambda>a'.
     Inr (db\<lparr>db_accounts := t_modify n (\<lambda>_. a') (db_accounts db)\<rparr>)))"

definition modify_dgp ::
  "(dynamic_global_property_object \<Rightarrow> dynamic_global_property_object result) \<Rightarrow> database \<Rightarrow> database result" where
  "modify_dgp f db = rbind (f (db_dgp db)) (\<lambda>p. Inr (db\<lparr>db_dgp := p\<rparr>))"

definition get_asset :: "asset_symbol_type \<Rightarrow> database \<Rightarrow> asset_object result" where
  "get_asset s db = (case t_get s (db_assets db) of
     None \<Rightarrow> Inl (Missing_Object ''asset'') | Some a \<Rightarrow> Inr a)"

definition get_escrow :: "account_name \<Rightarrow> 32 word \<Rightarrow> database \<Rightarrow> escrow_object result" where
  "get_escrow n i db = (case t_get (n, i) (db_escrows db) of
     None \<Rightarrow> Inl (Missing_Object ''escrow'') | Some e \<Rightarrow> Inr e)"

definition limit_order_key :: "account_name \<Rightarrow> 32 word \<Rightarrow> database \<Rightarrow> account_name \<times> 32 word" where
  "limit_order_key n i db = (n, if has_hardfork 6 db then i else take_bit 16 i)"

definition get_limit_order :: "account_name \<Rightarrow> 32 word \<Rightarrow> database \<Rightarrow> limit_order_object result" where
  "get_limit_order n i db = (case t_get (limit_order_key n i db) (db_orders db) of
     None \<Rightarrow> Inl (Missing_Object ''limit_order'') | Some e \<Rightarrow> Inr e)"

definition find_limit_order :: "account_name \<Rightarrow> 32 word \<Rightarrow> database \<Rightarrow> limit_order_object option" where
  "find_limit_order n i db = t_get (limit_order_key n i db) (db_orders db)"

definition throw_if_exists_limit_order :: "account_name \<Rightarrow> 32 word \<Rightarrow> database \<Rightarrow> unit result" where
  "throw_if_exists_limit_order n i db =
     check (find_limit_order n i db = None) (Object_Already_Exist ''limit_order'')"

definition get_savings_withdraw :: "account_name \<Rightarrow> 32 word \<Rightarrow> database \<Rightarrow> savings_withdraw_object result" where
  "get_savings_withdraw n i db = (case t_get (n, i) (db_withdraws db) of
     None \<Rightarrow> Inl (Missing_Object ''savings_withdraw'') | Some e \<Rightarrow> Inr e)"

definition throw_if_exists_savings_withdraw :: "account_name \<Rightarrow> 32 word \<Rightarrow> database \<Rightarrow> unit result" where
  "throw_if_exists_savings_withdraw n i db =
     check (t_get (n, i) (db_withdraws db) = None) (Object_Already_Exist ''savings_withdraw'')"

definition throw_if_exists_convert_request :: "account_name \<Rightarrow> 32 word \<Rightarrow> database \<Rightarrow> unit result" where
  "throw_if_exists_convert_request n i db =
     check (t_get (n, i) (db_converts db) = None) (Object_Already_Exist ''convert_request'')"

definition get_witness :: "account_name \<Rightarrow> database \<Rightarrow> witness_object result" where
  "get_witness n db = (case t_get n (db_witnesses db) of
     None \<Rightarrow> Inl (Missing_Object ''witness'') | Some w \<Rightarrow> Inr w)"

lemma modify_account_Inr [simp]:
  "modify_account n f db = Inr db' \<longleftrightarrow> (\<exists>a a'. get_account n db = Inr a \<and> f a = Inr a'
     \<and> db' = db\<lparr>db_accounts := t_modify n (\<lambda>_. a') (db_accounts db)\<rparr>)"
  by (auto simp: modify_account_def)

lemma modify_dgp_Inr [simp]:
  "modify_dgp f db = Inr db' \<longleftrightarrow> (\<exists>p. f (db_dgp db) = Inr p \<and> db' = db\<lparr>db_dgp := p\<rparr>)"
  by (auto simp: modify_dgp_def)

lemma get_account_Inr [simp]: "get_account n db = Inr a \<longleftrightarrow> t_get n (db_accounts db) = Some a"
  by (simp add: get_account_def split: option.splits)

lemma get_asset_Inr [simp]: "get_asset s db = Inr a \<longleftrightarrow> t_get s (db_assets db) = Some a"
  by (simp add: get_asset_def split: option.splits)

lemma get_escrow_Inr [simp]: "get_escrow n i db = Inr e \<longleftrightarrow> t_get (n, i) (db_escrows db) = Some e"
  by (simp add: get_escrow_def split: option.splits)

lemma get_limit_order_Inr [simp]:
  "get_limit_order n i db = Inr e \<longleftrightarrow> t_get (limit_order_key n i db) (db_orders db) = Some e"
  by (simp add: get_limit_order_def split: option.splits)

lemma get_savings_withdraw_Inr [simp]:
  "get_savings_withdraw n i db = Inr e \<longleftrightarrow> t_get (n, i) (db_withdraws db) = Some e"
  by (simp add: get_savings_withdraw_def split: option.splits)

lemma get_witness_Inr [simp]: "get_witness n db = Inr w \<longleftrightarrow> t_get n (db_witnesses db) = Some w"
  by (simp add: get_witness_def split: option.splits)

end
