(* ===== verification/Ledger.thy ===== *)
theory Ledger
  imports Chain_State
begin

text \<open>
  The ledger primitives of \<^verbatim>\<open>libraries/chain/database.cpp\<close> (balances, savings, market
  balances, user-issued assets, supply, interest) and \<^verbatim>\<open>evaluator.cpp\<close>, and what they do to
  the books. \<open>held s db\<close> is what the accounts and the pending objects hold of a symbol, summed the
  way \<open>database::validate_invariants\<close> sums it, with the balances of invites, which that check leaves out; \<open>issued s db\<close> is what the chain says exists. Their
  difference \<open>gap\<close> is the quantity every lemma here tracks: crediting an account lowers it by the
  credited amount, issuing supply raises it, and an operation conserves money when it leaves it
  alone for every symbol. \<open>wf_db\<close> says that keys are unique and every stored asset carries the
  symbol its field stands for.
\<close>

section \<open>Constants\<close>

definition STEEMIT_SECONDS_PER_YEAR :: int where
  "STEEMIT_SECONDS_PER_YEAR = 60 * 60 * 24 * 365"

definition STEEMIT_SBD_INTEREST_COMPOUND_INTERVAL_SEC :: int where
  "STEEMIT_SBD_INTEREST_COMPOUND_INTERVAL_SEC = 60 * 60 * 24 * 30"

definition STEEMIT_BLOCKS_PER_DAY :: nat where
  "STEEMIT_BLOCKS_PER_DAY = 24 * 60 * 60 div 3"

section \<open>Primitives\<close>

definition get_or_default_account_balance ::
  "account_name \<Rightarrow> asset_symbol_type \<Rightarrow> database \<Rightarrow> account_balance_object result" where
  "get_or_default_account_balance n s db = (case t_get (s, n) (db_balances db) of
     Some b \<Rightarrow> Inr b
   | None \<Rightarrow> rbind (check_value (t_get s (db_assets db) \<noteq> None)) (\<lambda>_.
       Inr \<lparr>ab_account = n, ab_balance = mk_asset 0 s, ab_tip_balance = mk_asset 0 s,
            ab_market_balance = mk_asset 0 s\<rparr>))"

definition adjust_account_balance ::
  "account_name \<Rightarrow> asset \<Rightarrow> asset \<Rightarrow> asset \<Rightarrow> database \<Rightarrow> database result" where
  "adjust_account_balance n delta delta_tip delta_market db =
    (case t_get (symbol delta, n) (db_balances db) of
       Some b \<Rightarrow>
         rbind (asset_add (ab_balance b) delta) (\<lambda>x.
         rbind (asset_add (ab_tip_balance b) delta_tip) (\<lambda>y.
         rbind (if amount delta_market \<noteq> 0 then asset_add (ab_market_balance b) delta_market
                else Inr (ab_market_balance b)) (\<lambda>z.
         Inr (db\<lparr>db_balances := t_modify (symbol delta, n)
           (\<lambda>_. b\<lparr>ab_balance := x, ab_tip_balance := y, ab_market_balance := z\<rparr>)
           (db_balances db)\<rparr>))))
     | None \<Rightarrow>
         rbind (check_value (t_get (symbol delta) (db_assets db) \<noteq> None)) (\<lambda>_.
         Inr (db\<lparr>db_balances := t_create (symbol delta, n)
           \<lparr>ab_account = n, ab_balance = delta, ab_tip_balance = delta_tip,
            ab_market_balance = (if amount delta_market \<noteq> 0 then delta_market
              else mk_asset 0 (symbol delta))\<rparr> (db_balances db)\<rparr>)))"

definition set_account :: "account_name \<Rightarrow> account_object \<Rightarrow> database \<Rightarrow> database" where
  "set_account n a db = db\<lparr>db_accounts := t_modify n (\<lambda>_. a) (db_accounts db)\<rparr>"

text \<open>The payment of interest as both interest paths record it.\<close>

definition issue_interest :: "account_name \<Rightarrow> asset \<Rightarrow> database \<Rightarrow> database result" where
  "issue_interest n paid db =
     rbind (asset_add (dgp_current_sbd_supply (db_dgp db)) paid) (\<lambda>sup.
     rbind (asset_mul_price paid (db_median_history db)) (\<lambda>v.
     rbind (asset_add (dgp_virtual_supply (db_dgp db)) v) (\<lambda>vs.
     Inr (push_log (Interest_Op n paid)
       (db\<lparr>db_dgp := (db_dgp db)\<lparr>dgp_current_sbd_supply := sup, dgp_virtual_supply := vs\<rparr>\<rparr>)))))"

definition sbd_seconds_until :: "int \<Rightarrow> account_object \<Rightarrow> 128 word" where
  "sbd_seconds_until now a = acc_sbd_seconds a
     + u128 (amount (acc_sbd_balance a)) * u128 (now - acc_sbd_seconds_last_update a)"

definition savings_sbd_seconds_until :: "int \<Rightarrow> account_object \<Rightarrow> 128 word" where
  "savings_sbd_seconds_until now a = acc_savings_sbd_seconds a
     + u128 (amount (acc_savings_sbd_balance a)) * u128 (now - acc_savings_sbd_seconds_last_update a)"

definition sbd_interest :: "128 word \<Rightarrow> nat \<Rightarrow> int result" where
  "sbd_interest secs rate = u128_amount (secs * u128 (int rate)
     div u128 (STEEMIT_SECONDS_PER_YEAR * STEEMIT_100_PERCENT))"

definition savings_sbd_interest :: "128 word \<Rightarrow> nat \<Rightarrow> int result" where
  "savings_sbd_interest secs rate = u128_amount (secs div u128 STEEMIT_SECONDS_PER_YEAR
     * u128 (int rate) div u128 STEEMIT_100_PERCENT)"

definition accrue_sbd_interest :: "account_object \<Rightarrow> database \<Rightarrow> (account_object \<times> database) result" where
  "accrue_sbd_interest a db =
    (let now = head_block_time db;
         is_fee_payment_enabled =
           has_hardfork 19 db \<and> \<not> dgp_is_forced_min_price (db_dgp db) \<or> \<not> has_hardfork 19 db
     in if \<not> has_hardfork 26 db \<and> acc_sbd_seconds_last_update a \<noteq> now then
       let secs = sbd_seconds_until now a;
           a1 = a\<lparr>acc_sbd_seconds := secs, acc_sbd_seconds_last_update := now\<rparr>
       in if is_fee_payment_enabled \<and> 0 < secs
             \<and> now - acc_sbd_last_interest_payment a > STEEMIT_SBD_INTEREST_COMPOUND_INTERVAL_SEC
          then rbind (sbd_interest secs (dgp_sbd_interest_rate (db_dgp db))) (\<lambda>i.
               rbind (asset_add (acc_sbd_balance a1) (mk_asset i SBD_SYMBOL)) (\<lambda>b.
               rbind (issue_interest (acc_name a) (mk_asset i SBD_SYMBOL) db) (\<lambda>db'.
               Inr (a1\<lparr>acc_sbd_balance := b, acc_sbd_seconds := 0,
                       acc_sbd_last_interest_payment := now\<rparr>, db'))))
          else Inr (a1, db)
     else Inr (a, db))"

definition adjust_sbd_balance :: "account_name \<Rightarrow> asset \<Rightarrow> database \<Rightarrow> database result" where
  "adjust_sbd_balance n delta db =
     rbind (get_account n db) (\<lambda>a.
     rbind (accrue_sbd_interest a db) (\<lambda>(a1, db1).
     rbind (asset_add (acc_sbd_balance a1) delta) (\<lambda>b.
     Inr (set_account n (a1\<lparr>acc_sbd_balance := b\<rparr>) db1))))"

definition adjust_balance :: "account_name \<Rightarrow> asset \<Rightarrow> database \<Rightarrow> database result" where
  "adjust_balance n delta db =
    (if symbol delta = STEEM_SYMBOL then
       rbind (get_account n db) (\<lambda>a.
       rbind (asset_add (acc_balance a) delta) (\<lambda>b. Inr (set_account n (a\<lparr>acc_balance := b\<rparr>) db)))
     else if symbol delta = SBD_SYMBOL then adjust_sbd_balance n delta db
     else rbind (check_value (has_hardfork 24 db)) (\<lambda>_.
       adjust_account_balance n delta (mk_asset 0 (symbol delta)) (mk_asset 0 STEEM_SYMBOL) db))"

definition pay_savings_interest :: "account_object \<Rightarrow> database \<Rightarrow> (account_object \<times> database) result" where
  "pay_savings_interest a db =
    (if acc_savings_sbd_seconds a = 0 then Inr (a, db)
     else if \<not> has_hardfork 28 db
        \<and> acc_savings_sbd_seconds_last_update a - acc_savings_sbd_last_interest_payment a
            \<le> STEEMIT_SBD_INTEREST_COMPOUND_INTERVAL_SEC then Inr (a, db)
     else if has_hardfork 28 db \<and> dgp_is_forced_min_price (db_dgp db) then Inr (a, db)
     else rbind (savings_sbd_interest (acc_savings_sbd_seconds a)
              (dgp_sbd_interest_rate (db_dgp db))) (\<lambda>i.
          rbind (asset_add (acc_savings_sbd_balance a) (mk_asset i SBD_SYMBOL)) (\<lambda>b.
          rbind (issue_interest (acc_name a) (mk_asset i SBD_SYMBOL) db) (\<lambda>db'.
          Inr (a\<lparr>acc_savings_sbd_balance := b, acc_savings_sbd_seconds := 0,
                 acc_savings_sbd_last_interest_payment := head_block_time db\<rparr>, db')))))"

definition touch_savings_seconds :: "account_object \<Rightarrow> database \<Rightarrow> (account_object \<times> database) result" where
  "touch_savings_seconds a db =
    (if acc_savings_sbd_seconds_last_update a \<noteq> head_block_time db then
       let a1 = a\<lparr>acc_savings_sbd_seconds := savings_sbd_seconds_until (head_block_time db) a,
                 acc_savings_sbd_seconds_last_update := head_block_time db\<rparr>
       in if \<not> has_hardfork 28 db then pay_savings_interest a1 db else Inr (a1, db)
     else Inr (a, db))"

definition adjust_savings_balance :: "account_name \<Rightarrow> asset \<Rightarrow> database \<Rightarrow> database result" where
  "adjust_savings_balance n delta db = rbind (get_account n db) (\<lambda>a.
    (if symbol delta = STEEM_SYMBOL then
       rbind (asset_add (acc_savings_balance a) delta) (\<lambda>b.
       Inr (set_account n (a\<lparr>acc_savings_balance := b\<rparr>) db))
     else if symbol delta = SBD_SYMBOL then
       rbind (touch_savings_seconds a db) (\<lambda>(a2, db2).
       rbind (asset_add (acc_savings_sbd_balance a2) delta) (\<lambda>b.
       Inr (set_account n (a2\<lparr>acc_savings_sbd_balance := b\<rparr>) db2)))
     else Inl Invalid_Value))"

definition adjust_market_balance :: "account_name \<Rightarrow> asset \<Rightarrow> database \<Rightarrow> database result" where
  "adjust_market_balance n delta db =
    (if symbol delta = STEEM_SYMBOL then
       rbind (get_account n db) (\<lambda>a. rbind (asset_add (acc_market_balance a) delta) (\<lambda>b.
       Inr (set_account n (a\<lparr>acc_market_balance := b\<rparr>) db)))
     else if symbol delta = SBD_SYMBOL then
       rbind (get_account n db) (\<lambda>a. rbind (asset_add (acc_market_sbd_balance a) delta) (\<lambda>b.
       Inr (set_account n (a\<lparr>acc_market_sbd_balance := b\<rparr>) db)))
     else rbind (check_value (has_hardfork 24 db)) (\<lambda>_.
       adjust_account_balance n (mk_asset 0 (symbol delta)) (mk_asset 0 (symbol delta)) delta db))"

text \<open>
  The \<open>assert\<close>s of \<open>adjust_supply\<close> are compiled out of a release build and are not modelled.
\<close>

definition adjust_supply :: "asset \<Rightarrow> bool \<Rightarrow> database \<Rightarrow> database result" where
  "adjust_supply delta adjust_vesting db =
    (let dgp = db_dgp db;
         av = (if head_block_num db < STEEMIT_BLOCKS_PER_DAY * 7 then False else adjust_vesting)
     in if symbol delta = STEEM_SYMBOL then
       rbind (if av \<and> 0 < amount delta then safe64 (amount delta * 9) else Inr 0) (\<lambda>nv.
       rbind (asset_add delta (mk_asset nv STEEM_SYMBOL)) (\<lambda>d.
       rbind (asset_add (dgp_current_supply dgp) d) (\<lambda>cs.
       rbind (asset_add (dgp_virtual_supply dgp) d) (\<lambda>vs.
       rbind (asset_add (dgp_total_vesting_fund_steem dgp) (mk_asset nv STEEM_SYMBOL)) (\<lambda>vf.
       Inr (db\<lparr>db_dgp := dgp\<lparr>dgp_current_supply := cs, dgp_virtual_supply := vs,
                             dgp_total_vesting_fund_steem := vf\<rparr>\<rparr>))))))
     else if symbol delta = SBD_SYMBOL then
       rbind (asset_add (dgp_current_sbd_supply dgp) delta) (\<lambda>ss.
       rbind (asset_mul_price ss (db_median_history db)) (\<lambda>v.
       rbind (asset_add v (dgp_current_supply dgp)) (\<lambda>vs.
       Inr (db\<lparr>db_dgp := dgp\<lparr>dgp_current_sbd_supply := ss, dgp_virtual_supply := vs\<rparr>\<rparr>))))
     else Inl Invalid_Value)"

definition pay_fee :: "account_name \<Rightarrow> asset \<Rightarrow> database \<Rightarrow> database result" where
  "pay_fee n fee db =
     rbind (check_assert (0 \<le> amount fee)) (\<lambda>_.
     if amount fee = 0 then Inr db
     else rbind (get_account n db) (\<lambda>a.
       rbind (asset_ge (acc_balance a) fee) (\<lambda>enough.
       rbind (check_assert enough) (\<lambda>_.
       rbind (asset_neg fee) (\<lambda>m.
       rbind (adjust_balance n m db) (\<lambda>db1. adjust_supply m False db1))))))"

definition to_sbd :: "asset \<Rightarrow> database \<Rightarrow> asset result" where
  "to_sbd steem db = rbind (check_assert (symbol steem = STEEM_SYMBOL)) (\<lambda>_.
     if price_is_null (db_median_history db) then Inr (mk_asset 0 SBD_SYMBOL)
     else asset_mul_price steem (db_median_history db))"

definition to_steem :: "asset \<Rightarrow> database \<Rightarrow> asset result" where
  "to_steem sbd db = rbind (check_assert (symbol sbd = SBD_SYMBOL)) (\<lambda>_.
     if price_is_null (db_median_history db) then Inr (mk_asset 0 STEEM_SYMBOL)
     else asset_mul_price sbd (db_median_history db))"

section \<open>Reading balances\<close>

datatype balance_type = MAIN_BALANCE | SAVINGS | VESTING | EFFECTIVE_VESTING | HAVING_VESTING
  | AVAILABLE_VESTING | TIP_BALANCE

definition effective_vesting_shares :: "account_object \<Rightarrow> asset result" where
  "effective_vesting_shares a =
     rbind (asset_sub (acc_vesting_shares a) (acc_delegated_vesting_shares a)) (\<lambda>x.
     rbind (asset_sub x (acc_emission_delegated_vesting_shares a)) (\<lambda>y.
     rbind (asset_add y (acc_received_vesting_shares a)) (\<lambda>z.
     asset_add z (acc_emission_received_vesting_shares a))))"

definition available_vesting_shares :: "bool \<Rightarrow> account_object \<Rightarrow> asset result" where
  "available_vesting_shares consider_withdrawal a =
     rbind (asset_sub (acc_vesting_shares a) (acc_delegated_vesting_shares a)) (\<lambda>x.
     rbind (asset_sub x (acc_emission_delegated_vesting_shares a)) (\<lambda>have.
     if consider_withdrawal then
       rbind (safe64 (acc_to_withdraw a - acc_withdrawn a)) (\<lambda>w.
       asset_sub have (mk_asset w VESTS_SYMBOL))
     else Inr have))"

definition get_balance :: "database \<Rightarrow> account_object \<Rightarrow> balance_type \<Rightarrow> asset_symbol_type \<Rightarrow> asset result" where
  "get_balance db a ty s = (case ty of
     MAIN_BALANCE \<Rightarrow>
       if s = STEEM_SYMBOL then Inr (acc_balance a)
       else if s = SBD_SYMBOL then Inr (acc_sbd_balance a)
       else rbind (check_value (has_hardfork 24 db)) (\<lambda>_.
         rbind (get_or_default_account_balance (acc_name a) s db) (\<lambda>b. Inr (ab_balance b)))
   | SAVINGS \<Rightarrow>
       if s = STEEM_SYMBOL then Inr (acc_savings_balance a)
       else if s = SBD_SYMBOL then Inr (acc_savings_sbd_balance a)
       else Inl Invalid_Value
   | VESTING \<Rightarrow> rbind (check_value (s = VESTS_SYMBOL)) (\<lambda>_. Inr (acc_vesting_shares a))
   | EFFECTIVE_VESTING \<Rightarrow> rbind (check_value (s = VESTS_SYMBOL)) (\<lambda>_. effective_vesting_shares a)
   | HAVING_VESTING \<Rightarrow> rbind (check_value (s = VESTS_SYMBOL)) (\<lambda>_. available_vesting_shares False a)
   | AVAILABLE_VESTING \<Rightarrow> rbind (check_value (s = VESTS_SYMBOL)) (\<lambda>_. available_vesting_shares True a)
   | TIP_BALANCE \<Rightarrow>
       if s = STEEM_SYMBOL then Inr (acc_tip_balance a)
       else rbind (check_value (has_hardfork 24 db)) (\<lambda>_.
         rbind (get_or_default_account_balance (acc_name a) s db) (\<lambda>b. Inr (ab_tip_balance b))))"

definition get_balance_name :: "balance_type \<Rightarrow> string" where
  "get_balance_name ty = (case ty of MAIN_BALANCE \<Rightarrow> ''fund'' | SAVINGS \<Rightarrow> ''savings''
     | VESTING \<Rightarrow> ''vesting shares'' | EFFECTIVE_VESTING \<Rightarrow> ''effective vesting shares''
     | HAVING_VESTING \<Rightarrow> ''having vesting shares'' | AVAILABLE_VESTING \<Rightarrow> ''available vesting shares''
     | TIP_BALANCE \<Rightarrow> ''tip balance'')"

text \<open>\<open>GOLOS_CHECK_BALANCE\<close>.\<close>

definition check_balance :: "account_name \<Rightarrow> balance_type \<Rightarrow> asset \<Rightarrow> database \<Rightarrow> unit result" where
  "check_balance n ty required db =
     rbind (get_account n db) (\<lambda>a.
     rbind (get_balance db a ty (symbol required)) (\<lambda>exist.
     rbind (asset_lt exist required) (\<lambda>low.
     check (\<not> low) (Insufficient_Funds (get_balance_name ty)))))"

section \<open>The books\<close>

text \<open>
  What each object holds of a symbol, as \<open>validate_invariants\<close> adds it up (lines 6329 to 6460 of
  \<^verbatim>\<open>database.cpp\<close>); for a user-issued asset the balances and tip balances of its holders and the
  orders that sell it.
\<close>

definition core_symbols_set :: "asset_symbol_type set" where
  "core_symbols_set = {STEEM_SYMBOL, SBD_SYMBOL, VESTS_SYMBOL}"

definition asset_in :: "asset_symbol_type \<Rightarrow> asset \<Rightarrow> int" where
  "asset_in s x = (if symbol x = s then amount x else 0)"

definition acct_held :: "asset_symbol_type \<Rightarrow> account_object \<Rightarrow> int" where
  "acct_held s a = asset_in s (acc_accumulative_balance a) + asset_in s (acc_balance a)
     + asset_in s (acc_savings_balance a) + asset_in s (acc_tip_balance a)
     + asset_in s (acc_sbd_balance a) + asset_in s (acc_savings_sbd_balance a)
     + asset_in s (acc_vesting_shares a)"

definition bal_held :: "asset_symbol_type \<Rightarrow> account_balance_object \<Rightarrow> int" where
  "bal_held s b = asset_in s (ab_balance b) + asset_in s (ab_tip_balance b)"

definition esc_held :: "asset_symbol_type \<Rightarrow> escrow_object \<Rightarrow> int" where
  "esc_held s e = asset_in s (esc_steem_balance e) + asset_in s (esc_sbd_balance e)
     + asset_in s (esc_pending_fee e)"

definition dgp_held :: "asset_symbol_type \<Rightarrow> dynamic_global_property_object \<Rightarrow> int" where
  "dgp_held s p = asset_in s (dgp_total_vesting_fund_steem p) + asset_in s (dgp_accumulative_balance p)
     + asset_in s (dgp_accumulative_remainder p) + asset_in s (dgp_total_reward_fund_steem p)"

definition held :: "asset_symbol_type \<Rightarrow> database \<Rightarrow> int" where
  "held s db = t_total (acct_held s) (db_accounts db) + t_total (bal_held s) (db_balances db)
     + t_total (\<lambda>r. asset_in s (cr_amount r)) (db_converts db)
     + t_total (\<lambda>r. asset_in s (amount_for_sale r)) (db_orders db)
     + t_total (esc_held s) (db_escrows db)
     + t_total (\<lambda>r. asset_in s (sw_amount r)) (db_withdraws db)
     + t_total (\<lambda>r. asset_in s (ino_balance r)) (db_invites db)
     + dgp_held s (db_dgp db)"

text \<open>What the chain says exists of a symbol.\<close>

definition issued :: "asset_symbol_type \<Rightarrow> database \<Rightarrow> int" where
  "issued s db = asset_in s (dgp_current_supply (db_dgp db)) + asset_in s (dgp_current_sbd_supply (db_dgp db))
     + asset_in s (dgp_total_vesting_shares (db_dgp db))
     + t_total (\<lambda>r. asset_in s (ast_supply r)) (db_assets db)"

definition gap :: "asset_symbol_type \<Rightarrow> database \<Rightarrow> int" where
  "gap s db = issued s db - held s db"

text \<open>Well-formed state: unique keys, and every stored asset has the symbol of its field.\<close>

definition wf_account :: "account_name \<Rightarrow> account_object \<Rightarrow> bool" where
  "wf_account n a \<longleftrightarrow> acc_name a = n
     \<and> symbol (acc_balance a) = STEEM_SYMBOL \<and> symbol (acc_savings_balance a) = STEEM_SYMBOL
     \<and> symbol (acc_accumulative_balance a) = STEEM_SYMBOL \<and> symbol (acc_tip_balance a) = STEEM_SYMBOL
     \<and> symbol (acc_market_balance a) = STEEM_SYMBOL
     \<and> symbol (acc_sbd_balance a) = SBD_SYMBOL \<and> symbol (acc_savings_sbd_balance a) = SBD_SYMBOL
     \<and> symbol (acc_market_sbd_balance a) = SBD_SYMBOL
     \<and> symbol (acc_vesting_shares a) = VESTS_SYMBOL
     \<and> symbol (acc_delegated_vesting_shares a) = VESTS_SYMBOL
     \<and> symbol (acc_received_vesting_shares a) = VESTS_SYMBOL
     \<and> symbol (acc_emission_delegated_vesting_shares a) = VESTS_SYMBOL
     \<and> symbol (acc_emission_received_vesting_shares a) = VESTS_SYMBOL
     \<and> symbol (acc_vesting_withdraw_rate a) = VESTS_SYMBOL
     \<and> symbol (acc_referral_break_fee a) = STEEM_SYMBOL
     \<and> length (acc_proxied_vsf_votes a) = STEEMIT_MAX_PROXY_RECURSION_DEPTH"

definition wf_balance :: "asset_symbol_type \<times> account_name \<Rightarrow> account_balance_object \<Rightarrow> bool" where
  "wf_balance k b \<longleftrightarrow> fst k \<notin> core_symbols_set \<and> ab_account b = snd k \<and> symbol (ab_balance b) = fst k
     \<and> symbol (ab_tip_balance b) = fst k \<and> symbol (ab_market_balance b) = fst k"

definition wf_order :: "account_name \<times> 32 word \<Rightarrow> limit_order_object \<Rightarrow> bool" where
  "wf_order k o1 \<longleftrightarrow> lo_seller o1 = fst k \<and> lo_orderid o1 = snd k"

definition wf_escrow :: "account_name \<times> 32 word \<Rightarrow> escrow_object \<Rightarrow> bool" where
  "wf_escrow k e \<longleftrightarrow> esc_from e = fst k \<and> esc_escrow_id e = snd k
     \<and> symbol (esc_steem_balance e) = STEEM_SYMBOL \<and> symbol (esc_sbd_balance e) = SBD_SYMBOL
     \<and> symbol (esc_pending_fee e) \<in> {STEEM_SYMBOL, SBD_SYMBOL}"

definition wf_withdraw :: "account_name \<times> 32 word \<Rightarrow> savings_withdraw_object \<Rightarrow> bool" where
  "wf_withdraw k w \<longleftrightarrow> sw_from w = fst k \<and> sw_request_id w = snd k
     \<and> symbol (sw_amount w) \<in> {STEEM_SYMBOL, SBD_SYMBOL}"

definition wf_convert :: "account_name \<times> 32 word \<Rightarrow> convert_request_object \<Rightarrow> bool" where
  "wf_convert k r \<longleftrightarrow> cr_owner r = fst k \<and> cr_requestid r = snd k
     \<and> symbol (cr_amount r) \<in> {STEEM_SYMBOL, SBD_SYMBOL} \<and> symbol (cr_fee r) = symbol (cr_amount r)"

definition wf_asset :: "asset_symbol_type \<Rightarrow> asset_object \<Rightarrow> bool" where
  "wf_asset s a \<longleftrightarrow> s \<notin> core_symbols_set \<and> symbol (ast_supply a) = s"

definition wf_dgp :: "dynamic_global_property_object \<Rightarrow> bool" where
  "wf_dgp p \<longleftrightarrow> symbol (dgp_current_supply p) = STEEM_SYMBOL \<and> symbol (dgp_virtual_supply p) = STEEM_SYMBOL
     \<and> symbol (dgp_current_sbd_supply p) = SBD_SYMBOL
     \<and> symbol (dgp_total_vesting_fund_steem p) = STEEM_SYMBOL
     \<and> symbol (dgp_total_vesting_shares p) = VESTS_SYMBOL
     \<and> symbol (dgp_accumulative_balance p) = STEEM_SYMBOL
     \<and> symbol (dgp_accumulative_remainder p) = STEEM_SYMBOL
     \<and> symbol (dgp_total_reward_fund_steem p) = STEEM_SYMBOL"

definition wf_db :: "database \<Rightarrow> bool" where
  "wf_db db \<longleftrightarrow> t_wf (db_accounts db) \<and> t_wf (db_balances db) \<and> t_wf (db_assets db) \<and> t_wf (db_orders db)
     \<and> t_wf (db_escrows db) \<and> t_wf (db_withdraws db) \<and> t_wf (db_converts db) \<and> t_wf (db_invites db)
     \<and> t_all wf_account (db_accounts db) \<and> t_all wf_balance (db_balances db)
     \<and> t_all wf_asset (db_assets db) \<and> t_all wf_order (db_orders db)
     \<and> t_all wf_escrow (db_escrows db) \<and> t_all wf_withdraw (db_withdraws db)
     \<and> t_all wf_convert (db_converts db) \<and> wf_dgp (db_dgp db)"

text \<open>An operation conserves money when it keeps the state well-formed and every gap unchanged.\<close>

definition conserves :: "database \<Rightarrow> database \<Rightarrow> bool" where
  "conserves db db' \<longleftrightarrow> wf_db db' \<and> (\<forall>s. gap s db' = gap s db)"

section \<open>Effect of the primitives\<close>

lemma asset_add_Inr [simp]: "asset_add a b = Inr c \<longleftrightarrow>
    symbol a = symbol b \<and> int64_ok (amount a + amount b) \<and> c = mk_asset (amount a + amount b) (symbol a)"
  by (auto simp: asset_add_def)

lemma asset_sub_Inr [simp]: "asset_sub a b = Inr c \<longleftrightarrow>
    symbol a = symbol b \<and> int64_ok (amount a - amount b) \<and> c = mk_asset (amount a - amount b) (symbol a)"
  by (auto simp: asset_sub_def)

lemma asset_neg_Inr [simp]: "asset_neg a = Inr c \<longleftrightarrow>
    int64_ok (- amount a) \<and> c = mk_asset (- amount a) (symbol a)"
  by (auto simp: asset_neg_def)

lemma asset_in_zero [simp]: "asset_in s (mk_asset 0 s') = 0"
  by (simp add: asset_in_def)

lemma asset_in_neg: "asset_in s (mk_asset (- amount x) (symbol x)) = - asset_in s x"
  by (simp add: asset_in_def)

lemma acct_held_upd [simp]:
  "acct_held s (a\<lparr>acc_balance := b\<rparr>) = acct_held s a - asset_in s (acc_balance a) + asset_in s b"
  "acct_held s (a\<lparr>acc_savings_balance := b\<rparr>) = acct_held s a - asset_in s (acc_savings_balance a) + asset_in s b"
  "acct_held s (a\<lparr>acc_accumulative_balance := b\<rparr>) = acct_held s a - asset_in s (acc_accumulative_balance a) + asset_in s b"
  "acct_held s (a\<lparr>acc_tip_balance := b\<rparr>) = acct_held s a - asset_in s (acc_tip_balance a) + asset_in s b"
  "acct_held s (a\<lparr>acc_sbd_balance := b\<rparr>) = acct_held s a - asset_in s (acc_sbd_balance a) + asset_in s b"
  "acct_held s (a\<lparr>acc_savings_sbd_balance := b\<rparr>) = acct_held s a - asset_in s (acc_savings_sbd_balance a) + asset_in s b"
  "acct_held s (a\<lparr>acc_vesting_shares := b\<rparr>) = acct_held s a - asset_in s (acc_vesting_shares a) + asset_in s b"
  "acct_held s (a\<lparr>acc_sbd_seconds := x_acc_sbd_seconds\<rparr>) = acct_held s a"
  "acct_held s (a\<lparr>acc_sbd_seconds_last_update := x_acc_sbd_seconds_last_update\<rparr>) = acct_held s a"
  "acct_held s (a\<lparr>acc_sbd_last_interest_payment := x_acc_sbd_last_interest_payment\<rparr>) = acct_held s a"
  "acct_held s (a\<lparr>acc_savings_sbd_seconds := x_acc_savings_sbd_seconds\<rparr>) = acct_held s a"
  "acct_held s (a\<lparr>acc_savings_sbd_seconds_last_update := x_acc_savings_sbd_seconds_last_update\<rparr>) = acct_held s a"
  "acct_held s (a\<lparr>acc_savings_sbd_last_interest_payment := x_acc_savings_sbd_last_interest_payment\<rparr>) = acct_held s a"
  "acct_held s (a\<lparr>acc_savings_withdraw_requests := x_acc_savings_withdraw_requests\<rparr>) = acct_held s a"
  "acct_held s (a\<lparr>acc_active_challenged := x_acc_active_challenged\<rparr>) = acct_held s a"
  "acct_held s (a\<lparr>acc_last_active_proved := x_acc_last_active_proved\<rparr>) = acct_held s a"
  "acct_held s (a\<lparr>acc_market_balance := x_acc_market_balance\<rparr>) = acct_held s a"
  "acct_held s (a\<lparr>acc_market_sbd_balance := x_acc_market_sbd_balance\<rparr>) = acct_held s a"
  "acct_held s (a\<lparr>acc_frozen := x_acc_frozen\<rparr>) = acct_held s a"
  "acct_held s (a\<lparr>acc_proved_hf := x_acc_proved_hf\<rparr>) = acct_held s a"
  "acct_held s (a\<lparr>acc_proxied_vsf_votes := x_acc_proxied_vsf_votes\<rparr>) = acct_held s a"
  "acct_held s (a\<lparr>acc_witnesses_voted_for := x_acc_witnesses_voted_for\<rparr>) = acct_held s a"
  by (simp_all add: acct_held_def)

lemma wf_account_upd [simp]:
  "wf_account n a \<Longrightarrow> wf_account n (a\<lparr>acc_balance := b\<rparr>) \<longleftrightarrow> symbol b = STEEM_SYMBOL"
  "wf_account n a \<Longrightarrow> wf_account n (a\<lparr>acc_savings_balance := b\<rparr>) \<longleftrightarrow> symbol b = STEEM_SYMBOL"
  "wf_account n a \<Longrightarrow> wf_account n (a\<lparr>acc_accumulative_balance := b\<rparr>) \<longleftrightarrow> symbol b = STEEM_SYMBOL"
  "wf_account n a \<Longrightarrow> wf_account n (a\<lparr>acc_tip_balance := b\<rparr>) \<longleftrightarrow> symbol b = STEEM_SYMBOL"
  "wf_account n a \<Longrightarrow> wf_account n (a\<lparr>acc_market_balance := b\<rparr>) \<longleftrightarrow> symbol b = STEEM_SYMBOL"
  "wf_account n a \<Longrightarrow> wf_account n (a\<lparr>acc_sbd_balance := b\<rparr>) \<longleftrightarrow> symbol b = SBD_SYMBOL"
  "wf_account n a \<Longrightarrow> wf_account n (a\<lparr>acc_savings_sbd_balance := b\<rparr>) \<longleftrightarrow> symbol b = SBD_SYMBOL"
  "wf_account n a \<Longrightarrow> wf_account n (a\<lparr>acc_market_sbd_balance := b\<rparr>) \<longleftrightarrow> symbol b = SBD_SYMBOL"
  "wf_account n a \<Longrightarrow> wf_account n (a\<lparr>acc_vesting_shares := b\<rparr>) \<longleftrightarrow> symbol b = VESTS_SYMBOL"
  "wf_account n (a\<lparr>acc_sbd_seconds := x_acc_sbd_seconds\<rparr>) \<longleftrightarrow> wf_account n a"
  "wf_account n (a\<lparr>acc_sbd_seconds_last_update := x_acc_sbd_seconds_last_update\<rparr>) \<longleftrightarrow> wf_account n a"
  "wf_account n (a\<lparr>acc_sbd_last_interest_payment := x_acc_sbd_last_interest_payment\<rparr>) \<longleftrightarrow> wf_account n a"
  "wf_account n (a\<lparr>acc_savings_sbd_seconds := x_acc_savings_sbd_seconds\<rparr>) \<longleftrightarrow> wf_account n a"
  "wf_account n (a\<lparr>acc_savings_sbd_seconds_last_update := x_acc_savings_sbd_seconds_last_update\<rparr>) \<longleftrightarrow> wf_account n a"
  "wf_account n (a\<lparr>acc_savings_sbd_last_interest_payment := x_acc_savings_sbd_last_interest_payment\<rparr>) \<longleftrightarrow> wf_account n a"
  "wf_account n (a\<lparr>acc_savings_withdraw_requests := x_acc_savings_withdraw_requests\<rparr>) \<longleftrightarrow> wf_account n a"
  "wf_account n (a\<lparr>acc_active_challenged := x_acc_active_challenged\<rparr>) \<longleftrightarrow> wf_account n a"
  "wf_account n (a\<lparr>acc_last_active_proved := x_acc_last_active_proved\<rparr>) \<longleftrightarrow> wf_account n a"
  "wf_account n (a\<lparr>acc_frozen := x_acc_frozen\<rparr>) \<longleftrightarrow> wf_account n a"
  "wf_account n (a\<lparr>acc_proved_hf := x_acc_proved_hf\<rparr>) \<longleftrightarrow> wf_account n a"
  by (auto simp: wf_account_def)

lemma wf_account_symbols:
  assumes "wf_account n a"
  shows "acc_name a = n" "symbol (acc_balance a) = STEEM_SYMBOL" "symbol (acc_savings_balance a) = STEEM_SYMBOL"
    "symbol (acc_accumulative_balance a) = STEEM_SYMBOL" "symbol (acc_tip_balance a) = STEEM_SYMBOL"
    "symbol (acc_market_balance a) = STEEM_SYMBOL" "symbol (acc_sbd_balance a) = SBD_SYMBOL"
    "symbol (acc_savings_sbd_balance a) = SBD_SYMBOL" "symbol (acc_market_sbd_balance a) = SBD_SYMBOL"
    "symbol (acc_vesting_shares a) = VESTS_SYMBOL"
  using assms by (simp_all add: wf_account_def)

lemma asset_in_plus: "symbol a = S \<Longrightarrow> asset_in s (mk_asset (amount a + d) S) = asset_in s a + asset_in s (mk_asset d S)"
  by (simp add: asset_in_def)

lemma asset_in_amount: "symbol a = S \<Longrightarrow> asset_in s (mk_asset (amount a) S) = asset_in s a"
  by (simp add: asset_in_def)

lemma wf_account_at: "wf_db db \<Longrightarrow> t_get n (db_accounts db) = Some a \<Longrightarrow> wf_account n a"
  by (auto simp: wf_db_def dest: t_all_get)

lemma wf_balance_at: "wf_db db \<Longrightarrow> t_get k (db_balances db) = Some b \<Longrightarrow> wf_balance k b"
  by (auto simp: wf_db_def dest: t_all_get)

lemma wf_asset_at: "wf_db db \<Longrightarrow> t_get k (db_assets db) = Some b \<Longrightarrow> wf_asset k b"
  by (auto simp: wf_db_def dest: t_all_get)

lemma wf_escrow_at: "wf_db db \<Longrightarrow> t_get k (db_escrows db) = Some b \<Longrightarrow> wf_escrow k b"
  by (auto simp: wf_db_def dest: t_all_get)

lemma wf_order_at: "wf_db db \<Longrightarrow> t_get k (db_orders db) = Some b \<Longrightarrow> wf_order k b"
  by (auto simp: wf_db_def dest: t_all_get)

lemma wf_withdraw_at: "wf_db db \<Longrightarrow> t_get k (db_withdraws db) = Some b \<Longrightarrow> wf_withdraw k b"
  by (auto simp: wf_db_def dest: t_all_get)

lemma wf_convert_at: "wf_db db \<Longrightarrow> t_get k (db_converts db) = Some b \<Longrightarrow> wf_convert k b"
  by (auto simp: wf_db_def dest: t_all_get)

lemma wf_dgp_at: "wf_db db \<Longrightarrow> wf_dgp (db_dgp db)"
  by (simp add: wf_db_def)

lemma wf_set_account:
  assumes "wf_db db" "wf_account n a"
  shows "wf_db (set_account n a db)"
  using assms by (simp add: wf_db_def set_account_def tbl.wf_modify t_all_modify_const)

lemma gap_set_account:
  assumes "wf_db db" "t_get n (db_accounts db) = Some a"
  shows "gap s (set_account n a' db) = gap s db - (acct_held s a' - acct_held s a)"
  using assms by (simp add: gap_def held_def issued_def set_account_def wf_db_def tbl.total_modify)

lemma gap_set_balance:
  assumes "wf_db db" "t_get k (db_balances db) = Some b"
  shows "gap s (db\<lparr>db_balances := t_modify k (\<lambda>_. b') (db_balances db)\<rparr>) = gap s db - (bal_held s b' - bal_held s b)"
  using assms by (simp add: gap_def held_def issued_def wf_db_def tbl.total_modify)

lemma gap_new_balance:
  assumes "wf_db db" "t_get k (db_balances db) = None"
  shows "gap s (db\<lparr>db_balances := t_create k b (db_balances db)\<rparr>) = gap s db - bal_held s b"
  using assms by (simp add: gap_def held_def issued_def wf_db_def tbl.total_create)

lemma wf_set_balance:
  assumes "wf_db db" "wf_balance k b"
  shows "wf_db (db\<lparr>db_balances := t_modify k (\<lambda>_. b) (db_balances db)\<rparr>)"
  using assms by (simp add: wf_db_def tbl.wf_modify t_all_modify_const)

lemma wf_new_balance:
  assumes "wf_db db" "wf_balance k b" "t_get k (db_balances db) = None"
  shows "wf_db (db\<lparr>db_balances := t_create k b (db_balances db)\<rparr>)"
  using assms by (simp add: wf_db_def tbl.wf_create)

lemma gap_dgp: "gap s (db\<lparr>db_dgp := p\<rparr>) = gap s db
    + (asset_in s (dgp_current_supply p) - asset_in s (dgp_current_supply (db_dgp db)))
    + (asset_in s (dgp_current_sbd_supply p) - asset_in s (dgp_current_sbd_supply (db_dgp db)))
    + (asset_in s (dgp_total_vesting_shares p) - asset_in s (dgp_total_vesting_shares (db_dgp db)))
    - (dgp_held s p - dgp_held s (db_dgp db))"
  by (simp add: gap_def held_def issued_def)

lemma push_log_ledger [simp]: "gap s (push_log e db) = gap s db" "wf_db (push_log e db) = wf_db db"
  "db_accounts (push_log e db) = db_accounts db"
  by (simp_all add: push_log_def gap_def held_def issued_def wf_db_def)

lemma wf_set_dgp: "wf_db db \<Longrightarrow> wf_dgp p \<Longrightarrow> wf_db (db\<lparr>db_dgp := p\<rparr>)"
  by (simp add: wf_db_def)

lemma issue_interest_ledger:
  assumes "issue_interest n paid db = Inr db'" "wf_db db" "symbol paid = SBD_SYMBOL"
  shows "wf_db db' \<and> gap s db' = gap s db + asset_in s paid \<and> db_accounts db' = db_accounts db"
  using assms wf_dgp_at [OF assms(2)]
  by (auto simp: issue_interest_def gap_dgp dgp_held_def asset_in_def wf_dgp_def intro!: wf_set_dgp)

lemma accrue_sbd_interest_ledger:
  assumes ac: "accrue_sbd_interest a db = Inr (a', db')" and wf: "wf_db db" "wf_account n a"
  shows "wf_db db' \<and> wf_account n a' \<and> db_accounts db' = db_accounts db
     \<and> gap s db' = gap s db + (acct_held s a' - acct_held s a)"
proof (cases "\<not> has_hardfork 26 db \<and> acc_sbd_seconds_last_update a \<noteq> head_block_time db")
  case False
  then have "a' = a" "db' = db" using ac by (auto simp: accrue_sbd_interest_def)
  then show ?thesis using wf by simp
next
  case stale: True
  let ?paying = "(has_hardfork 19 db \<and> \<not> dgp_is_forced_min_price (db_dgp db) \<or> \<not> has_hardfork 19 db)
     \<and> 0 < sbd_seconds_until (head_block_time db) a
     \<and> head_block_time db - acc_sbd_last_interest_payment a > STEEMIT_SBD_INTEREST_COMPOUND_INTERVAL_SEC"
  show ?thesis
  proof (cases ?paying)
    case False
    then have "a' = a\<lparr>acc_sbd_seconds := sbd_seconds_until (head_block_time db) a,
        acc_sbd_seconds_last_update := head_block_time db\<rparr> \<and> db' = db"
      using ac stale by (auto simp: accrue_sbd_interest_def Let_def split: if_splits)
    then show ?thesis using wf by simp
  next
    case True
    then obtain i b where i: "issue_interest (acc_name a) (mk_asset i SBD_SYMBOL) db = Inr db'"
      and b: "asset_add (acc_sbd_balance a) (mk_asset i SBD_SYMBOL) = Inr b"
      and a': "a' = a\<lparr>acc_sbd_seconds := sbd_seconds_until (head_block_time db) a,
          acc_sbd_seconds_last_update := head_block_time db,
          acc_sbd_balance := b, acc_sbd_seconds := 0,
          acc_sbd_last_interest_payment := head_block_time db\<rparr>"
      using ac stale by (auto simp: accrue_sbd_interest_def Let_def simp del: asset_add_Inr)
    from issue_interest_ledger [OF i wf(1), of s] b wf(2) show ?thesis
      by (simp add: a' asset_in_plus wf_account_symbols)
  qed
qed

lemma adjust_account_balance_ledger:
  assumes "adjust_account_balance n delta tip market db = Inr db'" "wf_db db"
    "symbol tip = symbol delta" "amount market \<noteq> 0 \<Longrightarrow> symbol market = symbol delta"
  shows "wf_db db' \<and> gap s db' = gap s db - asset_in s delta - asset_in s tip"
proof (cases "t_get (symbol delta, n) (db_balances db)")
  case None
  with assms show ?thesis using wf_asset_at [of db "symbol delta"]
    by (auto simp: adjust_account_balance_def gap_new_balance bal_held_def asset_in_def
       intro!: wf_new_balance) (auto simp: wf_balance_def wf_asset_def)
next
  case (Some b)
  with assms show ?thesis using wf_balance_at [OF assms(2) Some]
    by (auto simp: adjust_account_balance_def gap_set_balance bal_held_def asset_in_def wf_balance_def
       intro!: wf_set_balance split: if_splits)
qed

lemma adjust_sbd_balance_ledger:
  assumes "adjust_sbd_balance n delta db = Inr db'" "wf_db db"
  shows "wf_db db' \<and> gap s db' = gap s db - asset_in s delta"
proof -
  obtain a a1 db1 where a: "t_get n (db_accounts db) = Some a"
    and ac: "accrue_sbd_interest a db = Inr (a1, db1)" and sym: "symbol (acc_sbd_balance a1) = symbol delta"
    and db': "db' = set_account n (a1\<lparr>acc_sbd_balance :=
        mk_asset (amount (acc_sbd_balance a1) + amount delta) (symbol (acc_sbd_balance a1))\<rparr>) db1"
    using assms(1) by (auto simp: adjust_sbd_balance_def)
  have wfa: "wf_account n a" using wf_account_at [OF assms(2) a] .
  note L = accrue_sbd_interest_ledger [OF ac assms(2) wfa]
  then have "wf_db db1" "wf_account n a1" "t_get n (db_accounts db1) = Some a" using a by simp_all
  moreover from this sym have "symbol delta = SBD_SYMBOL" by (simp add: wf_account_symbols)
  ultimately show ?thesis using L [of s] sym
    by (simp add: db' gap_set_account wf_set_account asset_in_plus asset_in_amount)
qed

lemma adjust_balance_ledger:
  assumes "adjust_balance n delta db = Inr db'" "wf_db db"
  shows "wf_db db' \<and> gap s db' = gap s db - asset_in s delta"
proof (cases "symbol delta = STEEM_SYMBOL")
  case True
  then show ?thesis using assms wf_account_at [OF assms(2)]
    by (auto simp: adjust_balance_def gap_set_account wf_set_account asset_in_plus asset_in_amount wf_account_symbols)
next
  case False
  then show ?thesis using assms adjust_sbd_balance_ledger [of n delta db db' s]
      adjust_account_balance_ledger [of n delta "mk_asset 0 (symbol delta)" "mk_asset 0 STEEM_SYMBOL" db db' s]
    by (auto simp: adjust_balance_def split: if_splits)
qed

lemma pay_savings_interest_ledger:
  assumes ac: "pay_savings_interest a db = Inr (a', db')" and wf: "wf_db db" "wf_account n a"
  shows "wf_db db' \<and> wf_account n a' \<and> db_accounts db' = db_accounts db
     \<and> gap s db' = gap s db + (acct_held s a' - acct_held s a)"
proof (cases "acc_savings_sbd_seconds a = 0 \<or> \<not> has_hardfork 28 db
        \<and> acc_savings_sbd_seconds_last_update a - acc_savings_sbd_last_interest_payment a
            \<le> STEEMIT_SBD_INTEREST_COMPOUND_INTERVAL_SEC
      \<or> has_hardfork 28 db \<and> dgp_is_forced_min_price (db_dgp db)")
  case True
  then have "a' = a" "db' = db" using ac by (auto simp: pay_savings_interest_def split: if_splits)
  then show ?thesis using wf by simp
next
  case False
  then obtain i b where i: "issue_interest (acc_name a) (mk_asset i SBD_SYMBOL) db = Inr db'"
      and b: "asset_add (acc_savings_sbd_balance a) (mk_asset i SBD_SYMBOL) = Inr b"
      and a': "a' = a\<lparr>acc_savings_sbd_balance := b, acc_savings_sbd_seconds := 0,
         acc_savings_sbd_last_interest_payment := head_block_time db\<rparr>"
    using ac by (auto simp: pay_savings_interest_def simp del: asset_add_Inr)
  from issue_interest_ledger [OF i wf(1), of s] b wf(2) show ?thesis
    by (simp add: a' asset_in_plus wf_account_symbols)
qed

lemma touch_savings_seconds_ledger:
  assumes ac: "touch_savings_seconds a db = Inr (a', db')" and wf: "wf_db db" "wf_account n a"
  shows "wf_db db' \<and> wf_account n a' \<and> db_accounts db' = db_accounts db
     \<and> gap s db' = gap s db + (acct_held s a' - acct_held s a)"
proof (cases "acc_savings_sbd_seconds_last_update a \<noteq> head_block_time db")
  case True
  let ?a1 = "a\<lparr>acc_savings_sbd_seconds := savings_sbd_seconds_until (head_block_time db) a,
                 acc_savings_sbd_seconds_last_update := head_block_time db\<rparr>"
  have w: "wf_account n ?a1" "acct_held s ?a1 = acct_held s a" using wf by simp_all
  show ?thesis
  proof (cases "has_hardfork 28 db")
    case hf: True
    then have "a' = ?a1 \<and> db' = db" using ac True by (auto simp: touch_savings_seconds_def Let_def)
    then show ?thesis using w wf by simp
  next
    case False
    then have "pay_savings_interest ?a1 db = Inr (a', db')" using ac True by (simp add: touch_savings_seconds_def Let_def)
    from pay_savings_interest_ledger [OF this wf(1) w(1), of s] w show ?thesis by simp
  qed
qed (use assms in \<open>auto simp: touch_savings_seconds_def\<close>)

lemma adjust_savings_balance_ledger:
  assumes ad: "adjust_savings_balance n delta db = Inr db'" and wf: "wf_db db"
  shows "wf_db db' \<and> gap s db' = gap s db - asset_in s delta"
proof (cases "symbol delta = STEEM_SYMBOL")
  case True
  then show ?thesis using assms wf_account_at [OF wf]
    by (auto simp: adjust_savings_balance_def gap_set_account wf_set_account asset_in_plus asset_in_amount wf_account_symbols)
next
  case False
  with ad have sbd: "symbol delta = SBD_SYMBOL" by (auto simp: adjust_savings_balance_def split: if_splits)
  obtain a where a: "t_get n (db_accounts db) = Some a" using ad by (auto simp: adjust_savings_balance_def)
  have wfa: "wf_account n a" using wf_account_at [OF wf a] .
  from ad a sbd obtain a2 db2 b where t: "touch_savings_seconds a db = Inr (a2, db2)"
    and b: "asset_add (acc_savings_sbd_balance a2) delta = Inr b"
    and db': "db' = set_account n (a2\<lparr>acc_savings_sbd_balance := b\<rparr>) db2"
    by (auto simp: adjust_savings_balance_def simp del: asset_add_Inr)
  note L = touch_savings_seconds_ledger [OF t wf wfa, of s]
  then have "wf_db db2" "wf_account n a2" "t_get n (db_accounts db2) = Some a" using a by simp_all
  then show ?thesis using L b
    by (simp add: db' gap_set_account wf_set_account asset_in_plus asset_in_amount wf_account_symbols sbd)
qed

lemma adjust_market_balance_ledger:
  assumes ad: "adjust_market_balance n delta db = Inr db'" and wf: "wf_db db"
  shows "wf_db db' \<and> gap s db' = gap s db"
  using assms wf_account_at [OF wf, of n]
    adjust_account_balance_ledger [of n "mk_asset 0 (symbol delta)" "mk_asset 0 (symbol delta)" delta db db' s]
  by (auto simp: adjust_market_balance_def gap_set_account wf_set_account wf_account_symbols split: if_splits)

lemma adjust_supply_ledger:
  assumes ad: "adjust_supply delta v db = Inr db'" and wf: "wf_db db"
  shows "wf_db db' \<and> gap s db' = gap s db + asset_in s delta"
  using assms wf_dgp_at [OF wf]
  by (auto simp: adjust_supply_def Let_def gap_dgp dgp_held_def wf_dgp_def asset_in_def
       intro!: wf_set_dgp split: if_splits)

lemma pay_fee_ledger:
  assumes "pay_fee n fee db = Inr db'" "wf_db db"
  shows "wf_db db' \<and> gap s db' = gap s db"
proof (cases "amount fee = 0")
  case False
  with assms obtain db1 where 1: "adjust_balance n (mk_asset (- amount fee) (symbol fee)) db = Inr db1"
    and 2: "adjust_supply (mk_asset (- amount fee) (symbol fee)) False db1 = Inr db'"
    by (auto simp: pay_fee_def)
  from adjust_balance_ledger [OF 1 assms(2), of s] adjust_supply_ledger [OF 2, of s] show ?thesis
    by (simp add: asset_in_neg)
qed (use assms in \<open>simp add: pay_fee_def\<close>)

lemma conserves_refl: "wf_db db \<Longrightarrow> conserves db db"
  by (simp add: conserves_def)

lemma conserves_trans: "conserves a b \<Longrightarrow> conserves b c \<Longrightarrow> conserves a c"
  by (simp add: conserves_def)

section \<open>Accounts as ports of the ledger\<close>

text \<open>
  The contract the evaluators rely on: crediting a port keeps the state well-formed and lowers
  the gap of the credited symbol by the credited amount, so a debit followed by a credit of the
  same asset conserves money, whatever the two ports are.
\<close>

locale money_port =
  fixes wf :: "'db \<Rightarrow> bool"
    and gp :: "asset_symbol_type \<Rightarrow> 'db \<Rightarrow> int"
    and credit :: "'k \<Rightarrow> asset \<Rightarrow> 'db \<Rightarrow> 'db result"
  assumes credit_wf: "credit k x db = Inr db' \<Longrightarrow> wf db \<Longrightarrow> wf db'"
    and credit_gap: "credit k x db = Inr db' \<Longrightarrow> wf db \<Longrightarrow> gp s db' = gp s db - asset_in s x"
begin

lemma debit_gap:
  assumes "asset_neg x = Inr m" "credit k m db = Inr db'" "wf db"
  shows "wf db' \<and> gp s db' = gp s db + asset_in s x"
  using assms credit_wf [OF assms(2)] credit_gap [OF assms(2), of s] by (simp add: asset_in_neg)

lemma credit_both:
  assumes "credit k x db = Inr db'" "wf db"
  shows "wf db' \<and> gp s db' = gp s db - asset_in s x"
  using assms credit_wf credit_gap by blast

end

locale money_transfer = src: money_port wf gp debit + dst: money_port wf gp deposit
  for wf :: "'db \<Rightarrow> bool" and gp :: "asset_symbol_type \<Rightarrow> 'db \<Rightarrow> int"
    and debit :: "'k \<Rightarrow> asset \<Rightarrow> 'db \<Rightarrow> 'db result"
    and deposit :: "'j \<Rightarrow> asset \<Rightarrow> 'db \<Rightarrow> 'db result"
begin

lemma move_conserves:
  assumes "asset_neg x = Inr m" "debit k m db = Inr db1" "deposit j x db1 = Inr db2" "wf db"
  shows "wf db2 \<and> gp s db2 = gp s db"
  using src.debit_gap [OF assms(1,2,4), of s] dst.credit_both [OF assms(3), of s] by simp

end

interpretation main: money_port wf_db gap adjust_balance
  by unfold_locales (use adjust_balance_ledger in blast)+

interpretation savings: money_port wf_db gap adjust_savings_balance
  by unfold_locales (use adjust_savings_balance_ledger in blast)+

interpretation main_to_main: money_transfer wf_db gap adjust_balance adjust_balance ..

interpretation main_to_savings: money_transfer wf_db gap adjust_balance adjust_savings_balance ..

end
