(* ===== verification/Due_Queue.thy ===== *)
theory Due_Queue
  imports Chain_Tables
begin

text \<open>
  Several maintenance loops of \<^verbatim>\<open>libraries/chain/database.cpp\<close> have one shape: take the first row of an
  index ordered by time, stop when it is not due yet, otherwise handle it and remove it. \<open>first_row\<close>
  is \<open>begin()\<close> of an ordered index (ties go to the older object), \<open>process_due\<close> the loop, with one
  unit of fuel per row of the table. The locale \<open>due_loop\<close> states what such a loop relies on and
  proves once that it always runs to the end: it handles exactly the rows that are due and leaves
  the others as they are.
\<close>

fun first_row :: "('v \<Rightarrow> 'v \<Rightarrow> bool) \<Rightarrow> ('k, 'v) table \<Rightarrow> ('k \<times> 'v) option" where
  "first_row lt [] = None"
| "first_row lt (r # rs) = (case first_row lt rs of None \<Rightarrow> Some r
     | Some r' \<Rightarrow> if lt (snd r') (snd r) then Some r' else Some r)"

lemma first_row_mem: "first_row lt t = Some r \<Longrightarrow> r \<in> set t"
  by (induction t arbitrary: r) (auto split: option.splits if_splits)

lemma first_row_None [simp]: "first_row lt t = None \<longleftrightarrow> t = []"
  by (cases t) (auto split: option.splits)

lemma first_row_get: "t_wf t \<Longrightarrow> first_row lt t = Some (k, v) \<Longrightarrow> t_get k t = Some v"
  by (drule first_row_mem) (simp add: t_wf_def t_get_def)

lemma first_row_due:
  assumes "\<And>a b. P b \<Longrightarrow> \<not> P a \<Longrightarrow> lt b a \<and> \<not> lt a b"
    and "first_row lt t = Some r" "\<not> P (snd r)" "r' \<in> set t"
  shows "\<not> P (snd r')"
  using assms(2-)
proof (induction t arbitrary: r r')
  case (Cons x t)
  show ?case
  proof (cases "first_row lt t")
    case None
    with Cons.prems show ?thesis by auto
  next
    case (Some y)
    show ?thesis
    proof (cases "P (snd y)")
      case True
      then have "r = x" "\<not> lt (snd y) (snd x)" using Cons.prems Some by (auto split: if_splits)
      with assms(1) True Cons.prems(2) show ?thesis by blast
    next
      case False
      have "\<not> P (snd x)"
      proof
        assume "P (snd x)"
        then have "\<not> lt (snd y) (snd x)" using False assms by blast
        then have "r = x" using Cons.prems Some by auto
        with \<open>P (snd x)\<close> Cons.prems(2) show False by simp
      qed
      moreover have "\<not> P (snd r')" if "r' \<in> set t" using Cons.IH [OF Some False that] .
      ultimately show ?thesis using Cons.prems(3) by auto
    qed
  qed
qed simp

primrec process_due :: "nat \<Rightarrow> ('db \<Rightarrow> ('k, 'v) table) \<Rightarrow> ('v \<Rightarrow> 'v \<Rightarrow> bool) \<Rightarrow> ('db \<Rightarrow> 'v \<Rightarrow> bool)
    \<Rightarrow> ('v \<Rightarrow> 'db \<Rightarrow> 'db result) \<Rightarrow> 'db \<Rightarrow> 'db result" where
  "process_due 0 tab lt due body db = Inr db"
| "process_due (Suc n) tab lt due body db = (case first_row lt (tab db) of
     None \<Rightarrow> Inr db
   | Some (k, v) \<Rightarrow> if \<not> due db v then Inr db
       else rbind (body v db) (process_due n tab lt due body))"

lemma t_remove_shorter: "(k, v) \<in> set t \<Longrightarrow> length (t_remove k t) < length t"
  unfolding t_remove_def by (rule length_filter_less [of "(k, v)"]) auto

lemma filter_t_remove:
  assumes "t_wf t" "t_get k t = Some v" "\<not> P v"
  shows "filter (\<lambda>r. P (snd r)) (t_remove k t) = filter (\<lambda>r. P (snd r)) t"
  unfolding t_remove_def filter_filter
proof (rule filter_cong [OF refl])
  fix r assume "r \<in> set t"
  then have "t_get (fst r) t = Some (snd r)" using assms(1) by (simp add: t_wf_def t_get_def)
  then show "((case r of (k', v) \<Rightarrow> k' \<noteq> k) \<and> P (snd r)) = P (snd r)"
    using assms(2,3) by (cases r) auto
qed

locale due_loop =
  fixes tab :: "'db \<Rightarrow> ('k, 'v) table"
    and lt :: "'v \<Rightarrow> 'v \<Rightarrow> bool"
    and due :: "'db \<Rightarrow> 'v \<Rightarrow> bool"
    and body :: "'v \<Rightarrow> 'db \<Rightarrow> 'db result"
    and inv :: "'db \<Rightarrow> bool"
  assumes lt_due: "due db b \<Longrightarrow> \<not> due db a \<Longrightarrow> lt b a \<and> \<not> lt a b"
    and inv_wf: "inv db \<Longrightarrow> t_wf (tab db)"
    and body_step: "inv db \<Longrightarrow> t_get k (tab db) = Some v \<Longrightarrow> due db v \<Longrightarrow> body v db = Inr db' \<Longrightarrow>
      inv db' \<and> tab db' = t_remove k (tab db) \<and> due db' = due db"
begin

lemma process_due_all:
  assumes "process_due n tab lt due body db = Inr db'" "inv db" "length (tab db) \<le> n"
  shows "inv db' \<and> tab db' = filter (\<lambda>r. \<not> due db (snd r)) (tab db) \<and> due db' = due db"
  using assms
proof (induction n arbitrary: db)
  case (Suc n)
  show ?case
  proof (cases "first_row lt (tab db)")
    case None
    with Suc.prems show ?thesis by simp
  next
    case (Some r)
    obtain k v where r: "r = (k, v)" by (cases r)
    have get: "t_get k (tab db) = Some v" using first_row_get [OF inv_wf [OF Suc.prems(2)]] Some r by simp
    show ?thesis
    proof (cases "due db v")
      case False
      then have "\<forall>r' \<in> set (tab db). \<not> due db (snd r')"
        using first_row_due [where lt = lt and P = "due db", OF lt_due Some] r by (auto simp del: split_paired_All)
      then have "filter (\<lambda>r. \<not> due db (snd r)) (tab db) = tab db" by simp
      with False Suc.prems Some r show ?thesis by simp
    next
      case True
      then obtain db1 where b: "body v db = Inr db1" and p: "process_due n tab lt due body db1 = Inr db'"
        using Suc.prems(1) Some r by auto
      have B: "inv db1" "tab db1 = t_remove k (tab db)" "due db1 = due db"
        using body_step [OF Suc.prems(2) get True b] by blast+
      have mem: "(k, v) \<in> set (tab db)" using first_row_mem Some r by blast
      have "length (tab db1) < length (tab db)" 
        unfolding B(2) by (rule t_remove_shorter [OF mem])
      then have IH: "inv db' \<and> tab db' = filter (\<lambda>r. \<not> due db1 (snd r)) (tab db1) \<and> due db' = due db1"
        using Suc.prems(3) by (intro Suc.IH [OF p B(1)]) linarith
      have "filter (\<lambda>r. \<not> due db (snd r)) (tab db1) = filter (\<lambda>r. \<not> due db (snd r)) (tab db)"
        unfolding B(2) by (rule filter_t_remove [OF inv_wf [OF Suc.prems(2)] get]) (simp add: True)
      with IH show ?thesis unfolding B(3) by simp
    qed
  qed
qed simp

end

text \<open>When the body never fails on a due row, the loop returns, whatever the fuel.\<close>

locale live_due_loop = due_loop +
  assumes body_live: "inv db \<Longrightarrow> t_get k (tab db) = Some v \<Longrightarrow> due db v \<Longrightarrow> \<exists>db'. body v db = Inr db'"
begin

lemma process_due_live: "inv db \<Longrightarrow> \<exists>db'. process_due n tab lt due body db = Inr db'"
proof (induction n arbitrary: db)
  case (Suc n)
  show ?case
  proof (cases "first_row lt (tab db)")
    case (Some r)
    obtain k v where r: "r = (k, v)" by (cases r)
    have get: "t_get k (tab db) = Some v" using first_row_get [OF inv_wf [OF Suc.prems]] Some r by simp
    show ?thesis
    proof (cases "due db v")
      case True
      then obtain db1 where b: "body v db = Inr db1" using body_live [OF Suc.prems get] by blast
      then have "inv db1" using body_step [OF Suc.prems get True b] by blast
      from Suc.IH [OF this] show ?thesis using Some r True b by simp
    qed (use Some r in simp)
  qed simp
qed simp

end

end
