(* ===== verification/Ledger_Frame.thy ===== *)
theory Ledger_Frame
  imports Ledger Due_Queue
begin

text \<open>
  What the ledger primitives leave alone: the tables of pending objects, the settings, the time and
  the number of pending savings withdrawals of every account. The evaluators compose several
  primitives and then touch one table of their own, so each of their proofs is a chain of frames
  (\<open>ledger_frame\<close> is reflexive and transitive) followed by one step. The lemmas on the rows of a
  table give the change of the books when a pending object is created, updated or removed.
\<close>

definition ledger_frame :: "database \<Rightarrow> database \<Rightarrow> bool" where
  "ledger_frame db db' \<longleftrightarrow> db_hardfork db' = db_hardfork db \<and> head_block_time db' = head_block_time db
     \<and> db_median_history db' = db_median_history db \<and> db_median_props db' = db_median_props db
     \<and> db_store_memo db' = db_store_memo db \<and> db_assets db' = db_assets db \<and> db_orders db' = db_orders db
     \<and> db_pairs db' = db_pairs db \<and> db_liquidity db' = db_liquidity db
     \<and> db_escrows db' = db_escrows db \<and> db_withdraws db' = db_withdraws db
     \<and> db_converts db' = db_converts db \<and> db_witnesses db' = db_witnesses db
     \<and> db_invites db' = db_invites db \<and> db_routes db' = db_routes db \<and> db_delegations db' = db_delegations db
     \<and> db_expirations db' = db_expirations db \<and> db_next_expiration db' = db_next_expiration db
     \<and> db_witness_votes db' = db_witness_votes db
     \<and> (\<forall>n. map_option acc_savings_withdraw_requests (t_get n (db_accounts db'))
           = map_option acc_savings_withdraw_requests (t_get n (db_accounts db)))"

text \<open>The pending withdrawals together with the counters of the accounts.\<close>

definition requests_of ::
  "database \<Rightarrow> (account_name \<times> 32 word, savings_withdraw_object) table \<times> (account_name \<Rightarrow> 8 word option)" where
  "requests_of db = (db_withdraws db, \<lambda>n. map_option acc_savings_withdraw_requests (t_get n (db_accounts db)))"

lemma requests_of_upd [simp]:
  "requests_of (db\<lparr>db_escrows := t1\<rparr>) = requests_of db" "requests_of (db\<lparr>db_converts := t2\<rparr>) = requests_of db"
  "requests_of (db\<lparr>db_orders := t3\<rparr>) = requests_of db" "requests_of (db\<lparr>db_dgp := p\<rparr>) = requests_of db"
  "requests_of (push_log e db) = requests_of db"
  by (simp_all add: requests_of_def push_log_def)

lemma ledger_frame_refl [simp]: "ledger_frame db db"
  by (simp add: ledger_frame_def)

lemma ledger_frame_trans: "ledger_frame a b \<Longrightarrow> ledger_frame b c \<Longrightarrow> ledger_frame a c"
  by (simp add: ledger_frame_def)

lemma ledger_frameD:
  assumes "ledger_frame db db'"
  shows "db_hardfork db' = db_hardfork db" "head_block_time db' = head_block_time db"
    "db_median_history db' = db_median_history db" "db_median_props db' = db_median_props db"
    "db_assets db' = db_assets db" "db_orders db' = db_orders db" "db_pairs db' = db_pairs db"
    "db_escrows db' = db_escrows db" "db_withdraws db' = db_withdraws db"
    "db_converts db' = db_converts db"
    "map_option acc_savings_withdraw_requests (t_get n (db_accounts db'))
       = map_option acc_savings_withdraw_requests (t_get n (db_accounts db))"
    "requests_of db' = requests_of db" "db_invites db' = db_invites db"
  using assms by (simp_all add: ledger_frame_def requests_of_def)

lemma frame_set_account [simp]:
  assumes "t_get n (db_accounts db) = Some a" "acc_savings_withdraw_requests a' = acc_savings_withdraw_requests a"
  shows "ledger_frame db (set_account n a' db)"
  using assms by (simp add: ledger_frame_def set_account_def t_get_modify)

lemma frame_balances [simp]: "ledger_frame db (db\<lparr>db_balances := t\<rparr>)"
  by (simp add: ledger_frame_def)

lemma frame_dgp: "dgp_time p = head_block_time db \<Longrightarrow> ledger_frame db (db\<lparr>db_dgp := p\<rparr>)"
  by (simp add: ledger_frame_def)

lemma frame_push_log [simp]: "ledger_frame db (push_log e db)"
  by (simp add: ledger_frame_def push_log_def)

lemma issue_interest_frame:
  assumes "issue_interest n paid db = Inr db'"
  shows "ledger_frame db db' \<and> db_accounts db' = db_accounts db"
  using assms by (auto simp: issue_interest_def intro!: ledger_frame_trans [OF _ frame_push_log] frame_dgp)

lemma accrue_sbd_interest_frame:
  assumes "accrue_sbd_interest a db = Inr (a', db')"
  shows "ledger_frame db db' \<and> db_accounts db' = db_accounts db
    \<and> acc_savings_withdraw_requests a' = acc_savings_withdraw_requests a"
  using assms
  by (auto simp: accrue_sbd_interest_def Let_def dest: issue_interest_frame
       split: if_splits)

lemma pay_savings_interest_frame:
  assumes "pay_savings_interest a db = Inr (a', db')"
  shows "ledger_frame db db' \<and> db_accounts db' = db_accounts db
    \<and> acc_savings_withdraw_requests a' = acc_savings_withdraw_requests a"
  using assms
  by (auto simp: pay_savings_interest_def dest: issue_interest_frame split: if_splits)

lemma touch_savings_seconds_frame:
  assumes "touch_savings_seconds a db = Inr (a', db')"
  shows "ledger_frame db db' \<and> db_accounts db' = db_accounts db
    \<and> acc_savings_withdraw_requests a' = acc_savings_withdraw_requests a"
  using assms by (auto simp: touch_savings_seconds_def Let_def dest: pay_savings_interest_frame split: if_splits)

lemma frame_then_set:
  assumes "ledger_frame db db1" "db_accounts db1 = db_accounts db" "t_get n (db_accounts db) = Some a"
    "acc_savings_withdraw_requests a' = acc_savings_withdraw_requests a"
  shows "ledger_frame db (set_account n a' db1)"
  using assms by (intro ledger_frame_trans [OF assms(1)] frame_set_account) simp_all

lemma adjust_account_balance_frame: "adjust_account_balance n d t m db = Inr db' \<Longrightarrow> ledger_frame db db'"
  by (auto simp: adjust_account_balance_def split: option.splits)

lemma adjust_balance_frame: "adjust_balance n delta db = Inr db' \<Longrightarrow> ledger_frame db db'"
  by (auto simp: adjust_balance_def adjust_sbd_balance_def dest!: accrue_sbd_interest_frame
       dest: adjust_account_balance_frame intro!: frame_then_set split: if_splits)

lemma adjust_savings_balance_frame: "adjust_savings_balance n delta db = Inr db' \<Longrightarrow> ledger_frame db db'"
  by (auto simp: adjust_savings_balance_def dest!: touch_savings_seconds_frame
       intro!: frame_then_set split: if_splits)

lemma adjust_market_balance_frame: "adjust_market_balance n delta db = Inr db' \<Longrightarrow> ledger_frame db db'"
  by (auto simp: adjust_market_balance_def dest: adjust_account_balance_frame split: if_splits)

lemma adjust_supply_frame: "adjust_supply delta v db = Inr db' \<Longrightarrow> ledger_frame db db'"
  by (auto simp: adjust_supply_def Let_def intro!: frame_dgp split: if_splits)

lemmas adjust_frames = adjust_balance_frame adjust_savings_balance_frame adjust_market_balance_frame
  adjust_supply_frame

section \<open>Rows of pending objects\<close>

lemma gap_withdraws:
  assumes "wf_db db" "t_get k (db_withdraws db) = Some w"
  shows "gap s (db\<lparr>db_withdraws := t_remove k (db_withdraws db)\<rparr>) = gap s db + asset_in s (sw_amount w)"
  using assms by (simp add: gap_def held_def issued_def wf_db_def tbl.total_remove)

lemma gap_withdraws_create:
  "gap s (db\<lparr>db_withdraws := t_create k w (db_withdraws db)\<rparr>) = gap s db - asset_in s (sw_amount w)"
  by (simp add: gap_def held_def issued_def t_total_create)

lemma gap_escrows:
  assumes "wf_db db" "t_get k (db_escrows db) = Some e"
  shows "gap s (db\<lparr>db_escrows := t_remove k (db_escrows db)\<rparr>) = gap s db + esc_held s e"
    and "gap s (db\<lparr>db_escrows := t_modify k (\<lambda>_. e') (db_escrows db)\<rparr>) = gap s db - (esc_held s e' - esc_held s e)"
  using assms by (simp_all add: gap_def held_def issued_def wf_db_def tbl.total_remove tbl.total_modify)

lemma gap_escrows_create:
  "gap s (db\<lparr>db_escrows := t_create k e (db_escrows db)\<rparr>) = gap s db - esc_held s e"
  by (simp add: gap_def held_def issued_def t_total_create)

lemma gap_converts:
  assumes "wf_db db" "t_get k (db_converts db) = Some r"
  shows "gap s (db\<lparr>db_converts := t_remove k (db_converts db)\<rparr>) = gap s db + asset_in s (cr_amount r)"
  using assms by (simp add: gap_def held_def issued_def wf_db_def tbl.total_remove)

lemma gap_converts_create:
  "gap s (db\<lparr>db_converts := t_create k r (db_converts db)\<rparr>) = gap s db - asset_in s (cr_amount r)"
  by (simp add: gap_def held_def issued_def t_total_create)

lemma gap_orders:
  assumes "wf_db db" "t_get k (db_orders db) = Some r"
  shows "gap s (db\<lparr>db_orders := t_remove k (db_orders db)\<rparr>) = gap s db + asset_in s (amount_for_sale r)"
    and "gap s (db\<lparr>db_orders := t_modify k (\<lambda>_. r') (db_orders db)\<rparr>)
      = gap s db - (asset_in s (amount_for_sale r') - asset_in s (amount_for_sale r))"
  using assms by (simp_all add: gap_def held_def issued_def wf_db_def tbl.total_remove tbl.total_modify)

lemma gap_orders_create:
  "gap s (db\<lparr>db_orders := t_create k r (db_orders db)\<rparr>) = gap s db - asset_in s (amount_for_sale r)"
  by (simp add: gap_def held_def issued_def t_total_create)

lemma wf_rows_remove:
  assumes "wf_db db"
  shows "wf_db (db\<lparr>db_withdraws := t_remove k (db_withdraws db)\<rparr>)"
    "wf_db (db\<lparr>db_escrows := t_remove k (db_escrows db)\<rparr>)"
    "wf_db (db\<lparr>db_converts := t_remove k (db_converts db)\<rparr>)"
    "wf_db (db\<lparr>db_orders := t_remove k (db_orders db)\<rparr>)"
  using assms by (simp_all add: wf_db_def t_wf_remove t_all_remove)

lemma wf_rows_create:
  assumes "wf_db db"
  shows "t_get k (db_withdraws db) = None \<Longrightarrow> wf_withdraw k w \<Longrightarrow> wf_db (db\<lparr>db_withdraws := t_create k w (db_withdraws db)\<rparr>)"
    "t_get k (db_escrows db) = None \<Longrightarrow> wf_escrow k e \<Longrightarrow> wf_db (db\<lparr>db_escrows := t_create k e (db_escrows db)\<rparr>)"
    "t_get k (db_converts db) = None \<Longrightarrow> wf_convert k r \<Longrightarrow> wf_db (db\<lparr>db_converts := t_create k r (db_converts db)\<rparr>)"
    "t_get k (db_orders db) = None \<Longrightarrow> wf_order k o1 \<Longrightarrow> wf_db (db\<lparr>db_orders := t_create k o1 (db_orders db)\<rparr>)"
  using assms by (simp_all add: wf_db_def t_wf_create)

lemma wf_rows_modify:
  assumes "wf_db db"
  shows "wf_escrow k e \<Longrightarrow> wf_db (db\<lparr>db_escrows := t_modify k (\<lambda>_. e) (db_escrows db)\<rparr>)"
    "wf_order k o1 \<Longrightarrow> wf_db (db\<lparr>db_orders := t_modify k (\<lambda>_. o1) (db_orders db)\<rparr>)"
  using assms by (simp_all add: wf_db_def t_wf_modify t_all_modify_const)

lemmas pending_gaps = gap_withdraws gap_withdraws_create gap_escrows gap_escrows_create gap_converts
  gap_converts_create gap_orders gap_orders_create

text \<open>Writing a row back, and writing it twice.\<close>

lemma t_modify_same: "t_wf t \<Longrightarrow> t_get k t = Some v \<Longrightarrow> t_modify k (\<lambda>_. v) t = t"
  by (auto simp: t_modify_def t_get_def t_wf_def intro!: map_idI dest: eq_key_imp_eq_value)

lemma t_modify_twice: "t_modify k f (t_modify k g t) = t_modify k (\<lambda>v. f (g v)) t"
  by (simp add: t_modify_def case_prod_unfold)

text \<open>Debits and credits of the main balance, as the evaluators write them.\<close>

lemma pay_out:
  assumes "adjust_balance n x db = Inr db'" "wf_db db"
  shows "wf_db db'" "gap s db' = gap s db - asset_in s x" "ledger_frame db db'"
  using assms adjust_balance_ledger adjust_balance_frame by blast+

lemma pay_in:
  assumes "asset_neg x = Inr m" "adjust_balance n m db = Inr db'" "wf_db db"
  shows "wf_db db'" "gap s db' = gap s db + asset_in s x" "ledger_frame db db'"
  using main.debit_gap [OF assms] adjust_balance_frame [OF assms(2)] by blast+

end
