(* ===== verification/Solvency.thy ===== *)
theory Solvency
  imports Ledger_Frame
begin

text \<open>
  Solvency: no balance is negative, and what is held is backed by what the chain has issued. The
  evaluators debit an account only after \<open>GOLOS_CHECK_BALANCE\<close>, so they keep every balance
  non-negative; and since everything held is part of an issue that fits in 64 bits, crediting an
  account with money that is already on the books can neither overflow nor fail. The lemmas are
  stated from hardfork 28 on, when balances stopped earning interest inside the credit itself.
\<close>

section \<open>Solvent states\<close>

definition account_solvent :: "account_object \<Rightarrow> bool" where
  "account_solvent a \<longleftrightarrow> 0 \<le> amount (acc_accumulative_balance a) \<and> 0 \<le> amount (acc_balance a)
     \<and> 0 \<le> amount (acc_savings_balance a) \<and> 0 \<le> amount (acc_tip_balance a)
     \<and> 0 \<le> amount (acc_sbd_balance a) \<and> 0 \<le> amount (acc_savings_sbd_balance a)
     \<and> 0 \<le> amount (acc_vesting_shares a)"

definition dgp_solvent :: "dynamic_global_property_object \<Rightarrow> bool" where
  "dgp_solvent p \<longleftrightarrow> 0 \<le> amount (dgp_total_vesting_fund_steem p) \<and> 0 \<le> amount (dgp_accumulative_balance p)
     \<and> 0 \<le> amount (dgp_accumulative_remainder p) \<and> 0 \<le> amount (dgp_total_reward_fund_steem p)"

definition escrow_solvent :: "escrow_object \<Rightarrow> bool" where
  "escrow_solvent e \<longleftrightarrow> 0 \<le> amount (esc_steem_balance e) \<and> 0 \<le> amount (esc_sbd_balance e)
     \<and> 0 \<le> amount (esc_pending_fee e)"

definition solvent :: "database \<Rightarrow> bool" where
  "solvent db \<longleftrightarrow> t_all (\<lambda>_. account_solvent) (db_accounts db)
     \<and> t_all (\<lambda>_ b. 0 \<le> amount (ab_balance b) \<and> 0 \<le> amount (ab_tip_balance b)) (db_balances db)
     \<and> t_all (\<lambda>_ r. 0 \<le> amount (cr_amount r)) (db_converts db)
     \<and> t_all (\<lambda>_ r. 0 \<le> lo_for_sale r) (db_orders db)
     \<and> t_all (\<lambda>_. escrow_solvent) (db_escrows db)
     \<and> t_all (\<lambda>_ w. 0 \<le> amount (sw_amount w)) (db_withdraws db)
     \<and> t_all (\<lambda>_ r. 0 \<le> amount (ino_balance r)) (db_invites db) \<and> dgp_solvent (db_dgp db)"

definition backed :: "database \<Rightarrow> bool" where
  "backed db \<longleftrightarrow> (\<forall>s. 0 \<le> gap s db \<and> issued s db < 2 ^ 63)"

lemma account_solvent_upd [simp]:
  "account_solvent a \<Longrightarrow> account_solvent (a\<lparr>acc_balance := x\<rparr>) \<longleftrightarrow> 0 \<le> amount x"
  "account_solvent a \<Longrightarrow> account_solvent (a\<lparr>acc_savings_balance := x\<rparr>) \<longleftrightarrow> 0 \<le> amount x"
  "account_solvent a \<Longrightarrow> account_solvent (a\<lparr>acc_sbd_balance := x\<rparr>) \<longleftrightarrow> 0 \<le> amount x"
  "account_solvent a \<Longrightarrow> account_solvent (a\<lparr>acc_savings_sbd_balance := x\<rparr>) \<longleftrightarrow> 0 \<le> amount x"
  "account_solvent (a\<lparr>acc_savings_sbd_seconds := y\<rparr>) \<longleftrightarrow> account_solvent a"
  "account_solvent (a\<lparr>acc_savings_sbd_seconds_last_update := z\<rparr>) \<longleftrightarrow> account_solvent a"
  "account_solvent (a\<lparr>acc_savings_withdraw_requests := c\<rparr>) \<longleftrightarrow> account_solvent a"
  "account_solvent (a\<lparr>acc_market_balance := x\<rparr>) \<longleftrightarrow> account_solvent a"
  "account_solvent (a\<lparr>acc_market_sbd_balance := x\<rparr>) \<longleftrightarrow> account_solvent a"
  by (auto simp: account_solvent_def)

lemma solvent_account: "solvent db \<Longrightarrow> t_get n (db_accounts db) = Some a \<Longrightarrow> account_solvent a"
  by (auto simp: solvent_def dest: t_all_get)

lemma solvent_set_account: "solvent db \<Longrightarrow> account_solvent a \<Longrightarrow> solvent (set_account n a db)"
  by (simp add: solvent_def set_account_def t_all_modify_const)

lemma solvent_push_log [simp]: "solvent (push_log e db) = solvent db"
  by (simp add: solvent_def push_log_def)

section \<open>Room for a credit\<close>

lemma asset_in_nonneg: "0 \<le> amount x \<Longrightarrow> 0 \<le> asset_in s x"
  by (simp add: asset_in_def)

lemma t_total_nonneg:
  assumes "t_all (\<lambda>_. P) t" "\<And>v. P v \<Longrightarrow> 0 \<le> w v"
  shows "0 \<le> t_total w t"
  unfolding t_total_def by (rule sum_list_nonneg) (use assms in \<open>auto simp: t_all_def\<close>)

lemma t_total_row:
  assumes "t_all (\<lambda>_. P) t" "\<And>v. P v \<Longrightarrow> 0 \<le> w v" "t_wf t" "t_get k t = Some v"
  shows "w v \<le> t_total w t"
proof -
  have "0 \<le> t_total w (t_remove k t)" by (rule t_total_nonneg [OF t_all_remove [OF assms(1)]]) (rule assms(2))
  then show ?thesis using t_total_remove [OF assms(3,4), of w] by simp
qed

lemma acct_held_nonneg: "account_solvent a \<Longrightarrow> 0 \<le> acct_held s a"
  by (simp add: account_solvent_def acct_held_def asset_in_def)

lemma esc_held_nonneg: "escrow_solvent e \<Longrightarrow> 0 \<le> esc_held s e"
  by (simp add: escrow_solvent_def esc_held_def asset_in_def)

lemma held_parts:
  assumes "solvent db"
  shows "0 \<le> t_total (acct_held s) (db_accounts db)" "0 \<le> t_total (bal_held s) (db_balances db)"
    "0 \<le> t_total (\<lambda>r. asset_in s (cr_amount r)) (db_converts db)"
    "0 \<le> t_total (\<lambda>r. asset_in s (amount_for_sale r)) (db_orders db)"
    "0 \<le> t_total (esc_held s) (db_escrows db)"
    "0 \<le> t_total (\<lambda>r. asset_in s (sw_amount r)) (db_withdraws db)"
    "0 \<le> t_total (\<lambda>r. asset_in s (ino_balance r)) (db_invites db)" "0 \<le> dgp_held s (db_dgp db)"
  using assms unfolding solvent_def
  by (auto elim!: t_total_nonneg simp: acct_held_nonneg esc_held_nonneg bal_held_def asset_in_nonneg amount_for_sale_def
      dgp_held_def dgp_solvent_def)

lemma held_bound:
  assumes "backed db"
  shows "held s db < 2 ^ 63"
  using assms by (simp add: backed_def gap_def) (smt (verit))

lemma room_for_withdraw:
  assumes "solvent db" "backed db" "wf_db db" "t_get n (db_accounts db) = Some a"
    "t_get k (db_withdraws db) = Some w"
  shows "acct_held s a + asset_in s (sw_amount w) < 2 ^ 63"
proof -
  have "acct_held s a \<le> t_total (acct_held s) (db_accounts db)"
    using assms by (intro t_total_row [where P = account_solvent]) (auto simp: solvent_def wf_db_def acct_held_nonneg)
  moreover have "asset_in s (sw_amount w) \<le> t_total (\<lambda>r. asset_in s (sw_amount r)) (db_withdraws db)"
    using assms by (intro t_total_row [where P = "\<lambda>w. 0 \<le> amount (sw_amount w)"])
      (auto simp: solvent_def wf_db_def asset_in_nonneg)
  ultimately show ?thesis using held_parts [OF assms(1), of s] held_bound [OF assms(2), of s]
    by (simp add: held_def)
qed

lemma room_for_escrow:
  assumes "solvent db" "backed db" "wf_db db" "t_get n (db_accounts db) = Some a"
    "t_get k (db_escrows db) = Some e"
  shows "acct_held s a + esc_held s e < 2 ^ 63"
proof -
  have "acct_held s a \<le> t_total (acct_held s) (db_accounts db)"
    using assms by (intro t_total_row [where P = account_solvent]) (auto simp: solvent_def wf_db_def acct_held_nonneg)
  moreover have "esc_held s e \<le> t_total (esc_held s) (db_escrows db)"
    using assms by (intro t_total_row [where P = escrow_solvent]) (auto simp: solvent_def wf_db_def esc_held_nonneg)
  ultimately show ?thesis using held_parts [OF assms(1), of s] held_bound [OF assms(2), of s]
    by (simp add: held_def)
qed

section \<open>Credits succeed\<close>

text \<open>The effect of a credit or debit of a core asset, with the row it leaves.\<close>

definition credited :: "account_object \<Rightarrow> asset \<Rightarrow> account_object" where
  "credited a x = (if symbol x = STEEM_SYMBOL
     then a\<lparr>acc_balance := mk_asset (amount (acc_balance a) + amount x) STEEM_SYMBOL\<rparr>
     else a\<lparr>acc_sbd_balance := mk_asset (amount (acc_sbd_balance a) + amount x) SBD_SYMBOL\<rparr>)"

lemma has_hardfork_mono: "has_hardfork h db \<Longrightarrow> k \<le> h \<Longrightarrow> has_hardfork k db"
  by (simp add: has_hardfork_def)

lemma adjust_balance_credited:
  assumes "has_hardfork 26 db" "t_get n (db_accounts db) = Some a" "wf_account n a"
    "symbol x \<in> {STEEM_SYMBOL, SBD_SYMBOL}"
  shows "adjust_balance n x db = Inr db' \<longleftrightarrow>
    int64_ok (amount (if symbol x = STEEM_SYMBOL then acc_balance a else acc_sbd_balance a) + amount x)
      \<and> db' = set_account n (credited a x) db"
  using assms by (auto simp: adjust_balance_def adjust_sbd_balance_def accrue_sbd_interest_def credited_def
      wf_account_symbols core_symbols_distinct)

lemma credited_held:
  assumes "wf_account n a" "symbol x \<in> {STEEM_SYMBOL, SBD_SYMBOL}"
  shows "acct_held s (credited a x) = acct_held s a + asset_in s x" "wf_account n (credited a x)"
  using assms by (auto simp: credited_def asset_in_def wf_account_symbols)

lemma credited_solvent:
  assumes "account_solvent a" "0 \<le> amount x"
  shows "account_solvent (credited a x)"
  using assms by (simp add: credited_def) (simp add: account_solvent_def)

lemma held_main:
  assumes "account_solvent a" "wf_account n a"
  shows "amount (acc_balance a) \<le> acct_held STEEM_SYMBOL a" "amount (acc_sbd_balance a) \<le> acct_held SBD_SYMBOL a"
  using assms by (simp_all add: account_solvent_def acct_held_def wf_account_symbols asset_in_def core_symbols_distinct)

lemma credit_live:
  assumes "has_hardfork 26 db" "t_get n (db_accounts db) = Some a" "wf_account n a" "account_solvent a"
    and "symbol x \<in> {STEEM_SYMBOL, SBD_SYMBOL}" "0 \<le> amount x"
    and "acct_held (symbol x) a + amount x < 2 ^ 63"
  shows "adjust_balance n x db = Inr (set_account n (credited a x) db)"
proof -
  have "amount (if symbol x = STEEM_SYMBOL then acc_balance a else acc_sbd_balance a) \<le> acct_held (symbol x) a"
    using held_main [OF assms(4,3)] assms(5) by auto
  moreover have "0 \<le> amount (if symbol x = STEEM_SYMBOL then acc_balance a else acc_sbd_balance a)"
    using assms(4) by (simp add: account_solvent_def)
  ultimately have "int64_ok (amount (if symbol x = STEEM_SYMBOL then acc_balance a else acc_sbd_balance a) + amount x)"
    using assms(6,7) by (simp add: int64_ok_def)
  then show ?thesis using adjust_balance_credited [OF assms(1-3,5)] by blast
qed

section \<open>Debits after a check\<close>

lemma solvent_balances: "solvent db \<Longrightarrow> t_get k (db_balances db) = Some b \<Longrightarrow>
    0 \<le> amount (ab_balance b) \<and> 0 \<le> amount (ab_tip_balance b)"
  by (auto simp: solvent_def dest: t_all_get)

lemma solvent_set_balances:
  assumes "solvent db" "0 \<le> amount (ab_balance b)" "0 \<le> amount (ab_tip_balance b)"
  shows "solvent (db\<lparr>db_balances := t_modify k (\<lambda>_. b) (db_balances db)\<rparr>)"
    "solvent (db\<lparr>db_balances := t_create k b (db_balances db)\<rparr>)"
  using assms by (simp_all add: solvent_def t_all_modify_const)

lemma adjust_account_balance_solvent:
  assumes "adjust_account_balance n x (mk_asset 0 (symbol x)) m db = Inr db'" "solvent db"
    and "\<And>b. t_get (symbol x, n) (db_balances db) = Some b \<Longrightarrow> 0 \<le> amount (ab_balance b) + amount x"
    and "t_get (symbol x, n) (db_balances db) = None \<Longrightarrow> 0 \<le> amount x"
  shows "solvent db'"
proof (cases "t_get (symbol x, n) (db_balances db)")
  case None
  with assms show ?thesis by (auto simp: adjust_account_balance_def intro!: solvent_set_balances)
next
  case (Some b)
  with assms solvent_balances [OF assms(2) Some] show ?thesis
    by (auto simp: adjust_account_balance_def intro!: solvent_set_balances)
qed

lemma adjust_balance_solvent:
  assumes ad: "adjust_balance n x db = Inr db'" and sol: "solvent db" "has_hardfork 26 db" "wf_db db"
    and main: "\<And>a. t_get n (db_accounts db) = Some a \<Longrightarrow> symbol x = STEEM_SYMBOL \<Longrightarrow> 0 \<le> amount (acc_balance a) + amount x"
    and sbd: "\<And>a. t_get n (db_accounts db) = Some a \<Longrightarrow> symbol x = SBD_SYMBOL \<Longrightarrow> 0 \<le> amount (acc_sbd_balance a) + amount x"
    and uia: "\<And>b. t_get (symbol x, n) (db_balances db) = Some b \<Longrightarrow> 0 \<le> amount (ab_balance b) + amount x"
      "symbol x \<notin> {STEEM_SYMBOL, SBD_SYMBOL} \<Longrightarrow> t_get (symbol x, n) (db_balances db) = None \<Longrightarrow> 0 \<le> amount x"
  shows "solvent db'"
proof (cases "symbol x \<in> {STEEM_SYMBOL, SBD_SYMBOL}")
  case True
  obtain a where a: "t_get n (db_accounts db) = Some a"
    using ad True by (auto simp: adjust_balance_def adjust_sbd_balance_def)
  have "db' = set_account n (credited a x) db"
    using adjust_balance_credited [OF sol(2) a wf_account_at [OF sol(3) a] True] ad by blast
  then show ?thesis using main [OF a] sbd [OF a] True solvent_account [OF sol(1) a]
    by (auto intro!: solvent_set_account [OF sol(1)] simp: credited_def)
next
  case False
  then have "adjust_account_balance n x (mk_asset 0 (symbol x)) (mk_asset 0 STEEM_SYMBOL) db = Inr db'"
    using ad by (auto simp: adjust_balance_def)
  from adjust_account_balance_solvent [OF this sol(1)] show ?thesis using uia False by blast
qed

lemma credit_solvent:
  assumes "adjust_balance n x db = Inr db'" "solvent db" "has_hardfork 26 db" "wf_db db" "0 \<le> amount x"
  shows "solvent db'"
  using assms solvent_account [OF assms(2)] solvent_balances [OF assms(2)]
  by (intro adjust_balance_solvent [OF assms(1-4)]) (auto simp: account_solvent_def add_nonneg_nonneg)

lemma check_main_balance:
  assumes "check_balance n MAIN_BALANCE x db = Inr ()" "wf_db db"
  shows "\<exists>a. t_get n (db_accounts db) = Some a \<and> (symbol x = STEEM_SYMBOL \<longrightarrow> amount x \<le> amount (acc_balance a))
    \<and> (symbol x = SBD_SYMBOL \<longrightarrow> amount x \<le> amount (acc_sbd_balance a))
    \<and> (symbol x \<notin> {STEEM_SYMBOL, SBD_SYMBOL} \<longrightarrow>
        (case t_get (symbol x, n) (db_balances db) of None \<Rightarrow> amount x \<le> 0 | Some b \<Rightarrow> amount x \<le> amount (ab_balance b)))"
proof -
  obtain a where a: "t_get n (db_accounts db) = Some a" using assms(1) by (auto simp: check_balance_def)
  have "acc_name a = n" using wf_account_at [OF assms(2) a] by (simp add: wf_account_def)
  with a assms(1) show ?thesis
    by (auto simp: check_balance_def get_balance_def asset_lt_def get_or_default_account_balance_def core_symbols_distinct
        split: if_splits option.splits)
qed

lemma debit_solvent:
  assumes ck: "check_balance n MAIN_BALANCE x db = Inr ()" and neg: "asset_neg x = Inr m"
    and ad: "adjust_balance n m db = Inr db'" and sol: "solvent db" "has_hardfork 26 db" "wf_db db"
  shows "solvent db'"
proof -
  obtain a where a: "t_get n (db_accounts db) = Some a" "symbol x = STEEM_SYMBOL \<Longrightarrow> amount x \<le> amount (acc_balance a)"
    "symbol x = SBD_SYMBOL \<Longrightarrow> amount x \<le> amount (acc_sbd_balance a)"
    "symbol x \<notin> {STEEM_SYMBOL, SBD_SYMBOL} \<Longrightarrow>
        (case t_get (symbol x, n) (db_balances db) of None \<Rightarrow> amount x \<le> 0 | Some b \<Rightarrow> amount x \<le> amount (ab_balance b))"
    using check_main_balance [OF ck sol(3)] by blast
  have core: "t_get (symbol x, n) (db_balances db) = Some b \<Longrightarrow> symbol x \<notin> {STEEM_SYMBOL, SBD_SYMBOL}" for b
    using wf_balance_at [OF sol(3), of "(symbol x, n)" b] by (auto simp: wf_balance_def core_symbols_set_def)
  show ?thesis
    using neg a core by (intro adjust_balance_solvent [OF ad sol]) (auto split: option.splits)
qed

lemma adjust_savings_solvent:
  assumes ad: "adjust_savings_balance n x db = Inr db'" and sol: "solvent db" "has_hardfork 28 db"
    and steem: "\<And>a. t_get n (db_accounts db) = Some a \<Longrightarrow> symbol x = STEEM_SYMBOL \<Longrightarrow> 0 \<le> amount (acc_savings_balance a) + amount x"
    and sbd: "\<And>a. t_get n (db_accounts db) = Some a \<Longrightarrow> symbol x = SBD_SYMBOL \<Longrightarrow> 0 \<le> amount (acc_savings_sbd_balance a) + amount x"
  shows "solvent db'"
proof -
  obtain a where a: "t_get n (db_accounts db) = Some a" using ad by (auto simp: adjust_savings_balance_def)
  show ?thesis using ad a sol steem [OF a] sbd [OF a] solvent_account [OF sol(1) a]
    by (auto simp: adjust_savings_balance_def touch_savings_seconds_def Let_def split: if_splits
        intro!: solvent_set_account [OF sol(1)])
qed

lemma credit_savings_solvent:
  assumes "adjust_savings_balance n x db = Inr db'" "solvent db" "has_hardfork 28 db" "0 \<le> amount x"
  shows "solvent db'"
  using assms solvent_account [OF assms(2)]
  by (intro adjust_savings_solvent [OF assms(1-3)]) (auto simp: account_solvent_def)

lemma debit_savings_solvent:
  assumes ck: "check_balance n SAVINGS x db = Inr ()" and neg: "asset_neg x = Inr m"
    and ad: "adjust_savings_balance n m db = Inr db'" and sol: "solvent db" "has_hardfork 28 db"
  shows "solvent db'"
  using neg ck by (intro adjust_savings_solvent [OF ad sol])
    (auto simp: check_balance_def get_balance_def asset_lt_def core_symbols_distinct split: if_splits)

lemma adjust_market_solvent:
  assumes "adjust_market_balance n x db = Inr db'" "solvent db"
  shows "solvent db'"
proof (cases "symbol x \<in> {STEEM_SYMBOL, SBD_SYMBOL}")
  case True
  with assms show ?thesis
    by (auto simp: adjust_market_balance_def solvent_account intro!: solvent_set_account split: if_splits)
next
  case False
  then have "adjust_account_balance n (mk_asset 0 (symbol x)) (mk_asset 0 (symbol (mk_asset 0 (symbol x)))) x db = Inr db'"
    using assms(1) by (auto simp: adjust_market_balance_def)
  from adjust_account_balance_solvent [OF this assms(2)] show ?thesis using solvent_balances [OF assms(2)] by auto
qed

section \<open>A series of credits\<close>

text \<open>An account that has room for \<open>R s\<close> more of every symbol.\<close>

definition credit_ready :: "account_name \<Rightarrow> account_object \<Rightarrow> (asset_symbol_type \<Rightarrow> int) \<Rightarrow> database \<Rightarrow> bool" where
  "credit_ready n a R db \<longleftrightarrow> has_hardfork 28 db \<and> t_get n (db_accounts db) = Some a \<and> wf_account n a
     \<and> account_solvent a \<and> (\<forall>s. acct_held s a + R s < 2 ^ 63)"

lemma set_account_simps [simp]:
  "db_hardfork (set_account n a db) = db_hardfork db" "db_dgp (set_account n a db) = db_dgp db"
  "db_escrows (set_account n a db) = db_escrows db" "db_withdraws (set_account n a db) = db_withdraws db"
  "db_converts (set_account n a db) = db_converts db" "db_orders (set_account n a db) = db_orders db"
  "t_get m (db_accounts (set_account n a db)) =
     (if m = n then map_option (\<lambda>_. a) (t_get n (db_accounts db)) else t_get m (db_accounts db))"
  "issued s (set_account n a db) = issued s db"
  by (simp_all add: set_account_def t_get_modify issued_def)

lemma credit_ready_step:
  assumes rd: "credit_ready n a R db" and x: "symbol x \<in> {STEEM_SYMBOL, SBD_SYMBOL}" "0 \<le> amount x"
    and R: "\<And>s. asset_in s x \<le> R s"
  shows "adjust_balance n x db = Inr (set_account n (credited a x) db)
    \<and> credit_ready n (credited a x) (\<lambda>s. R s - asset_in s x) (set_account n (credited a x) db)"
proof -
  have d: "has_hardfork 28 db" "t_get n (db_accounts db) = Some a" "wf_account n a" "account_solvent a"
    and room: "\<And>s. acct_held s a + R s < 2 ^ 63"
    using rd by (auto simp: credit_ready_def)
  have "acct_held (symbol x) a + amount x < 2 ^ 63" using room [of "symbol x"] R [of "symbol x"] by (simp add: asset_in_def)
  then have "adjust_balance n x db = Inr (set_account n (credited a x) db)"
    using credit_live [OF has_hardfork_mono [OF d(1)] d(2-4) x] by simp
  moreover have "credit_ready n (credited a x) (\<lambda>s. R s - asset_in s x) (set_account n (credited a x) db)"
    using d room credited_held [OF d(3) x(1)] credited_solvent [OF d(4) x(2)]
    by (simp add: credit_ready_def has_hardfork_def)
  ultimately show ?thesis ..
qed

lemma credit_ready_solvent:
  "solvent db \<Longrightarrow> credit_ready n a R db \<Longrightarrow> 0 \<le> amount x \<Longrightarrow> solvent (set_account n (credited a x) db)"
  by (simp add: credit_ready_def solvent_set_account credited_solvent)

end
