(* ===== verification/Ledger_Demo.thy ===== *)
theory Ledger_Demo
  imports Solvency
begin

text \<open>
  A small concrete chain at hardfork 30 for evaluating the ledger operations: two accounts with 500
  GOLOS each out of a supply of 1000, no pending objects, block time 1000000.
\<close>

definition demo_dgp :: dynamic_global_property_object where
  "demo_dgp = \<lparr>dgp_head_block_number = 1000, dgp_time = 1000000,
     dgp_virtual_supply = mk_asset 1000 STEEM_SYMBOL, dgp_current_supply = mk_asset 1000 STEEM_SYMBOL,
     dgp_current_sbd_supply = mk_asset 0 SBD_SYMBOL,
     dgp_total_vesting_fund_steem = mk_asset 0 STEEM_SYMBOL,
     dgp_total_vesting_shares = mk_asset 0 VESTS_SYMBOL,
     dgp_accumulative_balance = mk_asset 0 STEEM_SYMBOL,
     dgp_accumulative_remainder = mk_asset 0 STEEM_SYMBOL,
     dgp_total_reward_fund_steem = mk_asset 0 STEEM_SYMBOL, dgp_sbd_interest_rate = 1000,
     dgp_sbd_print_rate = 10000, dgp_sbd_debt_percent = 0, dgp_is_forced_min_price = False,
     dgp_maximum_block_size = 131072, dgp_custom_ops_bandwidth_multiplier = 100,
     dgp_head_block_id = null_block_id\<lparr>bid_num := 1000\<rparr>, dgp_current_witness = ''alice'',
     dgp_num_pow_witnesses = 0, dgp_average_block_size = 0, dgp_current_aslot = 1200,
     dgp_recent_slots_filled = 3, dgp_participation_count = 2, dgp_last_irreversible_block_num = 980,
     dgp_max_virtual_bandwidth = 0, dgp_current_reserve_ratio = 1, dgp_transit_block_num = - 1\<rparr>"

definition demo_schedule :: witness_schedule_object where
  "demo_schedule = \<lparr>wso_next_shuffle_block_num = 1001, wso_current_shuffled_witnesses = [''alice'', ''bob''],
     wso_num_scheduled_witnesses = 2, wso_top19_weight = 1, wso_timeshare_weight = 5, wso_miner_weight = 1,
     wso_witness_pay_normalization_factor = 25, wso_majority_version = 0\<rparr>"

definition demo_account :: "account_name \<Rightarrow> account_object" where
  "demo_account n = new_account_object\<lparr>acc_name := n, acc_balance := mk_asset 500 STEEM_SYMBOL\<rparr>"

definition demo_db :: database where
  "demo_db = \<lparr>db_hardfork = 30, db_dgp = demo_dgp,
     db_median_history = mk_price (mk_asset 1000 SBD_SYMBOL) (mk_asset 1000 STEEM_SYMBOL),
     db_median_props = new_chain_properties, db_current_virtual_time = 0, db_store_memo = True,
     db_accounts = [(''alice'', demo_account ''alice''), (''bob'', demo_account ''bob'')],
     db_authorities = [], db_freezes = [], db_metadata = [], db_blockings = [], db_balances = [],
     db_assets = [], db_orders = [], db_pairs = [], db_liquidity = [], db_escrows = [],
     db_withdraws = [], db_converts = [], db_witnesses = [], db_witness_votes = [],
     db_schedule = demo_schedule, db_hardfork_property = \<lparr>hpo_current_hardfork_version = 0x1E0000,
       hpo_next_hardfork = 0x1E0000, hpo_next_hardfork_time = 0, hpo_hf27_applied_block = 0\<rparr>,
     db_feed_history = \<lparr>fho_witness_median_history = mk_price (mk_asset 1000 SBD_SYMBOL) (mk_asset 1000 STEEM_SYMBOL),
       fho_price_history = []\<rparr>,
     db_routes = [], db_delegations = [], db_expirations = [], db_next_expiration = 0, db_fix_me = [],
     db_owner_history = [], db_recoveries = [], db_recovery_changes = [], db_declines = [], db_donates = [],
     db_store_asset_metadata = True, db_metadata_accounts = None, db_is_producing = False, db_invites = [], db_log = []\<rparr>"

lemmas demo_defs = demo_schedule_def demo_db_def demo_dgp_def demo_account_def new_account_object_def

lemma demo_wf: "wf_db demo_db"
  by (simp add: demo_defs wf_db_def wf_account_def wf_dgp_def t_wf_def t_all_def)

lemma demo_solvent: "solvent demo_db"
  by (simp add: demo_defs solvent_def account_solvent_def dgp_solvent_def t_all_def)

lemma demo_books: "issued s demo_db = (if s = STEEM_SYMBOL then 1000 else 0)" "gap s demo_db = 0"
  by (auto simp: demo_defs gap_def issued_def held_def t_total_def acct_held_def dgp_held_def asset_in_def)

lemma demo_backed: "backed demo_db"
  by (simp add: backed_def demo_books)

lemma demo_hardfork: "h \<le> 30 \<Longrightarrow> has_hardfork h demo_db"
  by (simp add: has_hardfork_def demo_db_def)

end
