(* ===== verification/Block_Log.thy ===== *)
theory Block_Log
  imports Block
begin

text \<open>
  The block log: \<^verbatim>\<open>libraries/chain/block_log.cpp\<close>, an append-only file of irreversible blocks and
  an index file of their positions, both as lists of bytes (the empty list is a file that does not
  exist; positions are file offsets and stay below \<open>2 ^ 64\<close>). \<open>fc::raw::pack\<close> and \<open>unpack\<close> of a
  block are the parameter \<open>block_codec\<close>. The lemmas show that the two files always encode the list
  of the appended blocks, and that \<open>open\<close> recovers that list from the block file when the index is
  missing or one block behind, as after a crash between the two writes of \<open>append\<close>. The mutex and
  the reuse of mapped memory are not modelled.
\<close>

section \<open>Positions as bytes\<close>

fun le_bytes :: "nat \<Rightarrow> nat \<Rightarrow> 8 word list" where
  "le_bytes 0 n = []"
| "le_bytes (Suc k) n = word_of_nat n # le_bytes k (n div 256)"

fun le_value :: "8 word list \<Rightarrow> nat" where
  "le_value [] = 0"
| "le_value (w # ws) = unat w + 256 * le_value ws"

definition put_uint64 :: "nat \<Rightarrow> 8 word list" where
  "put_uint64 n = le_bytes 8 n"

lemma length_le_bytes [simp]: "length (le_bytes k n) = k"
  by (induction k arbitrary: n) auto

lemma le_value_bytes: "n < 256 ^ k \<Longrightarrow> le_value (le_bytes k n) = n"
proof (induction k arbitrary: n)
  case (Suc k)
  then have "n div 256 < 256 ^ k" by (simp add: less_mult_imp_div_less mult.commute)
  with Suc.IH have "le_value (le_bytes k (n div 256)) = n div 256" by blast
  then show ?case by (simp add: unat_of_nat)
qed simp

lemma put_uint64_simps [simp]: "length (put_uint64 n) = 8" "n < 2 ^ 64 \<Longrightarrow> le_value (put_uint64 n) = n"
  by (simp_all add: put_uint64_def le_value_bytes)

section \<open>The log\<close>

definition STEEMIT_MAX_BLOCK_SIZE :: nat where
  "STEEMIT_MAX_BLOCK_SIZE = 1024 * 64 * 3 * 2000"

definition min_valid_file_size :: nat where
  "min_valid_file_size = 8"

record block_codec =
  cdc_pack :: "signed_block \<Rightarrow> 8 word list"
  cdc_unpack :: "8 word list \<Rightarrow> (signed_block \<times> nat) option"

record block_log =
  bl_head :: "signed_block option"
  bl_head_id :: block_id_type
  bl_blocks :: "8 word list"
  bl_index :: "8 word list"

definition npos :: nat where
  "npos = 2 ^ 64 - 1"

definition get_mapped_size :: "8 word list \<Rightarrow> nat" where
  "get_mapped_size f = (if length f < min_valid_file_size then 0 else length f)"

definition get_uint64 :: "8 word list \<Rightarrow> nat \<Rightarrow> nat result" where
  "get_uint64 f pos =
     rbind (check (pos + 8 \<le> get_mapped_size f) (Database_Corrupted ''reading_data_beyond_end_of_file'')) (\<lambda>_.
     Inr (le_value (take 8 (drop pos f))))"

definition get_last_uint64 :: "8 word list \<Rightarrow> nat result" where
  "get_last_uint64 f =
     rbind (check (8 \<le> get_mapped_size f) (Database_Corrupted ''reading_data_beyond_end_of_file'')) (\<lambda>_.
     Inr (le_value (take 8 (drop (get_mapped_size f - 8) f))))"

definition read_block :: "block_codec \<Rightarrow> 8 word list \<Rightarrow> nat \<Rightarrow> (signed_block \<times> nat) result" where
  "read_block C f pos =
     rbind (check (pos < get_mapped_size f) (Database_Corrupted ''reading_data_beyond_end_of_file'')) (\<lambda>_.
     case cdc_unpack C (take (min (get_mapped_size f - pos) STEEMIT_MAX_BLOCK_SIZE) (drop pos f)) of
       None \<Rightarrow> Inl Assert_Exception
     | Some (b, n) \<Rightarrow>
         rbind (get_uint64 f (pos + n)) (\<lambda>block_pos.
         rbind (check (block_pos = pos) (Database_Corrupted ''wrong_position_marker_was_read'')) (\<lambda>_.
         Inr (b, pos + n + 8))))"

definition read_head :: "block_codec \<Rightarrow> 8 word list \<Rightarrow> signed_block result" where
  "read_head C f = rbind (get_last_uint64 f) (\<lambda>pos. rbind (read_block C f pos) (\<lambda>(b, _). Inr b))"

definition create_nonexist_file :: "8 word list \<Rightarrow> 8 word list" where
  "create_nonexist_file f = (if f = [] then [0] else f)"

lemma read_block_advances: "read_block C f pos = Inr (b, pos') \<Longrightarrow> pos < pos'"
  by (auto simp: read_block_def split: option.splits)

text \<open>The walk of \<open>construct_index\<close> over the block file collects the positions of the blocks.\<close>

function walk_positions :: "block_codec \<Rightarrow> 8 word list \<Rightarrow> nat \<Rightarrow> nat \<Rightarrow> nat list result" where
  "walk_positions C f end_pos pos =
    (if pos \<le> end_pos then
       (case read_block C f pos of Inl e \<Rightarrow> Inl e
        | Inr (_, pos') \<Rightarrow> rbind (walk_positions C f end_pos pos') (\<lambda>ps. Inr (pos # ps)))
     else Inr [])"
  by pat_completeness auto
termination
  by (relation "measure (\<lambda>(C, f, e, p). e + 1 - p)") (auto dest!: read_block_advances sym [of _ "read_block _ _ _"])

declare walk_positions.simps [simp del]

text \<open>
  The index file is resized to one entry per block number of the head. More entries than that would
  be written past the end of the mapped file, which has no defined result; the model rejects it.
\<close>

definition construct_index :: "block_codec \<Rightarrow> block_log \<Rightarrow> block_log result" where
  "construct_index C l = (case bl_head l of None \<Rightarrow> Inl Assert_Exception
     | Some h \<Rightarrow>
         rbind (get_last_uint64 (bl_blocks l)) (\<lambda>end_pos.
         rbind (walk_positions C (bl_blocks l) end_pos 0) (\<lambda>ps.
         rbind (check (length ps \<le> unat (block_num h)) Undefined_Behaviour) (\<lambda>_.
         Inr (l\<lparr>bl_index := concat (map put_uint64 ps)
           @ replicate (8 * (unat (block_num h) - length ps)) 0\<rparr>)))))"

definition open_log :: "block_codec \<Rightarrow> 8 word list \<Rightarrow> 8 word list \<Rightarrow> block_log result" where
  "open_log C blocks_file index_file =
    (let bf = create_nonexist_file blocks_file; ixf = create_nonexist_file index_file;
         l = \<lparr>bl_head = None, bl_head_id = null_block_id, bl_blocks = bf, bl_index = ixf\<rparr> in
     if min_valid_file_size < length bf then
       rbind (read_head C bf) (\<lambda>h.
       let l1 = l\<lparr>bl_head := Some h, bl_head_id := block_id h\<rparr> in
       if min_valid_file_size \<le> length ixf then
         rbind (get_last_uint64 bf) (\<lambda>block_pos.
         rbind (get_last_uint64 ixf) (\<lambda>index_pos.
         if block_pos \<noteq> index_pos then construct_index C l1 else Inr l1))
       else construct_index C l1)
     else if min_valid_file_size \<le> length ixf then Inr (l\<lparr>bl_blocks := [0], bl_index := [0]\<rparr>)
     else Inr l)"

definition append_log :: "block_codec \<Rightarrow> signed_block \<Rightarrow> block_log \<Rightarrow> (nat \<times> block_log) result" where
  "append_log C b l =
    (let index_pos = get_mapped_size (bl_index l); block_pos = get_mapped_size (bl_blocks l) in
     rbind (check (index_pos = 8 * unat (block_num b - 1))
       (Database_Corrupted ''append_index_file_at_wrong_position'')) (\<lambda>_.
     Inr (block_pos, l\<lparr>bl_head := Some b, bl_head_id := block_id b,
       bl_blocks := take block_pos (bl_blocks l) @ cdc_pack C b @ put_uint64 block_pos,
       bl_index := take index_pos (bl_index l) @ put_uint64 block_pos\<rparr>)))"

definition get_block_pos :: "32 word \<Rightarrow> block_log \<Rightarrow> nat result" where
  "get_block_pos n l =
    (if bl_head l \<noteq> None \<and> n \<le> num_from_id (bl_head_id l) \<and> n > 0
     then get_uint64 (bl_index l) (8 * unat (n - 1)) else Inr npos)"

definition read_block_by_num :: "block_codec \<Rightarrow> 32 word \<Rightarrow> block_log \<Rightarrow> signed_block option result" where
  "read_block_by_num C n l =
     rbind (get_block_pos n l) (\<lambda>pos.
     if pos \<noteq> npos then
       rbind (read_block C (bl_blocks l) pos) (\<lambda>(b, _).
       rbind (check (block_num b = n) (Database_Corrupted ''wrong_block_num_was_read'')) (\<lambda>_. Inr (Some b)))
     else Inr None)"

definition close_log :: "block_log \<Rightarrow> block_log" where
  "close_log l = l\<lparr>bl_head := None, bl_head_id := null_block_id\<rparr>"

section \<open>What the files encode\<close>

fun blocks_from :: "block_codec \<Rightarrow> nat \<Rightarrow> signed_block list \<Rightarrow> 8 word list" where
  "blocks_from C p [] = []"
| "blocks_from C p (b # bs) = cdc_pack C b @ put_uint64 p @ blocks_from C (p + length (cdc_pack C b) + 8) bs"

fun positions_from :: "block_codec \<Rightarrow> nat \<Rightarrow> signed_block list \<Rightarrow> nat list" where
  "positions_from C p [] = []"
| "positions_from C p (b # bs) = p # positions_from C (p + length (cdc_pack C b) + 8) bs"

definition index_of :: "block_codec \<Rightarrow> signed_block list \<Rightarrow> 8 word list" where
  "index_of C bs = concat (map put_uint64 (positions_from C 0 bs))"

text \<open>Blocks the codec reads back, in a file whose positions fit 64 bits.\<close>

definition storable :: "block_codec \<Rightarrow> signed_block list \<Rightarrow> bool" where
  "storable C bs \<longleftrightarrow> (\<forall>b \<in> set bs. cdc_pack C b \<noteq> [] \<and> length (cdc_pack C b) \<le> STEEMIT_MAX_BLOCK_SIZE
       \<and> (\<forall>rest. cdc_unpack C (cdc_pack C b @ rest) = Some (b, length (cdc_pack C b))))
     \<and> length (blocks_from C 0 bs) < 2 ^ 63"

definition numbered :: "signed_block list \<Rightarrow> bool" where
  "numbered bs \<longleftrightarrow> (\<forall>i < length bs. unat (block_num (bs ! i)) = Suc i)"

definition encodes :: "block_codec \<Rightarrow> signed_block list \<Rightarrow> block_log \<Rightarrow> bool" where
  "encodes C bs l \<longleftrightarrow> (if bs = [] then bl_head l = None \<and> length (bl_blocks l) < 8 \<and> length (bl_index l) < 8
     else bl_head l = Some (last bs) \<and> bl_head_id l = block_id (last bs)
       \<and> bl_blocks l = blocks_from C 0 bs \<and> bl_index l = index_of C bs)"

lemma blocks_from_append:
  "blocks_from C p (bs @ cs) = blocks_from C p bs @ blocks_from C (p + length (blocks_from C p bs)) cs"
  by (induction bs arbitrary: p) (simp_all add: add_ac)

lemma positions_from_append:
  "positions_from C p (bs @ cs) = positions_from C p bs @ positions_from C (p + length (blocks_from C p bs)) cs"
  by (induction bs arbitrary: p) (simp_all add: add_ac)

lemma length_positions [simp]: "length (positions_from C p bs) = length bs"
  by (induction bs arbitrary: p) auto

lemma length_blocks_any: "length (blocks_from C p bs) = length (blocks_from C q bs)"
  by (induction bs arbitrary: p q) auto

lemma nth_position:
  "i < length bs \<Longrightarrow> positions_from C p bs ! i = p + length (blocks_from C p (take i bs))"
proof (induction bs arbitrary: p i)
  case (Cons b bs)
  then show ?case by (cases i) (simp_all add: add_ac)
qed simp

lemma length_concat_put [simp]: "length (concat (map put_uint64 ps)) = 8 * length ps"
  by (induction ps) auto

lemma take_drop_concat_put:
  "i < length ps \<Longrightarrow> take 8 (drop (8 * i) (concat (map put_uint64 ps))) = put_uint64 (ps ! i)"
proof (induction ps arbitrary: i)
  case (Cons p ps)
  then show ?case by (cases i) simp_all
qed simp

lemma length_index_of [simp]: "length (index_of C bs) = 8 * length bs"
  by (simp add: index_of_def)

lemma index_of_append:
  "index_of C (bs @ [b]) = index_of C bs @ put_uint64 (length (blocks_from C 0 bs))"
  by (simp add: index_of_def positions_from_append)

text \<open>Splitting the file at the block with index \<open>i\<close>.\<close>

lemma blocks_split:
  assumes "i < length bs"
  shows "blocks_from C 0 bs = blocks_from C 0 (take i bs)
    @ cdc_pack C (bs ! i) @ put_uint64 (length (blocks_from C 0 (take i bs)))
    @ blocks_from C (length (blocks_from C 0 (take (Suc i) bs))) (drop (Suc i) bs)"
proof -
  have "bs = take i bs @ bs ! i # drop (Suc i) bs" using id_take_nth_drop [OF assms] .
  then have "blocks_from C 0 bs = blocks_from C 0 (take i bs @ bs ! i # drop (Suc i) bs)" by simp
  also have "\<dots> = blocks_from C 0 (take i bs)
    @ cdc_pack C (bs ! i) @ put_uint64 (length (blocks_from C 0 (take i bs)))
    @ blocks_from C (length (blocks_from C 0 (take (Suc i) bs))) (drop (Suc i) bs)"
    using assms by (simp add: blocks_from_append take_Suc_conv_app_nth add.assoc)
  finally show ?thesis .
qed

lemma read_block_nth:
  assumes "storable C bs" "i < length bs"
  shows "read_block C (blocks_from C 0 bs) (length (blocks_from C 0 (take i bs)))
    = Inr (bs ! i, length (blocks_from C 0 (take (Suc i) bs)))"
proof -
  let ?f = "blocks_from C 0 bs" and ?p = "length (blocks_from C 0 (take i bs))" and ?b = "bs ! i"
  let ?rest = "blocks_from C (length (blocks_from C 0 (take (Suc i) bs))) (drop (Suc i) bs)"
  have b: "cdc_pack C ?b \<noteq> []" "length (cdc_pack C ?b) \<le> STEEMIT_MAX_BLOCK_SIZE"
    "\<And>rest. cdc_unpack C (cdc_pack C ?b @ rest) = Some (?b, length (cdc_pack C ?b))"
    and small: "length ?f < 2 ^ 63"
    using assms by (auto simp: storable_def)
  have f: "?f = blocks_from C 0 (take i bs) @ cdc_pack C ?b @ put_uint64 ?p @ ?rest"
    by (rule blocks_split [OF assms(2)])
  have len: "length ?f = ?p + length (cdc_pack C ?b) + 8 + length ?rest" by (subst f) simp
  have size: "get_mapped_size ?f = length ?f" using len by (simp add: get_mapped_size_def min_valid_file_size_def)
  have drop: "drop ?p ?f = cdc_pack C ?b @ put_uint64 ?p @ ?rest" by (subst f) simp
  obtain r where "take (min (length ?f - ?p) STEEMIT_MAX_BLOCK_SIZE) (drop ?p ?f) = cdc_pack C ?b @ r"
    unfolding drop using b(2) len by (simp add: take_append min_def)
  then have u: "cdc_unpack C (take (min (get_mapped_size ?f - ?p) STEEMIT_MAX_BLOCK_SIZE) (drop ?p ?f))
      = Some (?b, length (cdc_pack C ?b))" using b(3) by (simp add: size)
  have "drop (?p + length (cdc_pack C ?b)) ?f = put_uint64 ?p @ ?rest"
    unfolding drop_drop [symmetric, of "length (cdc_pack C ?b)" ?p, unfolded add.commute [of "length (cdc_pack C ?b)"]]
    by (subst f) simp
  then have g: "get_uint64 ?f (?p + length (cdc_pack C ?b)) = Inr ?p"
    using len small by (simp add: get_uint64_def size)
  have "?p < length ?f" using len by simp
  with u g show ?thesis using assms(2)
    by (simp add: read_block_def size blocks_from_append take_Suc_conv_app_nth)
qed

lemma positions_bound:
  assumes "i \<le> length bs"
  shows "length (blocks_from C 0 (take i bs)) \<le> length (blocks_from C 0 bs)"
proof -
  have "blocks_from C 0 bs = blocks_from C 0 (take i bs @ drop i bs)" by simp
  then show ?thesis unfolding blocks_from_append by simp
qed

lemma positions_mono:
  assumes "i < j" "j \<le> length bs"
  shows "length (blocks_from C 0 (take i bs)) < length (blocks_from C 0 (take j bs))"
proof -
  have i: "i < length bs" using assms by simp
  have "length (blocks_from C 0 (take i bs)) < length (blocks_from C 0 (take (Suc i) bs))"
    using i by (simp add: take_Suc_conv_app_nth blocks_from_append)
  also have "\<dots> \<le> length (blocks_from C 0 (take j bs))"
    using positions_bound [of "Suc i" "take j bs" C] assms by (simp add: min_def)
  finally show ?thesis .
qed

lemma get_last_blocks:
  assumes "storable C (bs @ [b])"
  shows "get_last_uint64 (blocks_from C 0 (bs @ [b])) = Inr (length (blocks_from C 0 bs))"
  using assms by (simp add: get_last_uint64_def get_mapped_size_def min_valid_file_size_def blocks_from_append storable_def)

lemma get_last_index:
  assumes "storable C (bs @ [b])"
  shows "get_last_uint64 (index_of C (bs @ [b])) = Inr (length (blocks_from C 0 bs))"
  using assms by (simp add: get_last_uint64_def get_mapped_size_def min_valid_file_size_def index_of_append
      storable_def blocks_from_append)

lemma storable_butlast: "storable C (bs @ [b]) \<Longrightarrow> storable C bs"
  unfolding storable_def blocks_from_append by simp

lemma walk_all:
  assumes "storable C (bs @ [b])" "i \<le> length bs"
  shows "walk_positions C (blocks_from C 0 (bs @ [b])) (length (blocks_from C 0 bs))
      (length (blocks_from C 0 (take i bs))) = Inr (drop i (positions_from C 0 (bs @ [b])))"
  using assms(2)
proof (induction "length bs - i" arbitrary: i)
  case 0
  then have i: "i = length bs" by simp
  have r: "read_block C (blocks_from C 0 (bs @ [b])) (length (blocks_from C 0 bs))
      = Inr (b, length (blocks_from C 0 (bs @ [b])))"
    using read_block_nth [OF assms(1), of "length bs"] by simp
  show ?case unfolding i
    by (subst walk_positions.simps) (simp add: r walk_positions.simps [of _ _ _ "length (blocks_from C 0 (bs @ [b]))"]
        positions_from_append, simp add: blocks_from_append)
next
  case (Suc k)
  then have i: "i < length bs" by simp
  have r: "read_block C (blocks_from C 0 (bs @ [b])) (length (blocks_from C 0 (take i bs)))
      = Inr (bs ! i, length (blocks_from C 0 (take (Suc i) bs)))"
    using read_block_nth [OF assms(1), of i] i by (simp add: nth_append)
  have IH: "walk_positions C (blocks_from C 0 (bs @ [b])) (length (blocks_from C 0 bs))
      (length (blocks_from C 0 (take (Suc i) bs))) = Inr (drop (Suc i) (positions_from C 0 (bs @ [b])))"
    using Suc by (intro Suc.hyps(1)) simp_all
  have le: "length (blocks_from C 0 (take i bs)) \<le> length (blocks_from C 0 bs)"
    using positions_bound i by (metis less_imp_le)
  have "drop i (positions_from C 0 (bs @ [b]))
      = length (blocks_from C 0 (take i bs)) # drop (Suc i) (positions_from C 0 (bs @ [b]))"
    using i nth_position [of i "bs @ [b]" C 0] by (simp add: Cons_nth_drop_Suc [symmetric])
  then show ?case by (subst walk_positions.simps) (simp add: le r IH)
qed

section \<open>Opening, appending and reading\<close>

lemma numbered_snoc: "numbered (bs @ [b]) \<longleftrightarrow> numbered bs \<and> unat (block_num b) = Suc (length bs)"
  by (auto simp: numbered_def nth_append less_Suc_eq)

lemma open_log_head:
  assumes "8 < length f" "read_head C f = Inr h" "get_last_uint64 f = Inr p"
  defines "l \<equiv> \<lambda>x. \<lparr>bl_head = Some h, bl_head_id = block_id h, bl_blocks = f, bl_index = x\<rparr>"
  shows "length ix < 8 \<Longrightarrow> open_log C f ix = construct_index C (l (create_nonexist_file ix))"
    and "8 \<le> length ix \<Longrightarrow> get_last_uint64 ix = Inr q \<Longrightarrow>
      open_log C f ix = (if p \<noteq> q then construct_index C (l ix) else Inr (l ix))"
proof -
  have f: "create_nonexist_file f = f" using assms(1) by (auto simp: create_nonexist_file_def)
  show "open_log C f ix = construct_index C (l (create_nonexist_file ix))" if "length ix < 8"
    using that assms(1) by (auto simp: open_log_def Let_def f assms(2) min_valid_file_size_def l_def create_nonexist_file_def [of ix])
  show "open_log C f ix = (if p \<noteq> q then construct_index C (l ix) else Inr (l ix))"
    if "8 \<le> length ix" "get_last_uint64 ix = Inr q"
  proof -
    have "create_nonexist_file ix = ix" using that(1) by (auto simp: create_nonexist_file_def)
    then show ?thesis using that assms(1)
      by (simp add: open_log_def Let_def f assms(2,3) min_valid_file_size_def l_def)
  qed
qed

lemma open_encodes:
  assumes st: "storable C (bs @ [b])" and num: "numbered (bs @ [b])"
    and ix: "ix = index_of C (bs @ [b]) \<or> ix = index_of C bs \<or> length ix < 8"
  shows "\<exists>l. open_log C (blocks_from C 0 (bs @ [b])) ix = Inr l \<and> encodes C (bs @ [b]) l"
proof -
  let ?f = "blocks_from C 0 (bs @ [b])" and ?p = "length (blocks_from C 0 bs)"
  have r: "read_block C ?f ?p = Inr (b, length ?f)" using read_block_nth [OF st, of "length bs"] by simp
  have head: "read_head C ?f = Inr b" by (simp add: read_head_def get_last_blocks [OF st] r)
  have ne: "cdc_pack C b \<noteq> []" using st by (simp add: storable_def)
  then have big: "8 < length ?f" by (simp add: blocks_from_append)
  have nn: "unat (block_num b) = Suc (length bs)" using num by (simp add: numbered_snoc)
  have w: "walk_positions C ?f ?p 0 = Inr (positions_from C 0 (bs @ [b]))"
    using walk_all [OF st, of 0] by simp
  have c: "construct_index C \<lparr>bl_head = Some b, bl_head_id = block_id b, bl_blocks = ?f, bl_index = x\<rparr>
      = Inr \<lparr>bl_head = Some b, bl_head_id = block_id b, bl_blocks = ?f, bl_index = index_of C (bs @ [b])\<rparr>" for x
    by (simp add: construct_index_def get_last_blocks [OF st] w nn index_of_def)
  have stale: "get_last_uint64 (index_of C bs) \<noteq> Inr ?p" if some: "bs \<noteq> []"
  proof -
    obtain cs d where bs: "bs = cs @ [d]" using some by (metis rev_exhaust)
    have "storable C (cs @ [d])" using storable_butlast [OF st] by (simp only: bs)
    then have "get_last_uint64 (index_of C bs) = Inr (length (blocks_from C 0 cs))"
      unfolding bs by (rule get_last_index)
    moreover have "length (blocks_from C 0 cs) \<noteq> ?p" unfolding bs by (simp add: blocks_from_append)
    ultimately show ?thesis by simp
  qed
  let ?l = "\<lparr>bl_head = Some b, bl_head_id = block_id b, bl_blocks = ?f, bl_index = index_of C (bs @ [b])\<rparr>"
  note open_head = open_log_head [OF big head get_last_blocks [OF st]]
  have "open_log C ?f ix = Inr ?l"
  proof (cases "length ix < 8")
    case True
    then show ?thesis by (simp add: open_head(1) c)
  next
    case False
    then have long: "8 \<le> length ix" by simp
    obtain q where q: "get_last_uint64 ix = Inr q"
      using long by (simp add: get_last_uint64_def get_mapped_size_def min_valid_file_size_def)
    show ?thesis
    proof (cases "ix = index_of C (bs @ [b])")
      case True
      then have "q = ?p" using q get_last_index [OF st] by simp
      then show ?thesis using open_head(2) [OF long q] True by simp
    next
      case False
      then have x: "ix = index_of C bs" "bs \<noteq> []" using ix long by (auto simp: index_of_def)
      then have "q \<noteq> ?p" using stale q by auto
      then show ?thesis using open_head(2) [OF long q] by (simp add: c)
    qed
  qed
  then show ?thesis by (auto simp: encodes_def)
qed

lemma append_encodes:
  assumes en: "encodes C bs l" and b: "cdc_pack C b \<noteq> []"
  shows "append_log C b l = (if unat (block_num b - 1) = length bs
    then Inr (length (blocks_from C 0 bs), \<lparr>bl_head = Some b, bl_head_id = block_id b,
       bl_blocks = blocks_from C 0 (bs @ [b]), bl_index = index_of C (bs @ [b])\<rparr>)
    else Inl (Database_Corrupted ''append_index_file_at_wrong_position''))"
proof (cases "bs = []")
  case True
  then show ?thesis using en
    by (cases l) (auto simp: append_log_def encodes_def get_mapped_size_def min_valid_file_size_def index_of_def)
next
  case False
  obtain cs d where bs: "bs = cs @ [d]" using False by (metis rev_exhaust)
  have "8 \<le> length (blocks_from C 0 bs)" "8 \<le> 8 * length bs" by (simp_all add: bs blocks_from_append)
  then have "get_mapped_size (bl_blocks l) = length (blocks_from C 0 bs)" "get_mapped_size (bl_index l) = 8 * length bs"
    "bl_blocks l = blocks_from C 0 bs" "bl_index l = index_of C bs"
    using en False by (auto simp: encodes_def get_mapped_size_def min_valid_file_size_def)
  then show ?thesis
    by (cases l) (auto simp: append_log_def index_of_append blocks_from_append Let_def)
qed

lemma read_encoded:
  assumes en: "encodes C bs l" and st: "storable C bs" and num: "numbered bs"
  shows "read_block_by_num C n l = Inr (if 0 < n \<and> unat n \<le> length bs then Some (bs ! (unat n - 1)) else None)"
proof (cases "bs = []")
  case True
  then show ?thesis using en by (simp add: read_block_by_num_def get_block_pos_def encodes_def unat_eq_0 word_gt_0)
next
  case False
  obtain cs d where bs: "bs = cs @ [d]" using False by (metis rev_exhaust)
  have hd: "bl_head l \<noteq> None" "num_from_id (bl_head_id l) = block_num d"
    "bl_blocks l = blocks_from C 0 bs" "bl_index l = index_of C bs"
    using en by (simp_all add: encodes_def bs num_from_id_def block_id_def)
  have nd: "unat (block_num d) = length bs" using num by (simp add: bs numbered_snoc)
  have le: "n \<le> block_num d \<longleftrightarrow> unat n \<le> length bs" by (simp add: word_le_nat_alt nd)
  show ?thesis
  proof (cases "0 < n \<and> unat n \<le> length bs")
    case False
    then show ?thesis by (auto simp: read_block_by_num_def get_block_pos_def hd le)
  next
    case True
    then have n0: "n \<noteq> 0" by auto
    then have pos: "0 < unat n" by (simp add: unat_gt_0)
    have un: "unat (n - 1) = unat n - 1" using unat_minus_one [OF n0] by simp
    have un2: "unat n - 1 < length bs" "Suc (unat n - 1) = unat n" using pos True by linarith+
    note un = un un2
    let ?i = "unat n - 1"
    let ?p = "length (blocks_from C 0 (take ?i bs))"
    have small: "length (blocks_from C 0 bs) < 2 ^ 63" using st by (simp add: storable_def)
    have p: "?p < length (blocks_from C 0 bs)" using positions_mono [of ?i "length bs" bs C] un by simp
    have "8 * ?i + 8 \<le> 8 * length bs" "bs \<noteq> []" using un(2) by auto
    moreover have "take 8 (drop (8 * ?i) (index_of C bs)) = put_uint64 ?p"
      using un(2) nth_position [of ?i bs C 0] by (simp add: index_of_def take_drop_concat_put)
    ultimately have g: "get_uint64 (index_of C bs) (8 * ?i) = Inr ?p"
      using p small by (simp add: get_uint64_def get_mapped_size_def min_valid_file_size_def)
    have nb: "block_num (bs ! ?i) = n" using num un by (simp add: numbered_def word_unat_eq_iff)
    have "get_block_pos n l = Inr ?p" using True by (simp only: get_block_pos_def hd le un(1) g simp_thms if_True)
    moreover have "?p \<noteq> npos" using p small by (simp add: npos_def)
    moreover have "read_block C (bl_blocks l) ?p = Inr (bs ! ?i, length (blocks_from C 0 (take (Suc ?i) bs)))"
      unfolding hd(3) by (rule read_block_nth [OF st un(2)])
    ultimately show ?thesis using True nb by (simp add: read_block_by_num_def)
  qed
qed

text \<open>Appending a list of blocks, one after the other.\<close>

fun append_all :: "block_codec \<Rightarrow> signed_block list \<Rightarrow> block_log \<Rightarrow> block_log result" where
  "append_all C [] l = Inr l"
| "append_all C (b # bs) l = rbind (append_log C b l) (\<lambda>(_, l'). append_all C bs l')"

lemma append_all_encodes:
  assumes "append_all C cs l = Inr l'" "encodes C bs l" "numbered bs" "storable C (bs @ cs)" "length (bs @ cs) < 2 ^ 32 - 1"
  shows "encodes C (bs @ cs) l' \<and> numbered (bs @ cs)"
  using assms
proof (induction cs arbitrary: bs l)
  case (Cons b cs)
  have ne: "cdc_pack C b \<noteq> []" using Cons.prems(4) by (simp add: storable_def)
  obtain pos l1 where ap: "append_log C b l = Inr (pos, l1)" and rest: "append_all C cs l1 = Inr l'"
    using Cons.prems(1) by auto
  have n: "unat (block_num b - 1) = length bs" and l1: "encodes C (bs @ [b]) l1"
    using ap append_encodes [OF Cons.prems(2) ne] by (auto simp: encodes_def split: if_splits)
  have "unat (block_num b) = Suc (length bs)"
  proof -
    have "block_num b = word_of_nat (Suc (length bs))" using n by (simp add: word_unat_eq_iff unat_of_nat flip: n)
    then show ?thesis using Cons.prems(5) by (simp only: unat_of_nat) simp
  qed
  then have "numbered (bs @ [b])" using Cons.prems(3) by (simp add: numbered_snoc)
  with Cons.IH [OF rest l1] Cons.prems(4,5) show ?case by simp
qed simp

lemma open_new: "\<exists>l. open_log C [] [] = Inr l \<and> encodes C [] l"
  by (simp add: open_log_def create_nonexist_file_def min_valid_file_size_def encodes_def Let_def)

section \<open>Properties\<close>

text \<open>
  C24. The block log survives a restart. Append any storable blocks to a new log and open its block
  file again, with the index file as it was, with an index file that misses the last entry (a crash
  between the two writes of \<open>append\<close>), or with no index at all: every block can be read back by its
  number, and no other number yields a block.
\<close>

theorem block_log_recovers:
  assumes "open_log C [] [] = Inr l0" "append_all C bs l0 = Inr l" "storable C bs" "length bs < 2 ^ 32 - 1" "bs \<noteq> []"
    and ix: "ix \<in> {bl_index l, take (length (bl_index l) - 8) (bl_index l), []}"
  shows "\<exists>l'. open_log C (bl_blocks l) ix = Inr l'
    \<and> (\<forall>n. read_block_by_num C n l' = Inr (if 0 < n \<and> unat n \<le> length bs then Some (bs ! (unat n - 1)) else None))"
proof -
  have en: "encodes C bs l" "numbered bs"
    using append_all_encodes [OF assms(2), of "[]"] open_new [of C] assms by (auto simp: numbered_def)
  obtain cs b where bs: "bs = cs @ [b]" using assms(5) by (metis rev_exhaust)
  have files: "bl_blocks l = blocks_from C 0 bs" "bl_index l = index_of C bs" using en(1) by (simp_all add: encodes_def bs)
  have "ix = index_of C bs \<or> ix = index_of C cs \<or> length ix < 8"
    using ix by (auto simp: files bs index_of_append)
  then obtain l' where "open_log C (blocks_from C 0 bs) ix = Inr l'" "encodes C bs l'"
    using open_encodes [of C cs b ix] assms(3) en(2) by (auto simp: bs)
  then show ?thesis using read_encoded [OF _ assms(3) en(2)] files by auto
qed

text \<open>
  C25. \<open>append\<close> accepts a block exactly when its number is the next one and otherwise throws the
  error of the wrong index position, so the log never has a gap.
\<close>

theorem append_log_next:
  assumes "encodes C bs l" "cdc_pack C b \<noteq> []"
  shows "(append_log C b l = Inl (Database_Corrupted ''append_index_file_at_wrong_position'')
      \<longleftrightarrow> unat (block_num b - 1) \<noteq> length bs)
    \<and> (\<forall>pos l'. append_log C b l = Inr (pos, l') \<longrightarrow> encodes C (bs @ [b]) l' \<and> pos = length (blocks_from C 0 bs))"
  using append_encodes [OF assms] by (auto simp: encodes_def)

definition demo_log_block :: "nat \<Rightarrow> signed_block" where
  "demo_log_block n = \<lparr>blk_previous = \<lparr>bid_num = word_of_nat n, bid_hash = n\<rparr>, blk_digest = Suc n, blk_timestamp = 0,
     blk_witness = [], blk_signee = [], blk_transactions = [], blk_merkle_root = 0, blk_pack_size = 0, blk_extensions = []\<rparr>"

definition demo_codec :: block_codec where
  "demo_codec = \<lparr>cdc_pack = (\<lambda>b. [word_of_nat (bid_hash (blk_previous b)), 7]),
     cdc_unpack = (\<lambda>ws. case ws of x # y # _ \<Rightarrow> Some (demo_log_block (unat x), 2) | _ \<Rightarrow> None)\<rparr>"

lemma demo_storable: "storable demo_codec [demo_log_block 0, demo_log_block 1]"
  by (simp add: storable_def demo_codec_def demo_log_block_def STEEMIT_MAX_BLOCK_SIZE_def put_uint64_def)

theorem block_log_recovers_witness:
  "\<exists>l0 l l'. open_log demo_codec [] [] = Inr l0 \<and> append_all demo_codec [demo_log_block 0, demo_log_block 1] l0 = Inr l
    \<and> open_log demo_codec (bl_blocks l) (take 8 (bl_index l)) = Inr l'
    \<and> read_block_by_num demo_codec 2 l' = Inr (Some (demo_log_block 1))"
proof -
  let ?bs = "[demo_log_block 0, demo_log_block 1]"
  obtain l0 where l0: "open_log demo_codec [] [] = Inr l0" "encodes demo_codec [] l0" using open_new by blast
  have ne: "cdc_pack demo_codec b \<noteq> []" for b by (simp add: demo_codec_def)
  have num: "unat (block_num (demo_log_block 0) - 1) = 0" "unat (block_num (demo_log_block 1) - 1) = Suc 0"
    by (simp_all add: demo_log_block_def block_num_def num_from_id_def)
  obtain l1 where l1: "append_log demo_codec (demo_log_block 0) l0 = Inr (0, l1)" "encodes demo_codec [demo_log_block 0] l1"
    using append_encodes [OF l0(2) ne, of "demo_log_block 0"] num by (fastforce simp: encodes_def)
  obtain p l where l: "append_log demo_codec (demo_log_block 1) l1 = Inr (p, l)" "encodes demo_codec ?bs l"
    using append_encodes [OF l1(2) ne, of "demo_log_block 1"] num by (fastforce simp: encodes_def)
  have ap: "append_all demo_codec ?bs l0 = Inr l" using l1(1) l(1) by simp
  have "length (bl_index l) = 16" using l(2) by (simp add: encodes_def)
  then obtain l' where "open_log demo_codec (bl_blocks l) (take 8 (bl_index l)) = Inr l'"
      "\<And>n. read_block_by_num demo_codec n l' = Inr (if 0 < n \<and> unat n \<le> length ?bs then Some (?bs ! (unat n - 1)) else None)"
    using block_log_recovers [OF l0(1) ap demo_storable, of "take 8 (bl_index l)"] by auto
  then have "open_log demo_codec (bl_blocks l) (take 8 (bl_index l)) = Inr l'"
      "read_block_by_num demo_codec 2 l' = Inr (Some (demo_log_block 1))" by simp_all
  then show ?thesis using l0(1) ap by blast
qed

theorem append_log_next_witness:
  "\<exists>l. encodes demo_codec [] l \<and> (append_log demo_codec (demo_log_block 1) l
     = Inl (Database_Corrupted ''append_index_file_at_wrong_position''))"
proof -
  obtain l where l: "encodes demo_codec [] l" using open_new by blast
  have "cdc_pack demo_codec (demo_log_block 1) \<noteq> []" by (simp add: demo_codec_def)
  from append_log_next [OF l this] l show ?thesis
    by (auto simp: demo_log_block_def block_num_def num_from_id_def)
qed

end
