(* ===== verification/Block_Production.thy ===== *)
theory Block_Production
  imports Ledger_Demo Fork_Database Block_Log
begin

unbundle bit_operations_syntax

text \<open>
  The clock, the header checks and the bookkeeping of a block (\<^verbatim>\<open>libraries/chain/database.cpp\<close>):
  slots and the witness scheduled for each, \<open>_validate_block\<close> and \<open>validate_block_header\<close>, the
  versions a header reports, and the four steps that follow the transactions of a block:
  \<open>update_global_dynamic_data\<close> (missed slots, participation, bandwidth),
  \<open>update_signing_witness\<close>, \<open>update_last_irreversible_block\<close> (with the block log and the fork
  database) and \<open>create_block_summary\<close>. \<open>update_virtual_supply\<close> is here too. The lemmas show that
  slots and times are inverse, that the participation counter is the number of filled slots, that
  the irreversible block never moves back and is confirmed by three quarters of the witnesses, and
  that the block log receives exactly the irreversible blocks of the main branch.
\<close>

section \<open>Constants\<close>

definition STEEMIT_BLOCK_INTERVAL :: nat where "STEEMIT_BLOCK_INTERVAL = 3"
definition STEEMIT_START_MINER_VOTING_BLOCK :: nat where "STEEMIT_START_MINER_VOTING_BLOCK = 60 * 10 div 3"
definition STEEMIT_MAX_WITNESSES :: nat where "STEEMIT_MAX_WITNESSES = 21"
definition STEEMIT_IRREVERSIBLE_THRESHOLD :: nat where "STEEMIT_IRREVERSIBLE_THRESHOLD = 75 * 100"
definition STEEMIT_MAX_RESERVE_RATIO :: nat where "STEEMIT_MAX_RESERVE_RATIO = 20000"
definition STEEMIT_BANDWIDTH_PRECISION :: nat where "STEEMIT_BANDWIDTH_PRECISION = 1000000"
definition STEEMIT_BANDWIDTH_AVERAGE_WINDOW_SECONDS :: nat where
  "STEEMIT_BANDWIDTH_AVERAGE_WINDOW_SECONDS = 60 * 60 * 24 * 7"
definition STEEMIT_MAX_UNDO_HISTORY :: nat where "STEEMIT_MAX_UNDO_HISTORY = 10000"
definition STEEMIT_SBD_START_PERCENT :: nat where "STEEMIT_SBD_START_PERCENT = 2 * 100"
definition STEEMIT_SBD_STOP_PERCENT :: nat where "STEEMIT_SBD_STOP_PERCENT = 5 * 100"

lemmas block_constants = STEEMIT_BLOCK_INTERVAL_def STEEMIT_START_MINER_VOTING_BLOCK_def STEEMIT_MAX_WITNESSES_def
  STEEMIT_IRREVERSIBLE_THRESHOLD_def STEEMIT_100_PERCENT_def STEEMIT_MAX_RESERVE_RATIO_def

text \<open>The bits of the \<open>skip\<close> mask that are read below.\<close>

definition skip_witness_signature :: "32 word" where "skip_witness_signature = 1"
definition skip_block_size_check :: "32 word" where "skip_block_size_check = push_bit 4 1"
definition skip_merkle_check :: "32 word" where "skip_merkle_check = push_bit 7 1"
definition skip_undo_history_check :: "32 word" where "skip_undo_history_check = push_bit 8 1"
definition skip_witness_schedule_check :: "32 word" where "skip_witness_schedule_check = push_bit 9 1"
definition skip_block_log :: "32 word" where "skip_block_log = push_bit 13 1"

definition skips :: "32 word \<Rightarrow> 32 word \<Rightarrow> bool" where
  "skips skip flag \<longleftrightarrow> skip AND flag \<noteq> 0"

section \<open>Slots\<close>

text \<open>\<open>time_point_sec\<close> is 32 bits wide, so slot times wrap.\<close>

definition get_slot_time :: "32 word \<Rightarrow> database \<Rightarrow> 32 word" where
  "get_slot_time slot_num db =
    (if slot_num = 0 then 0
     else if head_block_num db = 0 then word_of_int (head_block_time db) + slot_num * 3
     else (let head_block_abs_slot = head_block_time db div int STEEMIT_BLOCK_INTERVAL
           in word_of_int (head_block_abs_slot * int STEEMIT_BLOCK_INTERVAL) + slot_num * 3))"

definition get_slot_at_time :: "32 word \<Rightarrow> database \<Rightarrow> 32 word" where
  "get_slot_at_time tm db =
    (let first_slot_time = get_slot_time 1 db in
     if tm < first_slot_time then 0
     else word_of_nat ((unat tm - unat first_slot_time) div STEEMIT_BLOCK_INTERVAL + 1))"

text \<open>The modulus by zero and an index behind the schedule have no defined result.\<close>

definition get_scheduled_witness :: "32 word \<Rightarrow> database \<Rightarrow> account_name result" where
  "get_scheduled_witness slot_num db =
    (let current_aslot = dgp_current_aslot (db_dgp db) + ucast slot_num;
         n = unat (wso_num_scheduled_witnesses (db_schedule db));
         names = wso_current_shuffled_witnesses (db_schedule db) in
     if n = 0 then Inl Undefined_Behaviour
     else if unat current_aslot mod n < length names then Inr (names ! (unat current_aslot mod n))
     else Inl Undefined_Behaviour)"

definition popcount :: "128 word \<Rightarrow> nat" where
  "popcount w = length (filter (bit w) [0..<128])"

definition witness_participation_rate :: "database \<Rightarrow> 32 word" where
  "witness_participation_rate db =
     word_of_nat (nat STEEMIT_100_PERCENT * popcount (dgp_recent_slots_filled (db_dgp db)) div 128)"

definition is_transit_enabled :: "database \<Rightarrow> bool" where
  "is_transit_enabled db \<longleftrightarrow> has_hardfork 21 db \<and> dgp_transit_block_num (db_dgp db) \<noteq> - 1"

section \<open>Header checks\<close>

text \<open>
  \<open>calc\<close> is the merkle root of the transactions, \<open>merkle\<close> the node's table of known deviating roots.
\<close>

definition validate_block_body :: "(nat list \<Rightarrow> nat) \<Rightarrow> (32 word, nat) table \<Rightarrow> signed_block \<Rightarrow> 32 word \<Rightarrow> database
    \<Rightarrow> unit result" where
  "validate_block_body calc merkle b skip db =
     rbind (if \<not> skips skip skip_merkle_check then
         (let merkle_root = calc (blk_transactions b) in
          if blk_merkle_root b = merkle_root then Inr ()
          else check_assert (t_get (block_num b) merkle = Some merkle_root))
       else Inr ()) (\<lambda>_.
     if \<not> skips skip skip_block_size_check \<and> has_hardfork 12 db then
       check_assert (unat (blk_pack_size b) \<le> dgp_maximum_block_size (db_dgp db))
     else Inr ())"

definition validate_block_header :: "32 word \<Rightarrow> signed_block \<Rightarrow> database \<Rightarrow> witness_object result" where
  "validate_block_header skip b db =
     rbind (check_assert (dgp_head_block_id (db_dgp db) = blk_previous b)) (\<lambda>_.
     rbind (check_assert (head_block_time db < uint (blk_timestamp b))) (\<lambda>_.
     rbind (get_witness (blk_witness b) db) (\<lambda>w.
     rbind (if \<not> skips skip skip_witness_signature
       then check_assert (blk_signee b = wit_signing_key w) else Inr ()) (\<lambda>_.
     rbind (if \<not> skips skip skip_witness_schedule_check then
         (let slot_num = get_slot_at_time (blk_timestamp b) db in
          rbind (check_assert (slot_num > 0)) (\<lambda>_.
          if block_num b < 65693821 \<or> block_num b > 65893852 then
            rbind (get_scheduled_witness slot_num db) (\<lambda>scheduled_witness.
            check_assert (wit_owner w = scheduled_witness))
          else Inr ()))
       else Inr ()) (\<lambda>_. Inr w)))))"

definition modify_witness ::
  "account_name \<Rightarrow> (witness_object \<Rightarrow> witness_object) \<Rightarrow> database \<Rightarrow> database result" where
  "modify_witness n f db = rbind (get_witness n db) (\<lambda>w.
     Inr (db\<lparr>db_witnesses := t_modify n f (db_witnesses db)\<rparr>))"

fun process_header_extensions :: "string \<Rightarrow> header_extension list \<Rightarrow> database \<Rightarrow> database result" where
  "process_header_extensions wit [] db = Inr db"
| "process_header_extensions wit (Void_Extension # es) db = process_header_extensions wit es db"
| "process_header_extensions wit (Version_Extension v # es) db =
     rbind (modify_witness wit (\<lambda>w. if v \<noteq> wit_running_version w then w\<lparr>wit_running_version := v\<rparr> else w) db)
       (process_header_extensions wit es)"
| "process_header_extensions wit (Hardfork_Vote_Extension v t # es) db =
     rbind (modify_witness wit (\<lambda>w. if v \<noteq> wit_hardfork_version_vote w \<or> t \<noteq> wit_hardfork_time_vote w
         then w\<lparr>wit_hardfork_version_vote := v, wit_hardfork_time_vote := t\<rparr> else w) db)
       (process_header_extensions wit es)"

text \<open>What \<open>_apply_block\<close> does before the transactions of the block.\<close>

definition begin_block :: "(nat list \<Rightarrow> nat) \<Rightarrow> (32 word, nat) table \<Rightarrow> signed_block \<Rightarrow> 32 word \<Rightarrow> database
    \<Rightarrow> database result" where
  "begin_block calc merkle b skip db =
     rbind (validate_block_body calc merkle b skip db) (\<lambda>_.
     rbind (validate_block_header skip b db) (\<lambda>signing_witness.
     rbind (modify_dgp (\<lambda>p. Inr (p\<lparr>dgp_current_witness := blk_witness b\<rparr>)) db) (\<lambda>db1.
     rbind (process_header_extensions (blk_witness b) (blk_extensions b) db1) (\<lambda>db2.
     if has_hardfork 5 db2 then
       rbind (get_witness (blk_witness b) db2) (\<lambda>w.
       rbind (check_assert (wit_running_version w \<ge> hpo_current_hardfork_version (db_hardfork_property db2))) (\<lambda>_.
       Inr db2))
     else Inr db2))))"

section \<open>Missed slots and global properties\<close>

text \<open>Whether a witness that missed a slot loses its signing key.\<close>

definition missed_too_long :: "database \<Rightarrow> witness_object \<Rightarrow> bool" where
  "missed_too_long db w =
    (let head = word_of_nat (head_block_num db) :: 32 word;
         reset_blocks = ucast (witness_skipping_reset_time (db_median_props db) div 3) :: 64 word;
         idle = ucast head - wit_last_confirmed_block_num w in
     if is_transit_enabled db then
       (if head - dgp_transit_block_num (db_dgp db) < 210 then idle > 30
        else (has_hardfork 22 db \<and> idle > reset_blocks) \<or> idle > word_of_nat STEEMIT_BLOCKS_PER_DAY)
     else if has_hardfork 22 db then idle > reset_blocks
     else if has_hardfork 14 db then idle > word_of_nat STEEMIT_BLOCKS_PER_DAY
     else False)"

definition miss_slot :: "account_name \<Rightarrow> witness_object \<Rightarrow> database \<Rightarrow> database" where
  "miss_slot name w db =
    (let w1 = w\<lparr>wit_total_missed := wit_total_missed w + 1\<rparr>;
         put = (\<lambda>w2 d. d\<lparr>db_witnesses := t_modify name (\<lambda>_. w2) (db_witnesses d)\<rparr>) in
     if missed_too_long db w1
     then push_log (Shutdown_Witness_Op (wit_owner w1)) (put (w1\<lparr>wit_signing_key := []\<rparr>) db)
     else put w1 db)"

fun miss_slots :: "string \<Rightarrow> nat \<Rightarrow> 32 word \<Rightarrow> database \<Rightarrow> database result" where
  "miss_slots producer 0 i db = Inr db"
| "miss_slots producer (Suc n) i db =
     rbind (get_scheduled_witness (i + 1) db) (\<lambda>name.
     rbind (get_witness name db) (\<lambda>w.
     miss_slots producer n (i + 1) (if wit_owner w \<noteq> producer then miss_slot name w db else db)))"

definition record_slot :: "bool \<Rightarrow> dynamic_global_property_object \<Rightarrow> dynamic_global_property_object" where
  "record_slot filled p =
    (let c = dgp_participation_count p - of_bool (bit (dgp_recent_slots_filled p) 127) in
     p\<lparr>dgp_recent_slots_filled := push_bit 1 (dgp_recent_slots_filled p) + of_bool filled,
       dgp_participation_count := c + of_bool filled\<rparr>)"

definition update_reserve_ratio :: "database \<Rightarrow> dynamic_global_property_object \<Rightarrow> dynamic_global_property_object" where
  "update_reserve_ratio db p =
    (if dgp_head_block_number p mod 20 = 0 then
       (let full = (if has_hardfork 12 db then unat (dgp_average_block_size p) > dgp_maximum_block_size p div 4
                    else unat (dgp_average_block_size p) > dgp_maximum_block_size p div 2);
            r = (if full then dgp_current_reserve_ratio p div 2 else dgp_current_reserve_ratio p + 1)
        in p\<lparr>dgp_current_reserve_ratio := (if has_hardfork 2 db \<and> r > word_of_nat STEEMIT_MAX_RESERVE_RATIO
             then word_of_nat STEEMIT_MAX_RESERVE_RATIO else r)\<rparr>)
     else p)"

definition update_dgp :: "signed_block \<Rightarrow> nat \<Rightarrow> database \<Rightarrow> dynamic_global_property_object" where
  "update_dgp b missed_blocks db =
    (let p1 = fold (\<lambda>i. record_slot (i = 0)) [0..<missed_blocks + 1] (db_dgp db);
         p2 = p1\<lparr>dgp_head_block_number := unat (block_num b), dgp_head_block_id := block_id b,
           dgp_time := uint (blk_timestamp b),
           dgp_current_aslot := dgp_current_aslot p1 + word_of_nat (missed_blocks + 1),
           dgp_average_block_size := ucast ((ucast (99 * dgp_average_block_size p1) + ucast (blk_pack_size b) :: 64 word) div 100)\<rparr>;
         p3 = update_reserve_ratio db p2
     in p3\<lparr>dgp_max_virtual_bandwidth := word_of_nat (dgp_maximum_block_size p3) * dgp_current_reserve_ratio p3
         * word_of_nat STEEMIT_BANDWIDTH_PRECISION * word_of_nat STEEMIT_BANDWIDTH_AVERAGE_WINDOW_SECONDS div 3\<rparr>)"

text \<open>
  The \<open>assert\<close> of the source on the slot is compiled out in a release build; a slot of 0 would then
  wrap to \<open>2 ^ 32 - 1\<close> missed blocks, which the model rejects.
\<close>

definition update_global_dynamic_data :: "signed_block \<Rightarrow> 32 word \<Rightarrow> database \<Rightarrow> database result" where
  "update_global_dynamic_data b skip db =
     rbind (if head_block_time db \<noteq> 0 then
         (let slot = get_slot_at_time (blk_timestamp b) db in
          rbind (check (slot \<noteq> 0) Undefined_Behaviour) (\<lambda>_.
          rbind (miss_slots (blk_witness b) (unat (slot - 1)) 0 db) (\<lambda>db1.
          Inr (unat (slot - 1), db1))))
       else Inr (0, db)) (\<lambda>(missed_blocks, db1).
     let db2 = db1\<lparr>db_dgp := update_dgp b missed_blocks db1\<rparr> in
     if \<not> skips skip skip_undo_history_check then
       rbind (check (word_of_nat (head_block_num db2) - dgp_last_irreversible_block_num (db_dgp db2)
           < word_of_nat STEEMIT_MAX_UNDO_HISTORY) Undo_Database_Exception) (\<lambda>_. Inr db2)
     else Inr db2)"

definition update_signing_witness :: "account_name \<Rightarrow> signed_block \<Rightarrow> database \<Rightarrow> database result" where
  "update_signing_witness signing_witness b db =
     modify_witness signing_witness (\<lambda>w. w\<lparr>
       wit_last_aslot := dgp_current_aslot (db_dgp db) + ucast (get_slot_at_time (blk_timestamp b) db),
       wit_last_confirmed_block_num := ucast (block_num b)\<rparr>) db"

section \<open>Virtual supply\<close>

text \<open>The share of an amount in a supply, in hundredths of a percent, cut to 16 bits; division by zero has no result.\<close>

definition percent_of :: "asset \<Rightarrow> asset \<Rightarrow> nat result" where
  "percent_of a supply =
     rbind (check (amount supply \<noteq> 0) Undefined_Behaviour) (\<lambda>_.
     Inr (unat (ucast (mul_div_u128 (amount a) STEEMIT_100_PERCENT (amount supply)) :: 16 word)))"

definition print_rate :: "nat \<Rightarrow> nat" where
  "print_rate percent_sbd =
    (if percent_sbd \<le> STEEMIT_SBD_START_PERCENT then nat STEEMIT_100_PERCENT
     else if percent_sbd \<ge> STEEMIT_SBD_STOP_PERCENT then 0
     else (STEEMIT_SBD_STOP_PERCENT - percent_sbd) * nat STEEMIT_100_PERCENT
       div (STEEMIT_SBD_STOP_PERCENT - STEEMIT_SBD_START_PERCENT))"

definition update_virtual_supply :: "database \<Rightarrow> database result" where
  "update_virtual_supply db =
    (let median = db_median_history db in
     modify_dgp (\<lambda>p.
       rbind (if price_is_null median then Inr (mk_asset 0 STEEM_SYMBOL)
         else asset_mul_price (dgp_current_sbd_supply p) median) (\<lambda>sbd.
       rbind (asset_add (dgp_current_supply p) sbd) (\<lambda>virtual_supply.
       let p1 = p\<lparr>dgp_virtual_supply := virtual_supply\<rparr> in
       if \<not> price_is_null median \<and> has_hardfork 14 db then
         rbind (asset_mul_price (dgp_current_sbd_supply p1) median) (\<lambda>worth.
         rbind (percent_of worth (dgp_virtual_supply p1)) (\<lambda>percent_sbd.
         let p2 = p1\<lparr>dgp_sbd_print_rate := print_rate percent_sbd\<rparr> in
         if has_hardfork 22 db then
           rbind (asset_mul_price (dgp_current_sbd_supply p2) (fho_witness_median_history (db_feed_history db))) (\<lambda>debt.
           rbind (percent_of debt (if has_hardfork 29 db then dgp_current_supply p2 else dgp_virtual_supply p2))
             (\<lambda>percent. Inr (p2\<lparr>dgp_sbd_debt_percent := percent\<rparr>)))
         else Inr p2))
       else Inr p1))) db)"

section \<open>The last irreversible block\<close>

text \<open>
  The parts of the node besides the state: the fork database, the block log, the summaries of the
  last 65536 blocks and the revisions handed to \<open>commit\<close> of the state database.
\<close>

record node_state =
  nd_db :: database
  nd_fork :: fork_database
  nd_log :: block_log
  nd_summaries :: "(32 word, block_id_type) table"
  nd_commits :: "32 word list"

fun scheduled_objects :: "account_name list \<Rightarrow> database \<Rightarrow> witness_object list result" where
  "scheduled_objects [] db = Inr []"
| "scheduled_objects (n # ns) db = rbind (get_witness n db) (\<lambda>w. rbind (scheduled_objects ns db) (\<lambda>ws. Inr (w # ws)))"

definition irreversible_offset :: "nat \<Rightarrow> nat" where
  "irreversible_offset n = (nat STEEMIT_100_PERCENT - STEEMIT_IRREVERSIBLE_THRESHOLD) * n div nat STEEMIT_100_PERCENT"

text \<open>The value at the position of \<open>nth_element\<close> is the one a sorted list has there.\<close>

definition confirmed_by_threshold :: "witness_object list \<Rightarrow> 64 word" where
  "confirmed_by_threshold ws = sort (map wit_last_confirmed_block_num ws) ! irreversible_offset (length ws)"

definition new_irreversible :: "database \<Rightarrow> (32 word) result" where
  "new_irreversible db =
    (let p = db_dgp db; old = dgp_last_irreversible_block_num p in
     if head_block_num db < STEEMIT_START_MINER_VOTING_BLOCK then
       Inr (if head_block_num db > STEEMIT_MAX_WITNESSES then word_of_nat (head_block_num db - STEEMIT_MAX_WITNESSES) else old)
     else
       (let n = unat (wso_num_scheduled_witnesses (db_schedule db)) in
        rbind (check (0 < n \<and> n \<le> length (wso_current_shuffled_witnesses (db_schedule db))) Undefined_Behaviour) (\<lambda>_.
        rbind (scheduled_objects (take n (wso_current_shuffled_witnesses (db_schedule db))) db) (\<lambda>ws.
        let new = ucast (confirmed_by_threshold ws) :: 32 word in
        Inr (if new > old then
            (if is_transit_enabled db \<and> dgp_transit_block_num p > old \<and> dgp_transit_block_num p \<le> new
             then dgp_transit_block_num p else new)
          else old)))))"

function log_irreversible :: "block_codec \<Rightarrow> fork_database \<Rightarrow> 32 word \<Rightarrow> nat \<Rightarrow> block_log \<Rightarrow> block_log result" where
  "log_irreversible C fd lib log_head_num l =
    (if log_head_num < unat lib then
       (case fetch_block_on_main_branch_by_number (word_of_nat (log_head_num + 1)) fd of
          None \<Rightarrow> Inl Undefined_Behaviour
        | Some None \<Rightarrow> Inl Assert_Exception
        | Some (Some a) \<Rightarrow> rbind (append_log C (fi_data (item fd a)) l) (\<lambda>(_, l').
            log_irreversible C fd lib (log_head_num + 1) l'))
     else Inr l)"
  by pat_completeness auto
termination by (relation "measure (\<lambda>(C, fd, lib, n, l). unat lib - n)") auto

declare log_irreversible.simps [simp del]

definition log_head_num :: "block_log \<Rightarrow> nat" where
  "log_head_num l = (case bl_head l of None \<Rightarrow> 0 | Some b \<Rightarrow> unat (block_num b))"

definition update_last_irreversible_block :: "block_codec \<Rightarrow> 32 word \<Rightarrow> node_state \<Rightarrow> node_state result" where
  "update_last_irreversible_block C skip nd =
     rbind (new_irreversible (nd_db nd)) (\<lambda>lib.
     let db1 = (nd_db nd)\<lparr>db_dgp := (db_dgp (nd_db nd))\<lparr>dgp_last_irreversible_block_num := lib\<rparr>\<rparr>;
         nd1 = nd\<lparr>nd_db := db1, nd_commits := nd_commits nd @ [lib]\<rparr> in
     rbind (if \<not> skips skip skip_block_log
       then log_irreversible C (nd_fork nd1) lib (log_head_num (nd_log nd1)) (nd_log nd1) else Inr (nd_log nd1)) (\<lambda>l.
     Inr (nd1\<lparr>nd_log := l,
       nd_fork := set_max_size (word_of_nat (head_block_num db1) - lib + 1) (nd_fork nd1)\<rparr>)))"

definition create_block_summary :: "signed_block \<Rightarrow> node_state \<Rightarrow> node_state result" where
  "create_block_summary b nd =
    (let sid = block_num b AND 0xffff in
     rbind (case t_get sid (nd_summaries nd) of None \<Rightarrow> Inl (Missing_Object ''block_summary'') | Some _ \<Rightarrow> Inr ()) (\<lambda>_.
     Inr (nd\<lparr>nd_summaries := t_modify sid (\<lambda>_. block_id b) (nd_summaries nd)\<rparr>)))"

text \<open>The four steps in the order of \<open>_apply_block\<close>, after the transactions.\<close>

definition record_block :: "block_codec \<Rightarrow> signed_block \<Rightarrow> 32 word \<Rightarrow> node_state \<Rightarrow> node_state result" where
  "record_block C b skip nd =
     rbind (update_global_dynamic_data b skip (nd_db nd)) (\<lambda>db1.
     rbind (update_signing_witness (blk_witness b) b db1) (\<lambda>db2.
     rbind (update_last_irreversible_block C skip (nd\<lparr>nd_db := db2\<rparr>)) (\<lambda>nd1.
     create_block_summary b nd1)))"

section \<open>Slots and times are inverse\<close>

text \<open>The time slot 0 would have: the genesis time, or the start of the slot of the head block.\<close>

definition slot_base :: "database \<Rightarrow> int" where
  "slot_base db = (if head_block_num db = 0 then head_block_time db else head_block_time db div 3 * 3)"

lemma uint_slot_time:
  assumes "s \<noteq> 0" "0 \<le> head_block_time db" "slot_base db + 3 * uint s < 2 ^ 32"
  shows "uint (get_slot_time s db) = slot_base db + 3 * uint s"
proof -
  have w: "get_slot_time s db = word_of_int (slot_base db + 3 * uint s)"
    using assms(1) by (simp add: get_slot_time_def slot_base_def STEEMIT_BLOCK_INTERVAL_def Let_def mult.commute)
  have "0 \<le> slot_base db + 3 * uint s" using assms(2) by (simp add: slot_base_def)
  then show ?thesis unfolding w using assms(3) by (subst unsigned_of_int) (simp add: take_bit_int_eq_self)
qed

lemma slot_base_nonneg: "0 \<le> head_block_time db \<Longrightarrow> 0 \<le> slot_base db"
  by (simp add: slot_base_def)

lemma slot_quotient: "int (n div 3 + 1) = (int n + 3) div 3"
  by presburger

lemma word_of_slot: "0 \<le> x \<Longrightarrow> x < 2 ^ 32 \<Longrightarrow> uint (word_of_int x :: 32 word) = x"
  by (subst unsigned_of_int) (simp add: take_bit_int_eq_self)

lemma slot_at_time:
  assumes "0 \<le> head_block_time db" "slot_base db + 3 < 2 ^ 32"
  shows "uint (get_slot_at_time tm db)
    = (if uint tm < slot_base db + 3 then 0 else (uint tm - slot_base db) div 3)"
proof -
  define f where "f = get_slot_time 1 db"
  define x where "x = slot_base db"
  have x: "0 \<le> x" unfolding x_def using assms(1) by (rule slot_base_nonneg)
  have f: "uint f = x + 3" unfolding f_def x_def using uint_slot_time [of 1 db] assms by simp
  have at: "get_slot_at_time tm db = (if tm < f then 0 else word_of_nat ((unat tm - unat f) div 3 + 1))"
    by (simp add: get_slot_at_time_def Let_def f_def STEEMIT_BLOCK_INTERVAL_def)
  show ?thesis
  proof (cases "uint tm < x + 3")
    case True
    then show ?thesis by (simp add: at f word_less_def x_def [symmetric])
  next
    case False
    have u: "int (unat w) = uint w" for w :: "32 word" by (rule of_nat_unat)
    have "unat f \<le> unat tm" using False u [of f] u [of tm] f by linarith
    then have n: "int (unat tm - unat f) + 3 = uint tm - x" using u [of f] u [of tm] f by linarith
    have "get_slot_at_time tm db = word_of_int (int ((unat tm - unat f) div 3 + 1))"
      using False by (simp only: at f word_less_def if_False of_int_of_nat_eq)
    also have "\<dots> = word_of_int ((uint tm - x) div 3)" by (simp only: slot_quotient n)
    finally have w: "get_slot_at_time tm db = word_of_int ((uint tm - x) div 3)" .
    have "uint tm < 2 ^ 32" using uint_lt2p [of tm] by simp
    then have "0 \<le> (uint tm - x) div 3" "(uint tm - x) div 3 < 2 ^ 32" using False x by linarith+
    then show ?thesis using False by (simp only: w word_of_slot x_def if_False)
  qed
qed

section \<open>Participation\<close>

definition participation_ok :: "dynamic_global_property_object \<Rightarrow> bool" where
  "participation_ok p \<longleftrightarrow> unat (dgp_participation_count p) = popcount (dgp_recent_slots_filled p)"

lemma popcount_le: "popcount w \<le> 128"
  unfolding popcount_def using length_filter_le [of "bit w" "[0..<128]"] by simp

lemma bit_push_slot: "bit (push_bit 1 (w :: 128 word) + of_bool f) n \<longleftrightarrow> n < 128 \<and> (if n = 0 then f else bit w (n - 1))"
proof -
  have "push_bit 1 w AND of_bool f = 0" by (rule bit_word_eqI) (auto simp: bit_simps bit_0)
  then have eq: "push_bit 1 w + of_bool f = push_bit 1 w OR of_bool f" by (rule disjunctive_add_eq_or)
  show ?thesis unfolding eq bit_or_iff bit_push_bit_iff bit_of_bool_iff by (cases n) auto
qed

lemma count_upt_Suc: "length (filter P [0..<Suc m]) = of_bool (P 0) + length (filter (\<lambda>i. P (Suc i)) [0..<m])"
proof -
  have "[0..<Suc m] = 0 # map Suc [0..<m]" by (simp add: map_Suc_upt upt_conv_Cons del: upt_Suc)
  then show ?thesis by (simp add: filter_map comp_def)
qed

lemma popcount_push:
  "popcount (push_bit 1 w + of_bool f) + of_bool (bit w 127) = popcount w + of_bool f"
proof -
  have m: "popcount v = length (filter (bit v) [0..<Suc 127])" for v by (simp add: popcount_def)
  have "popcount (push_bit 1 w + of_bool f) = of_bool f + length (filter (\<lambda>i. bit (push_bit 1 w + of_bool f) (Suc i)) [0..<127])"
    unfolding m count_upt_Suc by (simp only: bit_push_slot) simp
  also have "filter (\<lambda>i. bit (push_bit 1 w + of_bool f) (Suc i)) [0..<127] = filter (bit w) [0..<127]"
    by (rule filter_cong [OF refl]) (simp only: bit_push_slot, simp)
  finally have a: "popcount (push_bit 1 w + of_bool f) = of_bool f + length (filter (bit w) [0..<127])" .
  have b: "popcount w = length (filter (bit w) [0..<127]) + of_bool (bit w 127)"
    unfolding m by (simp only: upt_Suc filter_append length_append) simp
  show ?thesis unfolding a b by simp
qed

lemma participation_record_slot: "participation_ok p \<Longrightarrow> participation_ok (record_slot f p)"
proof -
  assume ok: "participation_ok p"
  let ?w = "dgp_recent_slots_filled p" and ?c = "dgp_participation_count p"
  have le: "popcount (push_bit 1 ?w + of_bool f) \<le> 128" by (rule popcount_le)
  have "?c = word_of_nat (unat ?c)" by simp
  then have "?c = word_of_nat (popcount ?w)" using ok by (simp only: participation_ok_def)
  then have "?c - of_bool (bit ?w 127) + of_bool f = word_of_nat (popcount (push_bit 1 ?w + of_bool f))"
    using arg_cong [OF popcount_push [of ?w f], of "word_of_nat :: nat \<Rightarrow> 8 word"] by (simp add: algebra_simps)
  then show ?thesis using le by (simp add: participation_ok_def record_slot_def Let_def unat_of_nat)
qed

lemma participation_fold: "participation_ok p \<Longrightarrow> participation_ok (fold (\<lambda>i. record_slot (f i)) is p)"
  by (induction "is" arbitrary: p) (simp_all add: participation_record_slot)

lemma participation_update: "participation_ok (db_dgp db) \<Longrightarrow> participation_ok (update_dgp b n db)"
  using participation_fold [of "db_dgp db" "\<lambda>i. i = 0" "[0..<n + 1]"]
  by (simp add: update_dgp_def Let_def update_reserve_ratio_def participation_ok_def)

lemma miss_slot_dgp [simp]: "db_dgp (miss_slot name w db) = db_dgp db"
  by (simp add: miss_slot_def Let_def push_log_def)

lemma miss_slots_dgp: "miss_slots producer n i db = Inr db' \<Longrightarrow> db_dgp db' = db_dgp db"
proof (induction producer n i db rule: miss_slots.induct)
  case (2 producer n i db)
  then obtain name w where "miss_slots producer n (i + 1) (if wit_owner w \<noteq> producer then miss_slot name w db else db) = Inr db'"
    by auto
  from "2.IH" [OF this] show ?case by simp
qed simp

section \<open>Irreversible blocks\<close>

lemma scheduled_objects_Inr: "scheduled_objects ns db = Inr ws \<Longrightarrow> length ws = length ns"
  by (induction ns arbitrary: ws) auto

lemma irreversible_offset_less: "0 < n \<Longrightarrow> irreversible_offset n < n"
  by (simp add: irreversible_offset_def block_constants div_less_iff_less_mult)

lemma sorted_nth_count:
  assumes "sorted xs" "k < length xs"
  shows "length xs - k \<le> length (filter (\<lambda>x. xs ! k \<le> x) xs)"
proof -
  have "filter (\<lambda>x. xs ! k \<le> x) xs = filter (\<lambda>x. xs ! k \<le> x) (take k xs) @ filter (\<lambda>x. xs ! k \<le> x) (drop k xs)"
    by (metis append_take_drop_id filter_append)
  moreover have "filter (\<lambda>x. xs ! k \<le> x) (drop k xs) = drop k xs"
    using assms by (auto simp: filter_id_conv in_set_conv_nth intro!: sorted_nth_mono)
  ultimately show ?thesis by simp
qed

lemma length_filter_imp: "(\<And>x. P x \<Longrightarrow> Q x) \<Longrightarrow> length (filter P xs) \<le> length (filter Q xs)"
  by (induction xs) auto

lemma threshold_count:
  assumes "ws \<noteq> []"
  shows "length ws - irreversible_offset (length ws)
    \<le> length (filter (\<lambda>w. confirmed_by_threshold ws \<le> wit_last_confirmed_block_num w) ws)"
proof -
  let ?xs = "map wit_last_confirmed_block_num ws" and ?k = "irreversible_offset (length ws)"
  have "length (sort ?xs) - ?k \<le> length (filter (\<lambda>x. sort ?xs ! ?k \<le> x) (sort ?xs))"
    using assms irreversible_offset_less [of "length ws"] by (intro sorted_nth_count) simp_all
  also have "filter (\<lambda>x. sort ?xs ! ?k \<le> x) (sort ?xs) = sort (filter (\<lambda>x. sort ?xs ! ?k \<le> x) ?xs)"
    by (simp add: filter_sort)
  finally show ?thesis by (simp add: confirmed_by_threshold_def filter_map comp_def)
qed

text \<open>The walk down the main branch ends, at an item with the number asked for.\<close>

lemma walk_down_finds:
  assumes "fd_wf fd" "a < length (fd_heap fd)" "n \<le> fi_num (item fd a)"
  shows "\<exists>r. walk_down fd n (Some a) = Some r
    \<and> (\<forall>b. r = Some b \<longrightarrow> b < length (fd_heap fd) \<and> fi_num (item fd b) = n)"
  using assms(2,3)
proof (induction a rule: less_induct)
  case (less a)
  show ?case
  proof (cases "fi_num (item fd a) > n")
    case False
    then show ?thesis using less.prems by (subst walk_down.simps) auto
  next
    case True
    show ?thesis
    proof (cases "lock fd (fi_prev (item fd a))")
      case None
      then show ?thesis using True by (subst walk_down.simps) (simp add: walk_down.simps [of fd n None])
    next
      case (Some p)
      then have prev: "fi_prev (item fd a) = Some p" by (rule lock_Some)
      have p: "p < a" "p < length (fd_heap fd)" "fi_id (item fd p) = previous_id (item fd a)"
        using wf_prev [OF assms(1) less.prems(1) prev] by auto
      have "wf_item fd a" "wf_item fd p" using assms(1) less.prems(1) p(2) by (auto simp: fd_wf_def)
      then have "fi_num (item fd a) = fi_num (item fd p) + 1" using p(3)
        by (simp add: wf_item_def block_id_def block_num_def num_from_id_def previous_id_def)
      then have "n < fi_num (item fd p) + 1" using True by simp
      then have "n \<le> fi_num (item fd p)" by unat_arith
      from less.IH [OF p(1,2) this] show ?thesis using True Some by (subst walk_down.simps) simp
    qed
  qed
qed

lemma fetch_main_item:
  assumes "fd_wf fd" "fetch_block_on_main_branch_by_number n fd = Some (Some a)"
  shows "a < length (fd_heap fd)" "block_num (fi_data (item fd a)) = n"
proof -
  have mem: "b < length (fd_heap fd) \<and> fi_num (item fd b) = n" if "b \<in> set (fetch_block_by_number n fd)" for b
    using that assms(1) by (auto simp: fetch_block_by_number_def fd_wf_def)
  have "a < length (fd_heap fd) \<and> fi_num (item fd a) = n"
  proof (cases "length (fetch_block_by_number n fd) \<le> 1")
    case True
    then have "a \<in> set (fetch_block_by_number n fd)" using assms(2)
      by (cases "fetch_block_by_number n fd") (auto simp: fetch_block_on_main_branch_by_number_def)
    then show ?thesis by (rule mem)
  next
    case False
    then obtain h where h: "fd_head fd = Some h" "walk_down fd n (Some h) = Some (Some a)" "n \<le> fi_num (item fd h)"
      using assms(2) by (auto simp: fetch_block_on_main_branch_by_number_def Let_def walk_main_branch_to_num_def
          split: option.splits if_splits)
    then show ?thesis using walk_down_finds [OF assms(1) _ h(3)] assms(1) by (auto simp: fd_wf_def)
  qed
  then show "a < length (fd_heap fd)" "block_num (fi_data (item fd a)) = n"
    using assms(1) by (auto simp: fd_wf_def wf_item_def)
qed

section \<open>The block log receives the irreversible blocks\<close>

definition from_fork :: "fork_database \<Rightarrow> signed_block list \<Rightarrow> bool" where
  "from_fork fd bs \<longleftrightarrow> (\<forall>b \<in> set bs. \<exists>a < length (fd_heap fd). fi_data (item fd a) = b)"

lemma encodes_head_num:
  assumes "encodes C bs l" "numbered bs"
  shows "log_head_num l = length bs"
proof (cases "bs = []")
  case False
  then obtain cs b where "bs = cs @ [b]" by (metis rev_exhaust)
  then show ?thesis using assms by (simp add: log_head_num_def encodes_def numbered_snoc)
qed (use assms in \<open>simp add: log_head_num_def encodes_def\<close>)

lemma log_irreversible_encodes:
  assumes "log_irreversible C fd lib (length bs) l = Inr l'" "encodes C bs l" "numbered bs" "fd_wf fd"
    and "\<And>b. cdc_pack C b \<noteq> []"
  shows "\<exists>cs. encodes C (bs @ cs) l' \<and> numbered (bs @ cs) \<and> length (bs @ cs) = max (length bs) (unat lib) \<and> from_fork fd cs"
  using assms(1-3)
proof (induction "unat lib - length bs" arbitrary: bs l)
  case 0
  then have "l' = l" using 0(2) [unfolded log_irreversible.simps [of C fd lib "length bs" l]] by simp
  then show ?case using 0 by (intro exI [of _ "[]"]) (simp add: from_fork_def)
next
  case (Suc k)
  then have less: "length bs < unat lib" by simp
  obtain a pos l1 where f: "fetch_block_on_main_branch_by_number (word_of_nat (length bs + 1)) fd = Some (Some a)"
    and ap: "append_log C (fi_data (item fd a)) l = Inr (pos, l1)"
    and rest: "log_irreversible C fd lib (length bs + 1) l1 = Inr l'"
    using Suc.prems(1) [unfolded log_irreversible.simps [of C fd lib "length bs" l]] less by (auto split: option.splits)
  let ?b = "fi_data (item fd a)"
  have a: "a < length (fd_heap fd)" "block_num ?b = word_of_nat (length bs + 1)" using fetch_main_item [OF assms(4) f] by auto
  have "length bs + 1 < 2 ^ 32" using less unsigned_less [of lib, where ?'a = nat] by simp
  then have num: "unat (block_num ?b) = Suc (length bs)" unfolding a(2) by (subst unat_of_nat) simp
  then have "numbered (bs @ [?b])" using Suc.prems(3) by (simp add: numbered_snoc)
  moreover have "encodes C (bs @ [?b]) l1" using ap append_encodes [OF Suc.prems(2) assms(5)]
    by (auto simp: encodes_def split: if_splits)
  moreover have "k = unat lib - length (bs @ [?b])" using Suc.hyps(2) by simp
  ultimately obtain cs where cs: "encodes C ((bs @ [?b]) @ cs) l'" "numbered ((bs @ [?b]) @ cs)"
      "length ((bs @ [?b]) @ cs) = max (length (bs @ [?b])) (unat lib)" "from_fork fd cs"
    using Suc.hyps(1) [of "bs @ [?b]" l1] rest by auto
  then show ?case using less a(1) by (intro exI [of _ "?b # cs"]) (auto simp: from_fork_def)
qed

section \<open>Properties\<close>

text \<open>
  Slots and times are inverse while no 32-bit time wraps: a time inside slot \<open>s\<close> is found in slot
  \<open>s\<close>, every time before the first slot is in slot 0, and the start of slot \<open>s\<close> is three seconds per
  slot after the head block's slot.
\<close>

theorem slot_time_inverse:
  assumes "0 \<le> head_block_time db" "slot_base db + 3 * uint s < 2 ^ 32" "s \<noteq> 0"
  shows "uint (get_slot_time s db) = slot_base db + 3 * uint s
    \<and> (\<forall>tm. get_slot_at_time tm db = s \<longleftrightarrow>
        uint (get_slot_time s db) \<le> uint tm \<and> uint tm < uint (get_slot_time s db) + 3)
    \<and> (\<forall>tm. get_slot_at_time tm db = 0 \<longleftrightarrow> uint tm < slot_base db + 3)"
proof (intro conjI allI)
  have s: "1 \<le> uint s" using assms(3) by (metis uint_0_iff uint_ge_0 int_one_le_iff_zero_less less_le)
  show t: "uint (get_slot_time s db) = slot_base db + 3 * uint s" by (rule uint_slot_time [OF assms(3,1,2)])
  fix tm
  have w: "uint (get_slot_at_time tm db)
      = (if uint tm < slot_base db + 3 then 0 else (uint tm - slot_base db) div 3)"
    by (rule slot_at_time) (use assms s in simp_all)
  show "get_slot_at_time tm db = s \<longleftrightarrow>
        uint (get_slot_time s db) \<le> uint tm \<and> uint tm < uint (get_slot_time s db) + 3"
    unfolding t word_uint_eq_iff [of _ s] w using s by auto
  show "get_slot_at_time tm db = 0 \<longleftrightarrow> uint tm < slot_base db + 3"
    unfolding word_uint_eq_iff [of _ 0] w using assms(1) by (auto simp: pos_imp_zdiv_pos_iff)
qed

text \<open>
  C26. With no check skipped, an accepted header extends the head block, is later than it, is signed
  with the key of its witness, and names the witness that is scheduled for the slot that contains
  its time stamp, outside the range of blocks that the source exempts from the schedule.
\<close>

theorem validate_block_header_scheduled:
  assumes "validate_block_header 0 b db = Inr w" "t_all (\<lambda>k w. wit_owner w = k) (db_witnesses db)"
    and "0 \<le> head_block_time db" "slot_base db + 3 < 2 ^ 32"
  shows "blk_previous b = dgp_head_block_id (db_dgp db) \<and> head_block_time db < uint (blk_timestamp b)
    \<and> wit_owner w = blk_witness b \<and> blk_signee b = wit_signing_key w
    \<and> (\<exists>s. s \<noteq> 0 \<and> slot_base db + 3 * uint s \<le> uint (blk_timestamp b)
        \<and> uint (blk_timestamp b) < slot_base db + 3 * uint s + 3
        \<and> (uint (block_num b) \<notin> {65693821..65893852} \<longrightarrow> get_scheduled_witness s db = Inr (blk_witness b)))"
proof -
  let ?s = "get_slot_at_time (blk_timestamp b) db"
  have v: "dgp_head_block_id (db_dgp db) = blk_previous b" "head_block_time db < uint (blk_timestamp b)"
    "t_get (blk_witness b) (db_witnesses db) = Some w" "blk_signee b = wit_signing_key w" "?s > 0"
    "block_num b < 65693821 \<or> block_num b > 65893852 \<Longrightarrow> get_scheduled_witness ?s db = Inr (wit_owner w)"
    using assms(1) by (auto simp: validate_block_header_def skips_def Let_def split: if_splits)
  have owner: "wit_owner w = blk_witness b" using t_all_get [OF assms(2) v(3)] .
  have n: "?s \<noteq> 0" using v(5) by auto
  then have "uint ?s \<noteq> 0" by (simp add: uint_0_iff)
  then have "uint ?s = (uint (blk_timestamp b) - slot_base db) div 3"
    using slot_at_time [OF assms(3,4), of "blk_timestamp b"] by (auto split: if_splits)
  then have "slot_base db + 3 * uint ?s \<le> uint (blk_timestamp b)" "uint (blk_timestamp b) < slot_base db + 3 * uint ?s + 3"
    by presburger+
  moreover have "uint (block_num b) \<notin> {65693821..65893852} \<Longrightarrow> block_num b < 65693821 \<or> block_num b > 65893852"
    by (auto simp: word_less_def)
  ultimately show ?thesis using v owner n by (intro conjI exI [of _ ?s]) auto
qed

text \<open>
  C29. \<open>update_global_dynamic_data\<close> makes the block the head and keeps the participation counter equal
  to the number of filled slots among the last 128, so the participation rate is their exact share
  and never more than 100 percent; skipped blocks aside, the head is within the undo history.
\<close>

theorem update_global_dynamic_data_participation:
  assumes "update_global_dynamic_data b skip db = Inr db'" "participation_ok (db_dgp db)"
  shows "dgp_head_block_id (db_dgp db') = block_id b \<and> head_block_num db' = unat (block_num b)
    \<and> head_block_time db' = uint (blk_timestamp b)
    \<and> participation_ok (db_dgp db')
    \<and> unat (witness_participation_rate db') = 10000 * unat (dgp_participation_count (db_dgp db')) div 128
    \<and> unat (witness_participation_rate db') \<le> 10000"
proof -
  obtain n db1 where d: "db_dgp db1 = db_dgp db" "db' = db1\<lparr>db_dgp := update_dgp b n db1\<rparr>"
    using assms(1) by (auto simp: update_global_dynamic_data_def Let_def split: if_splits dest: miss_slots_dgp)
  have ok: "participation_ok (db_dgp db')" using participation_update [of db1] assms(2) d by simp
  have "10000 * popcount (dgp_recent_slots_filled (db_dgp db')) div 128 \<le> 10000"
    using popcount_le [of "dgp_recent_slots_filled (db_dgp db')"] by simp
  then have "unat (witness_participation_rate db') = 10000 * popcount (dgp_recent_slots_filled (db_dgp db')) div 128"
      "10000 * popcount (dgp_recent_slots_filled (db_dgp db')) div 128 \<le> 10000"
    by (simp_all add: witness_participation_rate_def STEEMIT_100_PERCENT_def unat_of_nat)
  with ok show ?thesis
    by (auto simp: d update_dgp_def update_reserve_ratio_def Let_def participation_ok_def)
qed

text \<open>
  C27. Once voting has taken over, the last irreversible block never moves back, and it moves forward
  only to a block that all but a quarter of the scheduled witnesses have confirmed.
\<close>

theorem irreversible_confirmed:
  assumes "new_irreversible db = Inr lib" "STEEMIT_START_MINER_VOTING_BLOCK \<le> head_block_num db"
  shows "dgp_last_irreversible_block_num (db_dgp db) \<le> lib
    \<and> (lib \<noteq> dgp_last_irreversible_block_num (db_dgp db) \<longrightarrow>
      (\<exists>ws. scheduled_objects (take (unat (wso_num_scheduled_witnesses (db_schedule db)))
            (wso_current_shuffled_witnesses (db_schedule db))) db = Inr ws
        \<and> length ws = unat (wso_num_scheduled_witnesses (db_schedule db))
        \<and> 3 * length ws \<le> 4 * length (filter (\<lambda>w. unat lib \<le> unat (wit_last_confirmed_block_num w)) ws)))"
proof -
  let ?n = "unat (wso_num_scheduled_witnesses (db_schedule db))" and ?old = "dgp_last_irreversible_block_num (db_dgp db)"
  obtain ws where n: "0 < ?n" "?n \<le> length (wso_current_shuffled_witnesses (db_schedule db))"
    and ws: "scheduled_objects (take ?n (wso_current_shuffled_witnesses (db_schedule db))) db = Inr ws"
    and lib: "lib = (if ?old < ucast (confirmed_by_threshold ws) then
            (if is_transit_enabled db \<and> dgp_transit_block_num (db_dgp db) > ?old
                \<and> dgp_transit_block_num (db_dgp db) \<le> ucast (confirmed_by_threshold ws)
             then dgp_transit_block_num (db_dgp db) else ucast (confirmed_by_threshold ws)) else ?old)"
    using assms by (auto simp: new_irreversible_def Let_def)
  have len: "length ws = ?n" using scheduled_objects_Inr [OF ws] n by simp
  then have "ws \<noteq> []" using n(1) by auto
  have mono: "?old \<le> lib" by (auto simp: lib)
  have "\<exists>ws. scheduled_objects (take ?n (wso_current_shuffled_witnesses (db_schedule db))) db = Inr ws \<and> length ws = ?n
      \<and> 3 * length ws \<le> 4 * length (filter (\<lambda>w. unat lib \<le> unat (wit_last_confirmed_block_num w)) ws)" if new: "lib \<noteq> ?old"
  proof -
    have "lib \<le> ucast (confirmed_by_threshold ws)" using new by (auto simp: lib)
    then have "unat lib \<le> unat (ucast (confirmed_by_threshold ws) :: 32 word)" by (simp add: word_le_nat_alt)
    also have "\<dots> \<le> unat (confirmed_by_threshold ws)" by (simp add: unsigned_ucast_eq take_bit_eq_mod)
    finally have "unat lib \<le> unat (confirmed_by_threshold ws)" .
    then have "length (filter (\<lambda>w. confirmed_by_threshold ws \<le> wit_last_confirmed_block_num w) ws)
        \<le> length (filter (\<lambda>w. unat lib \<le> unat (wit_last_confirmed_block_num w)) ws)"
      by (intro length_filter_imp) (auto simp: word_le_nat_alt)
    moreover have "irreversible_offset (length ws) = length ws div 4"
      by (simp add: irreversible_offset_def block_constants)
    ultimately have "length ws - length ws div 4 \<le> length (filter (\<lambda>w. unat lib \<le> unat (wit_last_confirmed_block_num w)) ws)"
      using threshold_count [OF \<open>ws \<noteq> []\<close>] by simp
    then show ?thesis using ws len by (intro exI [of _ ws]) simp
  qed
  with mono show ?thesis by blast
qed

text \<open>
  C28. The block log follows the irreversible block: if the log encodes the first blocks of the chain,
  a successful \<open>update_last_irreversible_block\<close> extends it, without a gap, to exactly the new last
  irreversible block, by blocks of the fork database.
\<close>

theorem irreversible_blocks_logged:
  assumes "update_last_irreversible_block C 0 nd = Inr nd'" "encodes C bs (nd_log nd)" "numbered bs"
    and "fd_wf (nd_fork nd)" "\<forall>b. cdc_pack C b \<noteq> []"
  shows "\<exists>cs. encodes C (bs @ cs) (nd_log nd') \<and> numbered (bs @ cs) \<and> from_fork (nd_fork nd) cs
    \<and> length (bs @ cs) = max (length bs) (unat (dgp_last_irreversible_block_num (db_dgp (nd_db nd'))))
    \<and> nd_commits nd' = nd_commits nd @ [dgp_last_irreversible_block_num (db_dgp (nd_db nd'))]"
proof -
  obtain lib l where "log_irreversible C (nd_fork nd) lib (log_head_num (nd_log nd)) (nd_log nd) = Inr l"
    and nd': "nd_log nd' = l" "dgp_last_irreversible_block_num (db_dgp (nd_db nd')) = lib" "nd_commits nd' = nd_commits nd @ [lib]"
    using assms(1) by (auto simp: update_last_irreversible_block_def Let_def skips_def)
  then show ?thesis
    using log_irreversible_encodes [OF _ assms(2,3,4)] assms(5) encodes_head_num [OF assms(2,3)] by fastforce
qed

section \<open>A concrete chain\<close>

definition demo_producer :: "account_name \<Rightarrow> 64 word \<Rightarrow> witness_object" where
  "demo_producer n confirmed = \<lparr>wit_owner = n, wit_votes = 0, wit_virtual_last_update = 0, wit_virtual_position = 0,
     wit_virtual_scheduled_time = - 1, wit_sbd_exchange_rate = mk_price (mk_asset 1 SBD_SYMBOL) (mk_asset 1 STEEM_SYMBOL),
     wit_last_sbd_exchange_update = 0, wit_created = 0, wit_url = [], wit_signing_key = n @ ''-key'',
     wit_props = new_chain_properties, wit_transit_to_cyberway_vote = 0, wit_total_missed = 0, wit_last_aslot = 0,
     wit_last_confirmed_block_num = confirmed, wit_pow_worker = 0, wit_schedule = Top19, wit_running_version = 0x1E0000,
     wit_hardfork_version_vote = 0, wit_hardfork_time_vote = 0\<rparr>"

definition demo_chain :: database where
  "demo_chain = demo_db\<lparr>db_witnesses := [(''alice'', demo_producer ''alice'' 1000), (''bob'', demo_producer ''bob'' 990)]\<rparr>"

definition demo_next :: signed_block where
  "demo_next = \<lparr>blk_previous = null_block_id\<lparr>bid_num := 1000\<rparr>, blk_digest = 5, blk_timestamp = 1000003,
     blk_witness = ''bob'', blk_signee = ''bob-key'', blk_transactions = [], blk_merkle_root = 0, blk_pack_size = 200,
     blk_extensions = []\<rparr>"

lemmas chain_eval = demo_chain_def demo_producer_def demo_next_def demo_defs

lemma demo_chain_base: "slot_base demo_chain = 999999" "head_block_time demo_chain = 1000000" "head_block_num demo_chain = 1000"
  by (simp_all add: slot_base_def chain_eval)

lemma demo_slots: "get_slot_time 1 demo_chain = 1000002" "get_slot_at_time 1000003 demo_chain = 1"
  "get_scheduled_witness 1 demo_chain = Inr ''bob''"
  by (simp_all add: get_slot_time_def get_slot_at_time_def get_scheduled_witness_def STEEMIT_BLOCK_INTERVAL_def Let_def chain_eval)

theorem slot_time_inverse_witness:
  "get_slot_at_time 1000007 demo_chain = 2 \<and> uint (get_slot_time 2 demo_chain) = 1000005"
  using slot_time_inverse [of demo_chain 2] by (simp add: demo_chain_base)

lemma demo_header: "validate_block_header 0 demo_next demo_chain = Inr (demo_producer ''bob'' 990)"
proof -
  have "t_get ''bob'' (db_witnesses demo_chain) = Some (demo_producer ''bob'' 990)"
    by (simp add: demo_chain_def t_get_def)
  moreover have "block_num demo_next < 65693821" by (simp add: demo_next_def block_num_def num_from_id_def)
  ultimately show ?thesis
    by (simp add: validate_block_header_def demo_next_def demo_slots get_witness_def demo_producer_def)
      (simp add: demo_chain_def demo_db_def demo_dgp_def)
qed

theorem validate_block_header_scheduled_witness:
  "\<exists>w s. validate_block_header 0 demo_next demo_chain = Inr w \<and> wit_owner w = ''bob'' \<and> s \<noteq> 0
    \<and> get_scheduled_witness s demo_chain = Inr ''bob''"
proof -
  have "t_all (\<lambda>k w. wit_owner w = k) (db_witnesses demo_chain)" by (simp add: t_all_def demo_chain_def demo_producer_def)
  moreover have "uint (block_num demo_next) \<notin> {65693821..65893852}" "blk_witness demo_next = ''bob''"
    by (simp_all add: demo_next_def block_num_def num_from_id_def)
  ultimately show ?thesis
    using validate_block_header_scheduled [OF demo_header] demo_header by (auto simp: demo_chain_base)
qed

theorem update_global_dynamic_data_participation_witness:
  "\<exists>db'. update_global_dynamic_data demo_next 0 demo_chain = Inr db' \<and> head_block_num db' = 1001
    \<and> participation_ok (db_dgp db') \<and> unat (witness_participation_rate db') \<le> 10000"
proof -
  have "popcount 0 = 0" by (simp add: popcount_def)
  then have "popcount 3 = 2" using popcount_push [of 0 True] popcount_push [of 1 True] by simp
  then have ok: "participation_ok (db_dgp demo_chain)" by (simp add: participation_ok_def chain_eval)
  have dgp: "dgp_last_irreversible_block_num (update_dgp demo_next 0 demo_chain) = 980"
      "dgp_head_block_number (update_dgp demo_next 0 demo_chain) = 1001"
    by (simp_all add: update_dgp_def Let_def update_reserve_ratio_def record_slot_def chain_eval block_num_def num_from_id_def)
  have "head_block_time demo_chain \<noteq> 0" "blk_timestamp demo_next = 1000003"
    by (simp_all add: demo_chain_base) (simp add: demo_next_def)
  then obtain db' where "update_global_dynamic_data demo_next 0 demo_chain = Inr db'"
    by (simp add: update_global_dynamic_data_def demo_slots Let_def skips_def dgp STEEMIT_MAX_UNDO_HISTORY_def)
  moreover have "unat (block_num demo_next) = 1001" by (simp add: demo_next_def block_num_def num_from_id_def)
  ultimately show ?thesis using update_global_dynamic_data_participation [OF _ ok] by fastforce
qed

lemma demo_irreversible: "new_irreversible demo_chain = Inr 990"
  by (simp add: new_irreversible_def Let_def STEEMIT_START_MINER_VOTING_BLOCK_def confirmed_by_threshold_def
      irreversible_offset_def block_constants get_witness_def t_get_def is_transit_enabled_def chain_eval)

theorem irreversible_confirmed_witness:
  "\<exists>lib. new_irreversible demo_chain = Inr lib \<and> dgp_last_irreversible_block_num (db_dgp demo_chain) < lib
    \<and> (\<exists>ws :: witness_object list. length ws = 2 \<and> 6 \<le> 4 * length (filter (\<lambda>w. unat lib \<le> unat (wit_last_confirmed_block_num w)) ws))"
proof -
  have "STEEMIT_START_MINER_VOTING_BLOCK \<le> head_block_num demo_chain"
    by (simp add: demo_chain_base STEEMIT_START_MINER_VOTING_BLOCK_def)
  moreover have "dgp_last_irreversible_block_num (db_dgp demo_chain) = 980"
      "unat (wso_num_scheduled_witnesses (db_schedule demo_chain)) = 2" by (simp_all add: chain_eval)
  ultimately obtain ws :: "witness_object list" where "length ws = 2" "6 \<le> 4 * length (filter (\<lambda>w. unat (990 :: 32 word) \<le> unat (wit_last_confirmed_block_num w)) ws)"
      "dgp_last_irreversible_block_num (db_dgp demo_chain) < 990"
    using irreversible_confirmed [OF demo_irreversible] by auto
  then show ?thesis using demo_irreversible by blast
qed

definition demo_node :: "block_log \<Rightarrow> node_state" where
  "demo_node l = \<lparr>nd_db = demo_chain\<lparr>db_dgp := demo_dgp\<lparr>dgp_head_block_number := 23, dgp_last_irreversible_block_num := 1\<rparr>\<rparr>,
     nd_fork = start_block (demo_log_block 1) new_fork_database, nd_log = l, nd_summaries = [], nd_commits = []\<rparr>"

theorem irreversible_blocks_logged_witness:
  "\<exists>l nd' cs. encodes demo_codec [demo_log_block 0] l \<and> update_last_irreversible_block demo_codec 0 (demo_node l) = Inr nd'
    \<and> encodes demo_codec (demo_log_block 0 # cs) (nd_log nd') \<and> length cs = 1"
proof -
  define l where "l = \<lparr>bl_head = Some (demo_log_block 0), bl_head_id = block_id (demo_log_block 0),
    bl_blocks = blocks_from demo_codec 0 [demo_log_block 0], bl_index = index_of demo_codec [demo_log_block 0]\<rparr>"
  define fd where "fd = start_block (demo_log_block 1) new_fork_database"
  have l: "encodes demo_codec [demo_log_block 0] l" by (simp add: encodes_def l_def)
  have ne: "cdc_pack demo_codec b \<noteq> []" for b by (simp add: demo_codec_def)
  have num: "numbered [demo_log_block 0]" "unat (block_num (demo_log_block (Suc 0)) - 1) = Suc 0"
    by (simp_all add: numbered_def demo_log_block_def block_num_def num_from_id_def)
  have item: "fetch_block_on_main_branch_by_number 2 fd = Some (Some 0)" "fi_data (item fd 0) = demo_log_block 1"
    by (simp_all add: fd_def fetch_block_on_main_branch_by_number_def fetch_block_by_number_def start_block_def alloc_def
        mk_fork_item_def index_insert_def find_id_def new_fork_database_def item_def demo_log_block_def block_num_def num_from_id_def)
  have "append_log demo_codec (demo_log_block 1) l = Inr (length (blocks_from demo_codec 0 [demo_log_block 0]),
      \<lparr>bl_head = Some (demo_log_block 1), bl_head_id = block_id (demo_log_block 1),
       bl_blocks = blocks_from demo_codec 0 ([demo_log_block 0] @ [demo_log_block 1]),
       bl_index = index_of demo_codec ([demo_log_block 0] @ [demo_log_block 1])\<rparr>)"
    by (subst append_encodes [OF l ne]) (simp add: num)
  then obtain pos l1 where ap: "append_log demo_codec (demo_log_block 1) l = Inr (pos, l1)" by blast
  have "log_irreversible demo_codec fd 2 (Suc 0) l = Inr l1"
    by (simp add: log_irreversible.simps [of demo_codec fd 2 "Suc 0"] log_irreversible.simps [of demo_codec fd 2 "Suc (Suc 0)"] item ap [simplified])
  moreover have "log_head_num l = Suc 0" using encodes_head_num [OF l num(1)] by simp
  moreover have "new_irreversible (nd_db (demo_node l)) = Inr 2"
    by (simp add: new_irreversible_def Let_def demo_node_def block_constants)
  ultimately have up: "\<exists>nd'. update_last_irreversible_block demo_codec 0 (demo_node l) = Inr nd'
      \<and> dgp_last_irreversible_block_num (db_dgp (nd_db nd')) = 2"
    by (simp add: update_last_irreversible_block_def Let_def skips_def) (simp add: demo_node_def fd_def)
  then obtain nd' where nd': "update_last_irreversible_block demo_codec 0 (demo_node l) = Inr nd'"
      "dgp_last_irreversible_block_num (db_dgp (nd_db nd')) = 2" by blast
  have "fd_wf (nd_fork (demo_node l))" "encodes demo_codec [demo_log_block 0] (nd_log (demo_node l))"
    using l wf_start [of new_fork_database "demo_log_block 1"]
    by (simp_all add: demo_node_def fd_wf_def new_fork_database_def)
  then obtain cs where "encodes demo_codec ([demo_log_block 0] @ cs) (nd_log nd')"
      "length ([demo_log_block 0] @ cs) = max (length [demo_log_block 0]) (unat (2 :: 32 word))"
    using irreversible_blocks_logged [OF nd'(1) _ num(1)] ne nd'(2) by auto
  then show ?thesis using l nd'(1) by (intro exI [of _ l] exI [of _ nd'] exI [of _ cs]) simp
qed

end
