(* ===== verification/Authority.thy ===== *)
theory Authority
  imports Chain_State
begin

text \<open>
  Account names and authorities: \<^verbatim>\<open>libraries/protocol/authority.cpp\<close>. The name check is the source's
  loop over positions in the string; it is shown equal to the label grammar that
  \<^verbatim>\<open>authority.hpp\<close> documents. An authority is a threshold with weighted accounts and keys,
  kept as association lists with unique keys in place of \<open>flat_map\<close>.
\<close>

section \<open>Account names\<close>

text \<open>\<open>std::string::find_first_of\<close> with a start position.\<close>

definition find_from :: "char \<Rightarrow> string \<Rightarrow> nat \<Rightarrow> nat option" where
  "find_from c s b = map_option (\<lambda>i. b + i) (str_find c (drop b s))"

lemma str_find_length: "str_find c s = Some i \<Longrightarrow> i < length s"
  by (induction s arbitrary: i) (auto split: if_splits)

definition is_letter :: "char \<Rightarrow> bool" where
  "is_letter x \<longleftrightarrow> 97 \<le> (of_char x :: nat) \<and> (of_char x :: nat) \<le> 122"

definition is_digit :: "char \<Rightarrow> bool" where
  "is_digit x \<longleftrightarrow> 48 \<le> (of_char x :: nat) \<and> (of_char x :: nat) \<le> 57"

definition label_end :: "string \<Rightarrow> nat \<Rightarrow> nat" where
  "label_end name begin = (case find_from (CHR ''.'') name begin of None \<Rightarrow> length name | Some e \<Rightarrow> e)"

lemma label_end_bounds: "b \<le> length name \<Longrightarrow> b \<le> label_end name b \<and> label_end name b \<le> length name"
  by (auto simp: label_end_def find_from_def split: option.splits dest!: str_find_length)

function account_name_loop :: "string \<Rightarrow> nat \<Rightarrow> bool" where
  "account_name_loop name begin =
    (let len = length name; end' = label_end name begin in
     if end' - begin < 3 then False
     else if \<not> is_letter (name ! begin) then False
     else if \<not> is_letter (name ! (end' - 1)) \<and> \<not> is_digit (name ! (end' - 1)) then False
     else if \<exists>i \<in> set [begin + 1..<end' - 1]. \<not> (is_letter (name ! i) \<or> is_digit (name ! i) \<or> name ! i = CHR ''-'') then False
     else if end' = len then True
     else account_name_loop name (end' + 1))"
  by pat_completeness auto
termination
proof (relation "measure (\<lambda>(name, b). Suc (length name) - b)")
  fix name :: string and bg len end' :: nat
  assume "len = length name" "end' = label_end name bg" "\<not> end' - bg < 3" "end' \<noteq> len"
  moreover from this have "bg < length name"
    by (cases "bg < length name") (auto simp: label_end_def find_from_def)
  ultimately show "((name, end' + 1), name, bg) \<in> measure (\<lambda>(name, b). Suc (length name) - b)"
    using label_end_bounds [of bg name] by (simp, linarith)
qed simp

declare account_name_loop.simps [simp del]

definition is_valid_account_name :: "string \<Rightarrow> bool" where
  "is_valid_account_name name =
    (if length name < 3 then False else if length name > 16 then False else account_name_loop name 0)"

definition valid_label :: "string \<Rightarrow> bool" where
  "valid_label l \<longleftrightarrow> 3 \<le> length l \<and> is_letter (hd l) \<and> (is_letter (last l) \<or> is_digit (last l))
     \<and> (\<forall>c \<in> set l. is_letter c \<or> is_digit c \<or> c = CHR ''-'')"

lemma str_find_split:
  "str_find c s = Some i \<Longrightarrow> s = take i s @ c # drop (Suc i) s \<and> c \<notin> set (take i s)"
  by (induction s arbitrary: i) (auto split: if_splits)

lemma str_find_None_iff: "str_find c s = None \<longleftrightarrow> c \<notin> set s"
  by (induction s) auto

lemma label_cases:
  assumes "b \<le> length name"
  shows "split_on (CHR ''.'') (drop b name) = take (label_end name b - b) (drop b name)
      # (if label_end name b = length name then [] else split_on (CHR ''.'') (drop (Suc (label_end name b)) name))"
proof (cases "str_find (CHR ''.'') (drop b name)")
  case None
  then have "CHR ''.'' \<notin> set (drop b name)" "label_end name b = length name"
    by (simp_all only: label_end_def find_from_def None str_find_None_iff [symmetric]) simp_all
  then show ?thesis by (simp add: split_on_absent)
next
  case (Some i)
  have sp: "drop b name = take i (drop b name) @ CHR ''.'' # drop (Suc i) (drop b name)"
    "CHR ''.'' \<notin> set (take i (drop b name))" using str_find_split [OF Some] by auto
  have "i < length (drop b name)" using str_find_length [OF Some] .
  then have le: "label_end name b = b + i" "b + i \<noteq> length name" using Some by (auto simp: label_end_def find_from_def)
  have "split_on (CHR ''.'') (drop b name) = take i (drop b name) # split_on (CHR ''.'') (drop (Suc i) (drop b name))"
    by (subst sp(1)) (rule split_on_found [OF sp(2)])
  with le show ?thesis by (simp add: add.commute)
qed

lemma mem_interior:
  assumes "3 \<le> length l"
  shows "(\<forall>c \<in> set l. P c) \<longleftrightarrow> P (hd l) \<and> P (last l) \<and> (\<forall>i \<in> {1..<length l - 1}. P (l ! i))"
proof -
  have "(\<forall>i < length l. P (l ! i)) \<longleftrightarrow> P (l ! 0) \<and> P (l ! (length l - 1)) \<and> (\<forall>i \<in> {1..<length l - 1}. P (l ! i))"
  proof (intro iffI allI impI)
    fix i assume A: "P (l ! 0) \<and> P (l ! (length l - 1)) \<and> (\<forall>i \<in> {1..<length l - 1}. P (l ! i))" "i < length l"
    then have "i = 0 \<or> i = length l - 1 \<or> i \<in> {1..<length l - 1}" by auto
    with A show "P (l ! i)" by auto
  next
    assume A: "\<forall>i < length l. P (l ! i)"
    have "0 < length l" "length l - 1 < length l" using assms by linarith+
    with A show "P (l ! 0) \<and> P (l ! (length l - 1)) \<and> (\<forall>i \<in> {1..<length l - 1}. P (l ! i))" by auto
  qed
  moreover have "l \<noteq> []" using assms by auto
  ultimately show ?thesis by (simp add: all_set_conv_all_nth hd_conv_nth last_conv_nth)
qed


lemma account_name_loop_labels:
  "b \<le> length name \<Longrightarrow> account_name_loop name b \<longleftrightarrow> (\<forall>l \<in> set (split_on (CHR ''.'') (drop b name)). valid_label l)"
proof (induction name b rule: account_name_loop.induct)
  case (1 name b)
  let ?e = "label_end name b" let ?l = "take (?e - b) (drop b name)"
  have e: "b \<le> ?e" "?e \<le> length name" using label_end_bounds [OF 1(2)] by auto
  have len: "length ?l = ?e - b" using e by simp
  have vl: "valid_label ?l \<longleftrightarrow> \<not> ?e - b < 3 \<and> is_letter (name ! b) \<and> (is_letter (name ! (?e - 1)) \<or> is_digit (name ! (?e - 1)))
     \<and> (\<forall>i \<in> set [b + 1..<?e - 1]. is_letter (name ! i) \<or> is_digit (name ! i) \<or> name ! i = CHR ''-'')"
    (is "_ = ?code")
  proof (cases "?e - b < 3")
    case True
    then show ?thesis by (simp add: valid_label_def len)
  next
    case False
    then have l3: "3 \<le> length ?l" by (simp only: len)
    then have ne: "?l \<noteq> []" by auto
    have hd: "hd ?l = name ! b" "last ?l = name ! (?e - 1)"
      using ne len e False by (simp_all add: hd_conv_nth last_conv_nth)
    have I: "(\<forall>i \<in> {1..<length ?l - 1}. P (?l ! i)) \<longleftrightarrow> (\<forall>i \<in> {b + 1..<?e - 1}. P (name ! i))" for P
    proof (intro iffI ballI)
      fix i assume A: "\<forall>i \<in> {1..<length ?l - 1}. P (?l ! i)" "i \<in> {b + 1..<?e - 1}"
      then have "i - b \<in> {1..<length ?l - 1}" using len by auto
      with A(1) have P: "P (?l ! (i - b))" by blast
      have "i - b < ?e - b" "b + (i - b) = i" using A(2) by auto
      then have "?l ! (i - b) = name ! i" using e by (simp only: nth_take) (simp add: nth_drop)
      with P show "P (name ! i)" by simp
    next
      fix i assume A: "\<forall>i \<in> {b + 1..<?e - 1}. P (name ! i)" "i \<in> {1..<length ?l - 1}"
      then have "i + b \<in> {b + 1..<?e - 1}" using len by auto
      with A(1) have P: "P (name ! (i + b))" by blast
      have "i < ?e - b" using A(2) len by auto
      then have "?l ! i = name ! (i + b)" using e by (simp only: nth_take) (simp add: nth_drop add.commute)
      with P show "P (?l ! i)" by simp
    qed
    define ok where "ok = (\<lambda>c. is_letter c \<or> is_digit c \<or> c = CHR ''-'')"
    have "(\<forall>c \<in> set ?l. ok c) \<longleftrightarrow> ok (name ! b) \<and> ok (name ! (?e - 1)) \<and> (\<forall>i \<in> {b + 1..<?e - 1}. ok (name ! i))"
      unfolding mem_interior [OF l3] I hd ..
    then have "valid_label ?l \<longleftrightarrow> 3 \<le> length ?l \<and> is_letter (name ! b) \<and> (is_letter (name ! (?e - 1)) \<or> is_digit (name ! (?e - 1)))
        \<and> ok (name ! b) \<and> ok (name ! (?e - 1)) \<and> (\<forall>i \<in> {b + 1..<?e - 1}. ok (name ! i))"
      unfolding valid_label_def hd by (simp only: ok_def)
    then show ?thesis using l3 False unfolding set_upt by (simp only: ok_def) blast
  qed
  show ?case
  proof (cases "valid_label ?l")
    case True
    then have c: ?code using vl by simp
    show ?thesis
    proof (cases "?e = length name")
      case end': True
      then show ?thesis using c True label_cases [OF 1(2)]
        by (subst account_name_loop.simps) (simp add: Let_def)
    next
      case False
      then have "Suc ?e \<le> length name" using e by simp
      then have "account_name_loop name (?e + 1) \<longleftrightarrow> (\<forall>l \<in> set (split_on (CHR ''.'') (drop (?e + 1) name)). valid_label l)"
        using 1(1) [OF refl refl] c False by auto
      then show ?thesis using c True False label_cases [OF 1(2)]
        by (subst account_name_loop.simps) (auto simp: Let_def)
    qed
  next
    case False
    then have "\<not> ?code" using vl by simp
    then have "\<not> account_name_loop name b" by (subst account_name_loop.simps) (auto simp: Let_def)
    then show ?thesis using False label_cases [OF 1(2)] by simp
  qed
qed

lemma account_name_labels:
  "is_valid_account_name name \<longleftrightarrow> 3 \<le> length name \<and> length name \<le> 16
     \<and> (\<forall>l \<in> set (split_on (CHR ''.'') name). valid_label l)"
  using account_name_loop_labels [of 0 name] by (simp add: is_valid_account_name_def not_less)

text \<open>
  C15. The index loop of \<open>is_valid_account_name\<close> accepts exactly the names of 3 to 16 characters whose
  dot-separated labels all have at least three characters, begin with a lower-case letter, end
  with a letter or digit and contain only letters, digits and hyphens.
\<close>

theorem is_valid_account_name_grammar:
  "is_valid_account_name name \<longleftrightarrow> length name \<in> {3..16}
     \<and> (\<forall>l \<in> set (split_on (CHR ''.'') name). 3 \<le> length l \<and> is_letter (hd l)
          \<and> (is_letter (last l) \<or> is_digit (last l))
          \<and> (\<forall>c \<in> set l. is_letter c \<or> is_digit c \<or> c = CHR ''-''))"
  by (simp add: account_name_labels valid_label_def)

text \<open>A name with an empty label, an upper-case letter or a trailing hyphen is refused.\<close>

theorem is_valid_account_name_grammar_witness:
  "is_valid_account_name ''bob.alice'' \<and> \<not> is_valid_account_name ''bob..alice''
     \<and> \<not> is_valid_account_name ''Bob'' \<and> \<not> is_valid_account_name ''bob-''"
  by (simp add: is_valid_account_name_grammar is_letter_def is_digit_def)

section \<open>Authorities\<close>

definition flat_map_set :: "'k \<Rightarrow> 'v \<Rightarrow> ('k \<times> 'v) list \<Rightarrow> ('k \<times> 'v) list" where
  "flat_map_set k v m = (if t_get k m = None then t_create k v m else t_modify k (\<lambda>_. v) m)"

lemma t_get_flat_map_set [simp]: "t_get k' (flat_map_set k v m) = (if k' = k then Some v else t_get k' m)"
  by (auto simp: flat_map_set_def tbl.get_create tbl.get_modify)

definition add_key_authority :: "public_key \<Rightarrow> 16 word \<Rightarrow> authority_data \<Rightarrow> authority_data" where
  "add_key_authority k w a = a\<lparr>key_auths := flat_map_set k w (key_auths a)\<rparr>"

definition add_account_authority :: "account_name \<Rightarrow> 16 word \<Rightarrow> authority_data \<Rightarrow> authority_data" where
  "add_account_authority k w a = a\<lparr>account_auths := flat_map_set k w (account_auths a)\<rparr>"

definition get_keys :: "authority_data \<Rightarrow> public_key list" where
  "get_keys a = map fst (key_auths a)"

text \<open>The weights are summed in a 64-bit counter and compared with the 32-bit threshold.\<close>

definition is_impossible :: "authority_data \<Rightarrow> bool" where
  "is_impossible a \<longleftrightarrow>
     foldl (\<lambda>s (_, w). s + ucast w)
       (foldl (\<lambda>s (_, w). s + ucast w) (0 :: 64 word) (account_auths a)) (key_auths a)
     < ucast (weight_threshold a)"

definition num_auths :: "authority_data \<Rightarrow> 32 word" where
  "num_auths a = word_of_nat (length (account_auths a) + length (key_auths a))"

definition authority_clear :: "authority_data \<Rightarrow> authority_data" where
  "authority_clear a = a\<lparr>account_auths := [], key_auths := []\<rparr>"

definition authority_validate :: "authority_data \<Rightarrow> unit result" where
  "authority_validate a = checks (map (\<lambda>(n, w). check_value (is_valid_account_name n)) (account_auths a))"

definition authority_eq :: "authority_data \<Rightarrow> authority_data \<Rightarrow> bool" where
  "authority_eq a b \<longleftrightarrow> weight_threshold a = weight_threshold b
     \<and> account_auths a = account_auths b \<and> key_auths a = key_auths b"

definition validate_account_name :: "string \<Rightarrow> unit result" where
  "validate_account_name name = check_value (is_valid_account_name name)"

lemma validate_account_name_Inr [simp]: "validate_account_name n = Inr () \<longleftrightarrow> is_valid_account_name n"
  by (simp add: validate_account_name_def)

lemma authority_validate_Inr:
  "authority_validate a = Inr () \<longleftrightarrow> (\<forall>n \<in> fst ` set (account_auths a). is_valid_account_name n)"
  by (auto simp: authority_validate_def checks_Inr)

end
