(* ===== verification/Operations.thy ===== *)
theory Operations
  imports Authority
begin

text \<open>
  The operations of \<^verbatim>\<open>libraries/protocol/include/golos/protocol/steem_operations.hpp\<close> as records
  and their \<open>validate\<close> methods from \<^verbatim>\<open>steem_operations.cpp\<close>. A validator is the sequence of its
  statements: the first that throws decides the exception, and an \<open>invalid_value\<close> inside
  \<open>GOLOS_CHECK_PARAM\<close> names the parameter. The text checks of the \<^verbatim>\<open>fc\<close> library and the key
  import of \<^verbatim>\<open>graphene/utilities\<close> are parameters (\<open>text_lib\<close>). Fields of type \<open>extensions_type\<close>
  can only hold \<open>void_t\<close> and are left out. The empty string stands for \<open>account_name_type()\<close> and
  \<open>public_key_type()\<close>. The proof-of-work operations are not modelled.
\<close>

section \<open>Text and names\<close>

record text_lib =
  is_utf8 :: "string \<Rightarrow> bool"
  json_is_valid :: "string \<Rightarrow> bool"
  wif_to_key :: "string \<Rightarrow> bool"

definition STEEMIT_MAX_PERMLINK_LENGTH :: nat where "STEEMIT_MAX_PERMLINK_LENGTH = 256"
definition STEEMIT_MAX_MEMO_SIZE :: nat where "STEEMIT_MAX_MEMO_SIZE = 2048"

definition validate_permlink :: "text_lib \<Rightarrow> string \<Rightarrow> unit result" where
  "validate_permlink L s = checks [
     check_value (length s < STEEMIT_MAX_PERMLINK_LENGTH), check_value (is_utf8 L s)]"

definition validate_account_json_metadata :: "text_lib \<Rightarrow> string \<Rightarrow> unit result" where
  "validate_account_json_metadata L s = (if 0 < length s then checks [
     check_value (is_utf8 L s), check_value (json_is_valid L s)] else Inr ())"

definition is_upper :: "char \<Rightarrow> bool" where
  "is_upper c \<longleftrightarrow> (65 :: nat) \<le> of_char c \<and> of_char c \<le> (90 :: nat)"

definition is_valid_symbol_name :: "string \<Rightarrow> bool" where
  "is_valid_symbol_name name =
    (if 14 < length name then False
     else let parts = split_on (CHR ''.'') name in
       if length parts = 0 \<or> 2 < length parts then False
       else list_all (\<lambda>p. 3 \<le> length p \<and> list_all is_upper p) parts)"

definition validate_symbol_name :: "string \<Rightarrow> unit result" where
  "validate_symbol_name s = check_value (is_valid_symbol_name s)"

definition check_param_account :: "string \<Rightarrow> account_name \<Rightarrow> unit result" where
  "check_param_account p n = check_param p (validate_account_name n)"

definition check_memo :: "text_lib \<Rightarrow> string \<Rightarrow> unit result" where
  "check_memo L s = check_param ''memo'' (checks [
     check_value (length s \<le> STEEMIT_MAX_MEMO_SIZE - 1), check_value (is_utf8 L s)])"

text \<open>A recipient that may be left out.\<close>

definition check_optional_account :: "string \<Rightarrow> account_name \<Rightarrow> unit result" where
  "check_optional_account p n = check_param p (if n \<noteq> [] then validate_account_name n else Inr ())"

section \<open>Accounts\<close>

record account_create_operation =
  acr_fee :: asset
  acr_creator :: account_name
  acr_new_account_name :: account_name
  acr_owner :: authority_data
  acr_active :: authority_data
  acr_posting :: authority_data
  acr_memo_key :: public_key
  acr_json_metadata :: string

definition account_create_validate :: "text_lib \<Rightarrow> account_create_operation \<Rightarrow> unit result" where
  "account_create_validate L o1 = checks [
     check_param_account ''new_account_name'' (acr_new_account_name o1),
     check_param ''owner'' (authority_validate (acr_owner o1)),
     check_param ''active'' (authority_validate (acr_active o1)),
     check_param ''fee'' (checks [check_value (symbol (acr_fee o1) = STEEM_SYMBOL),
       rbind (asset_ge (acr_fee o1) (mk_asset 0 STEEM_SYMBOL)) check_value]),
     check_param ''json_metadata'' (validate_account_json_metadata L (acr_json_metadata o1))]"

record account_referral_options =
  aro_referrer :: account_name
  aro_interest_rate :: "16 word"
  aro_end_date :: int
  aro_break_fee :: asset

definition account_referral_options_validate :: "account_referral_options \<Rightarrow> unit result" where
  "account_referral_options_validate x = checks [
     validate_account_name (aro_referrer x),
     check_param ''break_fee'' (checks [check_value (symbol (aro_break_fee x) = STEEM_SYMBOL),
       check_value (0 \<le> amount (aro_break_fee x))])]"

record account_create_with_delegation_operation =
  acd_fee :: asset
  acd_delegation :: asset
  acd_creator :: account_name
  acd_new_account_name :: account_name
  acd_owner :: authority_data
  acd_active :: authority_data
  acd_posting :: authority_data
  acd_memo_key :: public_key
  acd_json_metadata :: string
  acd_extensions :: "account_referral_options list"

definition account_create_with_delegation_validate ::
  "text_lib \<Rightarrow> account_create_with_delegation_operation \<Rightarrow> unit result" where
  "account_create_with_delegation_validate L o1 = checks ([
     check_param_account ''new_account_name'' (acd_new_account_name o1),
     check_param_account ''creator'' (acd_creator o1),
     check_param ''fee'' (check_asset_ge0 GOLOS (acd_fee o1)),
     check_param ''delegation'' (check_asset_ge0 GESTS (acd_delegation o1)),
     check_param ''owner'' (authority_validate (acd_owner o1)),
     check_param ''active'' (authority_validate (acd_active o1)),
     check_param ''posting'' (authority_validate (acd_posting o1)),
     check_param ''json_metadata'' (validate_account_json_metadata L (acd_json_metadata o1))]
     @ map account_referral_options_validate (acd_extensions o1))"

record account_create_with_invite_operation =
  aci_invite_secret :: string
  aci_creator :: account_name
  aci_new_account_name :: account_name
  aci_owner :: authority_data
  aci_active :: authority_data
  aci_posting :: authority_data
  aci_memo_key :: public_key
  aci_json_metadata :: string

definition check_invite_secret :: "text_lib \<Rightarrow> string \<Rightarrow> unit result" where
  "check_invite_secret L s = check_param ''invite_secret'' (checks [
     check_value (0 < length s), check_value (wif_to_key L s)])"

definition account_create_with_invite_validate ::
  "text_lib \<Rightarrow> account_create_with_invite_operation \<Rightarrow> unit result" where
  "account_create_with_invite_validate L o1 = checks [
     check_param_account ''new_account_name'' (aci_new_account_name o1),
     check_param_account ''creator'' (aci_creator o1),
     check_invite_secret L (aci_invite_secret o1),
     check_param ''owner'' (authority_validate (aci_owner o1)),
     check_param ''active'' (authority_validate (aci_active o1)),
     check_param ''posting'' (authority_validate (aci_posting o1)),
     check_param ''json_metadata'' (validate_account_json_metadata L (aci_json_metadata o1))]"

record account_update_operation =
  aup_account :: account_name
  aup_owner :: "authority_data option"
  aup_active :: "authority_data option"
  aup_posting :: "authority_data option"
  aup_memo_key :: public_key
  aup_json_metadata :: string

definition account_update_validate :: "text_lib \<Rightarrow> account_update_operation \<Rightarrow> unit result" where
  "account_update_validate L o1 = checks [
     check_param_account ''account'' (aup_account o1),
     check_param ''json_metadata'' (validate_account_json_metadata L (aup_json_metadata o1))]"

record account_metadata_operation =
  ame_account :: account_name
  ame_json_metadata :: string

definition account_metadata_validate :: "text_lib \<Rightarrow> account_metadata_operation \<Rightarrow> unit result" where
  "account_metadata_validate L o1 = checks [
     check_param_account ''account'' (ame_account o1),
     check_param ''json_metadata'' (checks [check_value (ame_json_metadata o1 \<noteq> []),
       validate_account_json_metadata L (ame_json_metadata o1)])]"

datatype account_setting = Account_Block_Setting account_name bool | Do_Not_Bother_Setting bool

definition account_setting_validate :: "account_setting \<Rightarrow> unit result" where
  "account_setting_validate s = (case s of
     Account_Block_Setting n _ \<Rightarrow> validate_account_name n | Do_Not_Bother_Setting _ \<Rightarrow> Inr ())"

record account_setup_operation =
  ase_account :: account_name
  ase_settings :: "account_setting list"

definition account_setup_validate :: "account_setup_operation \<Rightarrow> unit result" where
  "account_setup_validate o1 = checks (check_param_account ''account'' (ase_account o1)
     # map account_setting_validate (ase_settings o1))"

section \<open>Comments and votes\<close>

record comment_operation =
  com_parent_author :: account_name
  com_parent_permlink :: string
  com_author :: account_name
  com_permlink :: string
  com_title :: string
  com_body :: string
  com_json_metadata :: string

definition comment_validate :: "text_lib \<Rightarrow> comment_operation \<Rightarrow> unit result" where
  "comment_validate L o1 = checks [
     check_param ''title'' (checks [check_value (length (com_title o1) < 256),
       check_value (is_utf8 L (com_title o1))]),
     check_param ''body'' (checks [check_value (0 < length (com_body o1)),
       check_value (is_utf8 L (com_body o1))]),
     if com_parent_author o1 \<noteq> [] then check_param_account ''parent_author'' (com_parent_author o1) else Inr (),
     check_param_account ''author'' (com_author o1),
     check_param ''parent_permlink'' (validate_permlink L (com_parent_permlink o1)),
     check_param ''permlink'' (validate_permlink L (com_permlink o1)),
     if 0 < length (com_json_metadata o1)
     then check_param ''json_metadata'' (check_value (json_is_valid L (com_json_metadata o1))) else Inr ()]"

record beneficiary_route_type =
  bnf_account :: account_name
  bnf_weight :: "16 word"

text \<open>
  \<open>string_less\<close> on account names compares the bytes of the two \<open>fc::fixed_string\<close> objects as
  signed characters, all but the last by walking over equal ones; \<open>mem\<close> is the memory image of an
  account name.
\<close>

fun bytes_less :: "8 word list \<Rightarrow> 8 word list \<Rightarrow> bool" where
  "bytes_less (a # b # as) (x # y # xs) = (if a = x then bytes_less (b # as) (y # xs) else sint a < sint x)"
| "bytes_less [a] [x] = (sint a < sint x)"
| "bytes_less _ _ = False"

definition string_less :: "(account_name \<Rightarrow> 8 word list) \<Rightarrow> account_name \<Rightarrow> account_name \<Rightarrow> bool" where
  "string_less mem a b = bytes_less (mem a) (mem b)"

fun sum_beneficiaries :: "beneficiary_route_type list \<Rightarrow> 32 word \<Rightarrow> 32 word result" where
  "sum_beneficiaries [] s = Inr s"
| "sum_beneficiaries (b # bs) s =
     rbind (checks [validate_account_name (bnf_account b),
       check_value (uint (bnf_weight b) \<le> STEEMIT_100_PERCENT)]) (\<lambda>_.
     sum_beneficiaries bs (s + ucast (bnf_weight b)))"

fun beneficiaries_sorted :: "(account_name \<Rightarrow> 8 word list) \<Rightarrow> beneficiary_route_type list \<Rightarrow> bool" where
  "beneficiaries_sorted mem (a # b # bs) \<longleftrightarrow>
     string_less mem (bnf_account a) (bnf_account b) \<and> beneficiaries_sorted mem (b # bs)"
| "beneficiaries_sorted mem _ \<longleftrightarrow> True"

definition comment_payout_beneficiaries_validate ::
  "(account_name \<Rightarrow> 8 word list) \<Rightarrow> beneficiary_route_type list \<Rightarrow> unit result" where
  "comment_payout_beneficiaries_validate mem bs = check_param ''beneficiaries'' (checks [
     check_value (0 < length bs),
     check_value (length bs < 128),
     rbind (sum_beneficiaries bs 0) (\<lambda>s. checks [
       check_value (uint s \<le> STEEMIT_100_PERCENT),
       check_value (beneficiaries_sorted mem bs)])])"

datatype auction_window_reward_destination_type = to_reward_fund | to_curators | to_author

datatype comment_options_extension =
    Comment_Payout_Beneficiaries "beneficiary_route_type list"
  | Comment_Auction_Window_Reward_Destination auction_window_reward_destination_type
  | Comment_Curation_Rewards_Percent "16 word"
  | Comment_Decrypt_Fee asset

definition comment_options_extension_validate ::
  "(account_name \<Rightarrow> 8 word list) \<Rightarrow> comment_options_extension \<Rightarrow> unit result" where
  "comment_options_extension_validate mem e = (case e of
     Comment_Payout_Beneficiaries bs \<Rightarrow> comment_payout_beneficiaries_validate mem bs
   | Comment_Auction_Window_Reward_Destination d \<Rightarrow>
       check_param ''destination'' (check_value (d = to_reward_fund \<or> d = to_curators))
   | Comment_Curation_Rewards_Percent p \<Rightarrow> check_param ''percent''
       (check_range STEEMIT_MIN_CURATION_PERCENT p STEEMIT_MAX_CURATION_PERCENT)
   | Comment_Decrypt_Fee f \<Rightarrow> check_param ''fee'' (check_asset_ge0 GOLOS f))"

record comment_options_operation =
  cop_author :: account_name
  cop_permlink :: string
  cop_max_accepted_payout :: asset
  cop_percent_steem_dollars :: "16 word"
  cop_allow_votes :: bool
  cop_allow_curation_rewards :: bool
  cop_extensions :: "comment_options_extension list"

definition comment_options_validate ::
  "text_lib \<Rightarrow> (account_name \<Rightarrow> 8 word list) \<Rightarrow> comment_options_operation \<Rightarrow> unit result" where
  "comment_options_validate L mem o1 = checks ([
     check_param_account ''author'' (cop_author o1),
     check_param ''percent_steem_dollars''
       (check_value (uint (cop_percent_steem_dollars o1) \<le> STEEMIT_100_PERCENT)),
     check_param ''max_accepted_payout'' (check_asset_ge0 GBG (cop_max_accepted_payout o1)),
     check_param ''permlink'' (validate_permlink L (cop_permlink o1))]
     @ map (comment_options_extension_validate mem) (cop_extensions o1))"

record delete_comment_operation =
  dco_author :: account_name
  dco_permlink :: string

definition delete_comment_validate :: "text_lib \<Rightarrow> delete_comment_operation \<Rightarrow> unit result" where
  "delete_comment_validate L o1 = checks [
     check_param_account ''author'' (dco_author o1),
     check_param ''permlink'' (validate_permlink L (dco_permlink o1))]"

record vote_operation =
  vot_voter :: account_name
  vot_author :: account_name
  vot_permlink :: string
  vot_weight :: "16 word"

definition vote_validate :: "text_lib \<Rightarrow> vote_operation \<Rightarrow> unit result" where
  "vote_validate L o1 = checks [
     check_param_account ''voter'' (vot_voter o1),
     check_param_account ''author'' (vot_author o1),
     check_param ''weight'' (check_value (\<bar>sint (vot_weight o1)\<bar> \<le> STEEMIT_100_PERCENT)),
     check_param ''permlink'' (validate_permlink L (vot_permlink o1))]"

record challenge_authority_operation =
  cha_challenger :: account_name
  cha_challenged :: account_name
  cha_require_owner :: bool

definition challenge_authority_validate :: "challenge_authority_operation \<Rightarrow> unit result" where
  "challenge_authority_validate o1 = checks [
     check_param_account ''challenger'' (cha_challenger o1),
     check_param_account ''challenged'' (cha_challenged o1),
     check_logic ''cannot_challenge_yourself'' (cha_challenged o1 \<noteq> cha_challenger o1)]"

record prove_authority_operation =
  pra_challenged :: account_name
  pra_require_owner :: bool

definition prove_authority_validate :: "prove_authority_operation \<Rightarrow> unit result" where
  "prove_authority_validate o1 = checks [check_param_account ''challenged'' (pra_challenged o1)]"

section \<open>Transfers, vesting and savings\<close>

record transfer_operation =
  tra_from :: account_name
  tra_to :: account_name
  tra_amount :: asset
  tra_memo :: string

definition transfer_validate :: "text_lib \<Rightarrow> transfer_operation \<Rightarrow> unit result" where
  "transfer_validate L o1 = checks [
     check_param_account ''from'' (tra_from o1),
     check_param_account ''to'' (tra_to o1),
     check_param ''amount'' (checks [check_value (symbol (tra_amount o1) \<noteq> VESTS_SYMBOL),
       check_value (0 < amount (tra_amount o1))]),
     check_param ''memo'' (checks [check_value (length (tra_memo o1) < STEEMIT_MAX_MEMO_SIZE),
       check_value (is_utf8 L (tra_memo o1))])]"

record transfer_to_vesting_operation =
  trv_from :: account_name
  trv_to :: account_name
  trv_amount :: asset

definition transfer_to_vesting_validate :: "transfer_to_vesting_operation \<Rightarrow> unit result" where
  "transfer_to_vesting_validate o1 = checks [
     check_param_account ''from'' (trv_from o1),
     check_param ''amount'' (checks [check_value (symbol (trv_amount o1) = STEEM_SYMBOL),
       rbind (asset_gt (trv_amount o1) (mk_asset 0 STEEM_SYMBOL)) check_value]),
     check_optional_account ''to'' (trv_to o1)]"

record withdraw_vesting_operation =
  wdv_account :: account_name
  wdv_vesting_shares :: asset

definition withdraw_vesting_validate :: "withdraw_vesting_operation \<Rightarrow> unit result" where
  "withdraw_vesting_validate o1 = checks [
     check_param_account ''account'' (wdv_account o1),
     check_param ''vesting_shares'' (checks [check_value (symbol (wdv_vesting_shares o1) = VESTS_SYMBOL),
       check_value (0 \<le> amount (wdv_vesting_shares o1))])]"

record set_withdraw_vesting_route_operation =
  wvr_from_account :: account_name
  wvr_to_account :: account_name
  wvr_percent :: "16 word"
  wvr_auto_vest :: bool

definition set_withdraw_vesting_route_validate :: "set_withdraw_vesting_route_operation \<Rightarrow> unit result" where
  "set_withdraw_vesting_route_validate o1 = checks [
     check_param_account ''from_account'' (wvr_from_account o1),
     check_param_account ''to_account'' (wvr_to_account o1),
     check_param ''percent'' (check_range 0 (wvr_percent o1) STEEMIT_100_PERCENT)]"

record transfer_to_savings_operation =
  tts_from :: account_name
  tts_to :: account_name
  tts_amount :: asset
  tts_memo :: string

definition transfer_to_savings_validate :: "text_lib \<Rightarrow> transfer_to_savings_operation \<Rightarrow> unit result" where
  "transfer_to_savings_validate L o1 = checks [
     check_param_account ''from'' (tts_from o1),
     check_param_account ''to'' (tts_to o1),
     check_param ''amount'' (check_asset_gt0 GOLOS_OR_GBG (tts_amount o1)),
     check_memo L (tts_memo o1)]"

record transfer_from_savings_operation =
  tfs_from :: account_name
  tfs_request_id :: "32 word"
  tfs_to :: account_name
  tfs_amount :: asset
  tfs_memo :: string

definition transfer_from_savings_validate :: "text_lib \<Rightarrow> transfer_from_savings_operation \<Rightarrow> unit result" where
  "transfer_from_savings_validate L o1 = checks [
     check_param_account ''from'' (tfs_from o1),
     check_param_account ''to'' (tfs_to o1),
     check_param ''amount'' (check_asset_gt0 GOLOS_OR_GBG (tfs_amount o1)),
     check_memo L (tfs_memo o1)]"

record cancel_transfer_from_savings_operation =
  cts_from :: account_name
  cts_request_id :: "32 word"

definition cancel_transfer_from_savings_validate :: "cancel_transfer_from_savings_operation \<Rightarrow> unit result" where
  "cancel_transfer_from_savings_validate o1 = checks [check_param_account ''from'' (cts_from o1)]"

section \<open>Escrow, conversion and market\<close>

record escrow_transfer_operation =
  et_from :: account_name
  et_to :: account_name
  et_agent :: account_name
  et_escrow_id :: "32 word"
  et_sbd_amount :: asset
  et_steem_amount :: asset
  et_fee :: asset
  et_ratification_deadline :: int
  et_escrow_expiration :: int
  et_json_meta :: string

definition escrow_transfer_validate :: "text_lib \<Rightarrow> escrow_transfer_operation \<Rightarrow> unit result" where
  "escrow_transfer_validate L o1 = checks [
     check_param_account ''from'' (et_from o1),
     check_param_account ''to'' (et_to o1),
     check_param_account ''agent'' (et_agent o1),
     check_param ''fee'' (check_asset_ge0 GOLOS_OR_GBG (et_fee o1)),
     check_param ''sbd_amount'' (check_asset_ge0 GBG (et_sbd_amount o1)),
     check_param ''steem_amount'' (check_asset_ge0 GOLOS (et_steem_amount o1)),
     check_logic ''escrow_no_amount_set'' (0 < amount (et_sbd_amount o1) \<or> 0 < amount (et_steem_amount o1)),
     check_param ''agent'' (check_value (et_from o1 \<noteq> et_agent o1 \<and> et_to o1 \<noteq> et_agent o1)),
     check_logic ''escrow_wrong_time_limits'' (et_ratification_deadline o1 < et_escrow_expiration o1),
     if 0 < length (et_json_meta o1) then check_param ''json_meta'' (checks [
       check_value (is_utf8 L (et_json_meta o1)), check_value (json_is_valid L (et_json_meta o1))])
     else Inr ()]"

record escrow_approve_operation =
  ea_from :: account_name
  ea_to :: account_name
  ea_agent :: account_name
  ea_who :: account_name
  ea_escrow_id :: "32 word"
  ea_approve :: bool

definition escrow_approve_validate :: "escrow_approve_operation \<Rightarrow> unit result" where
  "escrow_approve_validate o1 = checks [
     check_param_account ''from'' (ea_from o1),
     check_param_account ''to'' (ea_to o1),
     check_param_account ''agent'' (ea_agent o1),
     check_param_account ''who'' (ea_who o1),
     check_param ''who'' (check_value (ea_who o1 = ea_to o1 \<or> ea_who o1 = ea_agent o1))]"

record escrow_dispute_operation =
  ed_from :: account_name
  ed_to :: account_name
  ed_agent :: account_name
  ed_who :: account_name
  ed_escrow_id :: "32 word"

definition escrow_dispute_validate :: "escrow_dispute_operation \<Rightarrow> unit result" where
  "escrow_dispute_validate o1 = checks [
     check_param_account ''from'' (ed_from o1),
     check_param_account ''to'' (ed_to o1),
     check_param_account ''agent'' (ed_agent o1),
     check_param_account ''who'' (ed_who o1),
     check_param ''who'' (check_value (ed_who o1 = ed_from o1 \<or> ed_who o1 = ed_to o1))]"

record escrow_release_operation =
  er_from :: account_name
  er_to :: account_name
  er_agent :: account_name
  er_who :: account_name
  er_receiver :: account_name
  er_escrow_id :: "32 word"
  er_sbd_amount :: asset
  er_steem_amount :: asset

definition escrow_release_validate :: "escrow_release_operation \<Rightarrow> unit result" where
  "escrow_release_validate o1 = checks [
     check_param_account ''from'' (er_from o1),
     check_param_account ''to'' (er_to o1),
     check_param_account ''agent'' (er_agent o1),
     check_param_account ''who'' (er_who o1),
     check_param_account ''receiver'' (er_receiver o1),
     check_param ''who'' (check_value (er_who o1 = er_from o1 \<or> er_who o1 = er_to o1 \<or> er_who o1 = er_agent o1)),
     check_param ''receiver'' (check_value (er_receiver o1 = er_from o1 \<or> er_receiver o1 = er_to o1)),
     check_param ''sbd_amount'' (check_asset_ge0 GBG (er_sbd_amount o1)),
     check_param ''steem_amount'' (check_asset_ge0 GOLOS (er_steem_amount o1)),
     check_logic ''escrow_no_amount_set'' (0 < amount (er_sbd_amount o1) \<or> 0 < amount (er_steem_amount o1))]"

record feed_publish_operation =
  fp_publisher :: account_name
  fp_exchange_rate :: price

definition feed_publish_validate :: "feed_publish_operation \<Rightarrow> unit result" where
  "feed_publish_validate o1 = checks [
     check_param_account ''publisher'' (fp_publisher o1),
     check_logic ''price_feed_must_be_for_golos_gbg_market''
       (symbol (base (fp_exchange_rate o1)) = STEEM_SYMBOL \<and> symbol (quote (fp_exchange_rate o1)) = SBD_SYMBOL
        \<or> symbol (base (fp_exchange_rate o1)) = SBD_SYMBOL \<and> symbol (quote (fp_exchange_rate o1)) = STEEM_SYMBOL),
     check_param ''exchange_rate'' (price_validate (fp_exchange_rate o1))]"

record convert_operation =
  cv_owner :: account_name
  cv_requestid :: "32 word"
  cv_amount :: asset

definition convert_validate :: "convert_operation \<Rightarrow> unit result" where
  "convert_validate o1 = checks [
     check_param_account ''owner'' (cv_owner o1),
     check_param ''amount'' (check_asset_gt0 GOLOS_OR_GBG (cv_amount o1))]"

record limit_order_create_operation =
  loc_owner :: account_name
  loc_orderid :: "32 word"
  loc_amount_to_sell :: asset
  loc_min_to_receive :: asset
  loc_fill_or_kill :: bool
  loc_expiration :: int

definition loc_get_price :: "limit_order_create_operation \<Rightarrow> price result" where
  "loc_get_price o1 = asset_div_asset (loc_amount_to_sell o1) (loc_min_to_receive o1)"

text \<open>The three conjuncts of the asset check, evaluated from left to right.\<close>

definition check_order_assets :: "asset \<Rightarrow> asset \<Rightarrow> unit result" where
  "check_order_assets sell receive =
     rbind (symbol_name sell) (\<lambda>ns.
     rbind (if is_valid_symbol_name ns then
              rbind (symbol_name receive) (\<lambda>nr. Inr (is_valid_symbol_name nr \<and> symbol sell \<noteq> symbol receive))
            else Inr False)
     (\<lambda>ok. check_logic ''limit_order_must_have_correct_assets'' ok))"

definition limit_order_create_validate :: "limit_order_create_operation \<Rightarrow> unit result" where
  "limit_order_create_validate o1 = checks [
     check_param_account ''owner'' (loc_owner o1),
     check_order_assets (loc_amount_to_sell o1) (loc_min_to_receive o1),
     rbind (loc_get_price o1) (\<lambda>p. check_param ''price'' (price_validate p))]"

record limit_order_create2_operation =
  lo2_owner :: account_name
  lo2_orderid :: "32 word"
  lo2_amount_to_sell :: asset
  lo2_fill_or_kill :: bool
  lo2_exchange_rate :: price
  lo2_expiration :: int

definition limit_order_create2_validate :: "limit_order_create2_operation \<Rightarrow> unit result" where
  "limit_order_create2_validate o1 = checks [
     check_param_account ''owner'' (lo2_owner o1),
     check_param ''exchange_rate'' (price_validate (lo2_exchange_rate o1)),
     check_order_assets (lo2_amount_to_sell o1) (quote (lo2_exchange_rate o1)),
     check_param ''amount_to_sell'' (checks [
       check_value (symbol (lo2_amount_to_sell o1) = symbol (base (lo2_exchange_rate o1))),
       rbind (asset_mul_price (lo2_amount_to_sell o1) (lo2_exchange_rate o1)) (\<lambda>r. check_value (0 < amount r))])]"

record limit_order_cancel_operation =
  lca_owner :: account_name
  lca_orderid :: "32 word"

definition limit_order_cancel_validate :: "limit_order_cancel_operation \<Rightarrow> unit result" where
  "limit_order_cancel_validate o1 = checks [check_param_account ''owner'' (lca_owner o1)]"

record pair_to_cancel =
  ptc_base :: string
  ptc_quote :: string
  ptc_reverse :: bool

definition pair_to_cancel_validate :: "pair_to_cancel \<Rightarrow> unit result" where
  "pair_to_cancel_validate p = checks [
     check_param ''base'' (if ptc_base p \<noteq> [] then validate_symbol_name (ptc_base p) else Inr ()),
     check_param ''quote'' (if ptc_quote p \<noteq> [] then checks [validate_symbol_name (ptc_quote p),
       check_value (ptc_base p \<noteq> ptc_quote p)] else Inr ())]"

record limit_order_cancel_ex_operation =
  lcx_owner :: account_name
  lcx_orderid :: "32 word"
  lcx_extensions :: "pair_to_cancel list"

definition limit_order_cancel_ex_validate :: "limit_order_cancel_ex_operation \<Rightarrow> unit result" where
  "limit_order_cancel_ex_validate o1 = checks (check_param_account ''owner'' (lcx_owner o1)
     # map pair_to_cancel_validate (lcx_extensions o1)
     @ [if lcx_extensions o1 \<noteq> [] then check_param ''orderid'' (check_value (lcx_orderid o1 = 0)) else Inr ()])"

section \<open>Witnesses and custom operations\<close>

record witness_update_operation =
  wu_owner :: account_name
  wu_url :: string
  wu_block_signing_key :: public_key
  wu_props :: chain_properties_17
  wu_fee :: asset

definition witness_update_validate :: "text_lib \<Rightarrow> witness_update_operation \<Rightarrow> unit result" where
  "witness_update_validate L o1 = checks [
     check_param_account ''owner'' (wu_owner o1),
     check_param ''url'' (checks [check_value (wu_url o1 \<noteq> []), check_value (is_utf8 L (wu_url o1))]),
     check_param ''fee'' (check_asset_ge0 GOLOS (wu_fee o1)),
     check_param ''props'' (chain_properties_17_validate (wu_props o1))]"

record chain_properties_update_operation =
  cpu_owner :: account_name
  cpu_props :: versioned_chain_properties

definition chain_properties_update_validate :: "chain_properties_update_operation \<Rightarrow> unit result" where
  "chain_properties_update_validate o1 = checks [
     check_param_account ''owner'' (cpu_owner o1),
     check_param ''props'' (chain_properties_validator (cpu_props o1))]"

record account_witness_vote_operation =
  awv_account :: account_name
  awv_witness :: account_name
  awv_approve :: bool

definition account_witness_vote_validate :: "account_witness_vote_operation \<Rightarrow> unit result" where
  "account_witness_vote_validate o1 = checks [
     check_param_account ''account'' (awv_account o1), check_param_account ''witness'' (awv_witness o1)]"

record account_witness_proxy_operation =
  awp_account :: account_name
  awp_proxy :: account_name

definition account_witness_proxy_validate :: "account_witness_proxy_operation \<Rightarrow> unit result" where
  "account_witness_proxy_validate o1 = checks [
     check_param_account ''account'' (awp_account o1),
     if awp_proxy o1 \<noteq> [] then check_param ''proxy'' (checks [validate_account_name (awp_proxy o1),
       check_value (awp_proxy o1 \<noteq> awp_account o1)]) else Inr ()]"

record custom_operation =
  cu_required_auths :: "account_name list"
  cu_id :: "16 word"
  cu_data :: string

definition custom_validate :: "custom_operation \<Rightarrow> unit result" where
  "custom_validate o1 = checks [
     check_param ''required_auths'' (check_value (0 < length (cu_required_auths o1)))]"

record custom_json_operation =
  cj_required_auths :: "account_name list"
  cj_required_posting_auths :: "account_name list"
  cj_id :: string
  cj_json :: string

definition custom_json_validate :: "text_lib \<Rightarrow> custom_json_operation \<Rightarrow> unit result" where
  "custom_json_validate L o1 = checks [
     check_param ''required_auths''
       (check_value (0 < length (cj_required_auths o1) + length (cj_required_posting_auths o1))),
     check_param ''id'' (check_value (length (cj_id o1) \<le> 32)),
     check_param ''json'' (checks [check_value (is_utf8 L (cj_json o1)), check_value (json_is_valid L (cj_json o1))])]"

record custom_binary_operation =
  cb_required_owner_auths :: "account_name list"
  cb_required_active_auths :: "account_name list"
  cb_required_posting_auths :: "account_name list"
  cb_required_auths :: "authority_data list"
  cb_id :: string
  cb_data :: string

definition custom_binary_validate :: "custom_binary_operation \<Rightarrow> unit result" where
  "custom_binary_validate o1 = checks [
     check_param ''required_owner_auths'' (check_value (0 < length (cb_required_owner_auths o1)
       + length (cb_required_active_auths o1) + length (cb_required_posting_auths o1))),
     check_param ''id'' (check_value (length (cb_id o1) \<le> 32)),
     check_param ''required_auths'' (checks (map authority_validate (cb_required_auths o1)))]"

section \<open>Recovery and voting rights\<close>

record request_account_recovery_operation =
  rar_recovery_account :: account_name
  rar_account_to_recover :: account_name
  rar_new_owner_authority :: authority_data

definition request_account_recovery_validate :: "request_account_recovery_operation \<Rightarrow> unit result" where
  "request_account_recovery_validate o1 = checks [
     check_param_account ''recovery_account'' (rar_recovery_account o1),
     check_param_account ''account_to_recover'' (rar_account_to_recover o1),
     check_param ''new_owner_authority'' (authority_validate (rar_new_owner_authority o1))]"

record recover_account_operation =
  rea_account_to_recover :: account_name
  rea_new_owner_authority :: authority_data
  rea_recent_owner_authority :: authority_data

definition recover_account_validate :: "recover_account_operation \<Rightarrow> unit result" where
  "recover_account_validate o1 = checks [
     check_param_account ''account_to_recover'' (rea_account_to_recover o1),
     check_param ''new_owner_authority'' (checks [
       check_logic ''cannot_set_recent_recovery''
         (\<not> authority_eq (rea_new_owner_authority o1) (rea_recent_owner_authority o1)),
       check_value (\<not> is_impossible (rea_new_owner_authority o1)),
       check_value (weight_threshold (rea_new_owner_authority o1) \<noteq> 0),
       authority_validate (rea_new_owner_authority o1)]),
     check_param ''recent_owner_authority'' (checks [
       check_value (\<not> is_impossible (rea_recent_owner_authority o1)),
       authority_validate (rea_recent_owner_authority o1)])]"

record change_recovery_account_operation =
  cra_account_to_recover :: account_name
  cra_new_recovery_account :: account_name

definition change_recovery_account_validate :: "change_recovery_account_operation \<Rightarrow> unit result" where
  "change_recovery_account_validate o1 = checks [
     check_param_account ''account_to_recover'' (cra_account_to_recover o1),
     check_param_account ''new_recovery_account'' (cra_new_recovery_account o1)]"

record reset_account_operation =
  rsa_reset_account :: account_name
  rsa_account_to_reset :: account_name
  rsa_new_owner_authority :: authority_data

definition reset_account_validate :: "reset_account_operation \<Rightarrow> unit result" where
  "reset_account_validate o1 = checks [
     check_param_account ''reset_account'' (rsa_reset_account o1),
     check_param_account ''account_to_reset'' (rsa_account_to_reset o1),
     check_param ''new_owner_authority'' (checks [
       check_value (\<not> is_impossible (rsa_new_owner_authority o1)),
       check_value (weight_threshold (rsa_new_owner_authority o1) \<noteq> 0),
       authority_validate (rsa_new_owner_authority o1)])]"

record set_reset_account_operation =
  sra_account :: account_name
  sra_current_reset_account :: account_name
  sra_reset_account :: account_name

definition set_reset_account_validate :: "set_reset_account_operation \<Rightarrow> unit result" where
  "set_reset_account_validate o1 = checks [
     check_param_account ''account'' (sra_account o1),
     if sra_current_reset_account o1 \<noteq> []
     then check_param_account ''current_reset_account'' (sra_current_reset_account o1) else Inr (),
     check_param_account ''reset_account'' (sra_reset_account o1),
     check_logic ''cannot_set_same_reset_account'' (sra_current_reset_account o1 \<noteq> sra_reset_account o1)]"

record decline_voting_rights_operation =
  dvr_account :: account_name
  dvr_decline :: bool

definition decline_voting_rights_validate :: "decline_voting_rights_operation \<Rightarrow> unit result" where
  "decline_voting_rights_validate o1 = checks [check_param_account ''account'' (dvr_account o1)]"

section \<open>Delegation and referrals\<close>

record delegate_vesting_shares_operation =
  dvs_delegator :: account_name
  dvs_delegatee :: account_name
  dvs_vesting_shares :: asset

definition check_delegation :: "account_name \<Rightarrow> account_name \<Rightarrow> asset \<Rightarrow> unit result" where
  "check_delegation delegator delegatee shares = checks [
     check_param_account ''delegator'' delegator,
     check_param_account ''delegatee'' delegatee,
     check_logic ''cannot_delegate_to_yourself'' (delegator \<noteq> delegatee),
     check_param ''vesting_shares'' (check_asset_ge0 GESTS shares)]"

definition delegate_vesting_shares_validate :: "delegate_vesting_shares_operation \<Rightarrow> unit result" where
  "delegate_vesting_shares_validate o1 =
     check_delegation (dvs_delegator o1) (dvs_delegatee o1) (dvs_vesting_shares o1)"

record delegate_vesting_shares_with_interest_operation =
  dvi_delegator :: account_name
  dvi_delegatee :: account_name
  dvi_vesting_shares :: asset
  dvi_interest_rate :: "16 word"
  dvi_payout_strategy :: delegator_payout_strategy
  dvi_extensions :: "bool list"

definition delegate_vesting_shares_with_interest_validate ::
  "delegate_vesting_shares_with_interest_operation \<Rightarrow> unit result" where
  "delegate_vesting_shares_with_interest_validate o1 =
     check_delegation (dvi_delegator o1) (dvi_delegatee o1) (dvi_vesting_shares o1)"

record reject_vesting_shares_delegation_operation =
  rvd_delegator :: account_name
  rvd_delegatee :: account_name

definition reject_vesting_shares_delegation_validate ::
  "reject_vesting_shares_delegation_operation \<Rightarrow> unit result" where
  "reject_vesting_shares_delegation_validate o1 = checks [
     check_param_account ''delegator'' (rvd_delegator o1), check_param_account ''delegatee'' (rvd_delegatee o1)]"

record break_free_referral_operation =
  bfr_referral :: account_name

definition break_free_referral_validate :: "break_free_referral_operation \<Rightarrow> unit result" where
  "break_free_referral_validate o1 = checks [check_param_account ''referral'' (bfr_referral o1)]"

record transit_to_cyberway_operation =
  ttc_owner :: account_name
  ttc_vote_to_transit :: bool

definition transit_to_cyberway_validate :: "transit_to_cyberway_operation \<Rightarrow> unit result" where
  "transit_to_cyberway_validate o1 = checks [check_param_account ''owner'' (ttc_owner o1)]"

section \<open>Tips and invites\<close>

record claim_operation =
  cl_from :: account_name
  cl_to :: account_name
  cl_amount :: asset
  cl_to_vesting :: bool

definition claim_validate :: "claim_operation \<Rightarrow> unit result" where
  "claim_validate o1 = checks [
     check_param_account ''from'' (cl_from o1),
     check_param ''amount'' (checks [check_value (symbol (cl_amount o1) = STEEM_SYMBOL),
       rbind (asset_gt (cl_amount o1) (mk_asset 0 STEEM_SYMBOL)) check_value]),
     check_optional_account ''to'' (cl_to o1)]"

text \<open>The target of a donation is a JSON object that the validator does not look at.\<close>

record donate_memo =
  dm_app :: account_name
  dm_version :: "16 word"
  dm_target :: string
  dm_comment :: "string option"

record donate_operation =
  dn_from :: account_name
  dn_to :: account_name
  dn_amount :: asset
  dn_memo :: donate_memo

definition donate_validate :: "donate_operation \<Rightarrow> unit result" where
  "donate_validate o1 = checks [
     check_param_account ''from'' (dn_from o1),
     check_param ''amount'' (check_asset_gt0 GOLOS_OR_UIA (dn_amount o1)),
     check_param ''memo'' (check_param_account ''memo.app'' (dm_app (dn_memo o1))),
     check_optional_account ''to'' (dn_to o1)]"

record transfer_to_tip_operation =
  ttt_from :: account_name
  ttt_to :: account_name
  ttt_amount :: asset
  ttt_memo :: string

definition transfer_to_tip_validate :: "text_lib \<Rightarrow> transfer_to_tip_operation \<Rightarrow> unit result" where
  "transfer_to_tip_validate L o1 = checks [
     check_param_account ''from'' (ttt_from o1),
     check_param ''amount'' (check_asset_gt0 GOLOS_OR_UIA (ttt_amount o1)),
     check_memo L (ttt_memo o1),
     check_optional_account ''to'' (ttt_to o1)]"

record transfer_from_tip_operation =
  tft_from :: account_name
  tft_to :: account_name
  tft_amount :: asset
  tft_memo :: string

definition transfer_from_tip_validate :: "text_lib \<Rightarrow> transfer_from_tip_operation \<Rightarrow> unit result" where
  "transfer_from_tip_validate L o1 = checks [
     check_param_account ''from'' (tft_from o1),
     check_param ''amount'' (check_asset_gt0 GOLOS_OR_UIA (tft_amount o1)),
     check_memo L (tft_memo o1),
     check_optional_account ''to'' (tft_to o1)]"

definition check_invite_key :: "string \<Rightarrow> public_key \<Rightarrow> unit result" where
  "check_invite_key p k = check_param p (check_value (k \<noteq> []))"

record invite_operation =
  inv_creator :: account_name
  inv_balance :: asset
  inv_invite_key :: public_key
  inv_extensions :: "bool list"

definition invite_validate :: "invite_operation \<Rightarrow> unit result" where
  "invite_validate o1 = checks [
     check_param_account ''creator'' (inv_creator o1),
     check_param ''balance'' (check_asset_gt0 GOLOS_OR_UIA (inv_balance o1)),
     check_invite_key ''invite_key'' (inv_invite_key o1)]"

record invite_claim_operation =
  icl_initiator :: account_name
  icl_receiver :: account_name
  icl_invite_secret :: string

definition invite_claim_validate :: "text_lib \<Rightarrow> invite_claim_operation \<Rightarrow> unit result" where
  "invite_claim_validate L o1 = checks [
     check_param_account ''initiator'' (icl_initiator o1),
     check_param_account ''receiver'' (icl_receiver o1),
     check_invite_secret L (icl_invite_secret o1)]"

record invite_donate_operation =
  idn_from :: account_name
  idn_invite_key :: public_key
  idn_amount :: asset
  idn_memo :: string

definition invite_donate_validate :: "text_lib \<Rightarrow> invite_donate_operation \<Rightarrow> unit result" where
  "invite_donate_validate L o1 = checks [
     check_param_account ''from'' (idn_from o1),
     check_invite_key ''invite_key'' (idn_invite_key o1),
     check_param ''amount'' (check_asset_gt0 GOLOS_OR_UIA (idn_amount o1)),
     check_memo L (idn_memo o1)]"

record invite_transfer_operation =
  itr_from :: public_key
  itr_to :: public_key
  itr_amount :: asset
  itr_memo :: string

definition invite_transfer_validate :: "text_lib \<Rightarrow> invite_transfer_operation \<Rightarrow> unit result" where
  "invite_transfer_validate L o1 = checks [
     check_invite_key ''from'' (itr_from o1),
     check_param ''to'' (checks [check_value (itr_to o1 \<noteq> []), check_value (itr_to o1 \<noteq> itr_from o1)]),
     check_param ''amount'' (check_asset_gt0 GOLOS_OR_UIA (itr_amount o1)),
     check_memo L (itr_memo o1)]"

section \<open>User-issued assets\<close>

record asset_create_operation =
  asc_creator :: account_name
  asc_max_supply :: asset
  asc_allow_fee :: bool
  asc_allow_override_transfer :: bool
  asc_json_metadata :: string

definition check_symbol_amount :: "asset \<Rightarrow> unit result" where
  "check_symbol_amount x = rbind (symbol_name x) (\<lambda>n.
     checks [validate_symbol_name n, check_value (0 < amount x)])"

definition asset_create_validate :: "text_lib \<Rightarrow> asset_create_operation \<Rightarrow> unit result" where
  "asset_create_validate L o1 = checks [
     check_param_account ''creator'' (asc_creator o1),
     check_param ''max_supply'' (check_symbol_amount (asc_max_supply o1)),
     if 0 < length (asc_json_metadata o1) then check_param ''json_metadata'' (checks [
       check_value (is_utf8 L (asc_json_metadata o1)), check_value (json_is_valid L (asc_json_metadata o1))])
     else Inr ()]"

record asset_update_operation =
  asu_creator :: account_name
  asu_symbol :: string
  asu_symbols_whitelist :: "string list"
  asu_fee_percent :: "16 word"
  asu_json_metadata :: string

definition asset_update_validate :: "asset_update_operation \<Rightarrow> unit result" where
  "asset_update_validate o1 = checks [
     check_param_account ''creator'' (asu_creator o1),
     check_param ''symbol'' (validate_symbol_name (asu_symbol o1)),
     check_param ''symbols_whitelist'' (checks (
       check_value (asu_symbol o1 \<notin> set (asu_symbols_whitelist o1))
       # map validate_symbol_name (asu_symbols_whitelist o1))),
     check_param ''fee_percent'' (check_range 0 (asu_fee_percent o1) STEEMIT_100_PERCENT)]"

record asset_issue_operation =
  asi_creator :: account_name
  asi_amount :: asset
  asi_to :: account_name

definition asset_issue_validate :: "asset_issue_operation \<Rightarrow> unit result" where
  "asset_issue_validate o1 = checks [
     check_param_account ''creator'' (asi_creator o1),
     check_param ''amount'' (check_symbol_amount (asi_amount o1)),
     check_optional_account ''to'' (asi_to o1)]"

record asset_transfer_operation =
  ast_op_creator :: account_name
  ast_op_symbol :: string
  ast_op_new_owner :: account_name

definition asset_transfer_validate :: "asset_transfer_operation \<Rightarrow> unit result" where
  "asset_transfer_validate o1 = checks [
     check_param_account ''creator'' (ast_op_creator o1),
     check_param ''symbol'' (validate_symbol_name (ast_op_symbol o1)),
     check_param_account ''new_owner'' (ast_op_new_owner o1),
     check_param ''new_owner'' (check_value (ast_op_new_owner o1 \<noteq> ast_op_creator o1))]"

record override_transfer_operation =
  ovt_creator :: account_name
  ovt_from :: account_name
  ovt_to :: account_name
  ovt_amount :: asset
  ovt_memo :: string

definition override_transfer_validate :: "text_lib \<Rightarrow> override_transfer_operation \<Rightarrow> unit result" where
  "override_transfer_validate L o1 = checks [
     check_param ''from'' (checks [validate_account_name (ovt_from o1),
       check_value (ovt_from o1 \<noteq> ovt_to o1), check_value (ovt_from o1 \<noteq> ovt_creator o1)]),
     check_param ''amount'' (check_asset_gt0 UIA (ovt_amount o1)),
     check_memo L (ovt_memo o1),
     check_param_account ''to'' (ovt_to o1)]"

section \<open>Beneficiaries\<close>

lemma bytes_less_Cons: "bytes_less (a # as) (x # xs) \<Longrightarrow> length as = length xs \<Longrightarrow>
    sint a < sint x \<or> a = x \<and> bytes_less as xs"
  by (cases as; cases xs) (auto split: if_splits)

lemma bytes_less_ConsI: "sint a < sint x \<or> a = x \<and> bytes_less as xs \<Longrightarrow> length as = length xs \<Longrightarrow>
    bytes_less (a # as) (x # xs)"
  by (cases as; cases xs) auto

lemma bytes_less_irrefl: "\<not> bytes_less as as"
  by (induction as) (use bytes_less_Cons in fastforce)+

lemma bytes_less_trans: "bytes_less as bs \<Longrightarrow> bytes_less bs cs \<Longrightarrow> length as = length bs \<Longrightarrow> length bs = length cs \<Longrightarrow> bytes_less as cs"
proof (induction as arbitrary: bs cs)
  case (Cons a as)
  obtain b bs' c cs' where e: "bs = b # bs'" "cs = c # cs'" using Cons.prems by (cases bs; cases cs) auto
  have "sint a < sint b \<or> a = b \<and> bytes_less as bs'" "sint b < sint c \<or> b = c \<and> bytes_less bs' cs'"
    using Cons.prems e by (auto dest: bytes_less_Cons)
  then have "sint a < sint c \<or> a = c \<and> bytes_less as cs'"
    using Cons.IH [of bs' cs'] Cons.prems e by auto
  then show ?case using Cons.prems e by (simp add: bytes_less_ConsI)
qed simp

lemma beneficiaries_sorted_head:
  assumes "beneficiaries_sorted mem (a # bs)" "\<And>n m. length (mem n) = length (mem m)" "b \<in> set bs"
  shows "string_less mem (bnf_account a) (bnf_account b)"
  using assms
proof (induction bs arbitrary: a)
  case (Cons c bs)
  then have ac: "string_less mem (bnf_account a) (bnf_account c)" and s: "beneficiaries_sorted mem (c # bs)" by auto
  show ?case
  proof (cases "b = c")
    case False
    then have "string_less mem (bnf_account c) (bnf_account b)" using Cons s by auto
    with ac Cons.prems(2) show ?thesis unfolding string_less_def by (metis bytes_less_trans)
  qed (use ac in simp)
qed simp

lemma beneficiaries_sorted_distinct:
  assumes "beneficiaries_sorted mem bs" "\<And>n m. length (mem n) = length (mem m)"
  shows "distinct (map bnf_account bs)"
  using assms
proof (induction bs)
  case (Cons a bs)
  have "string_less mem (bnf_account a) (bnf_account b)" if "b \<in> set bs" for b
    using beneficiaries_sorted_head [OF Cons.prems(1)] Cons.prems(2) that by blast
  then have "bnf_account a \<notin> bnf_account ` set bs"
    by (metis bytes_less_irrefl imageE string_less_def)
  moreover have "beneficiaries_sorted mem bs" using Cons.prems(1) by (cases bs) auto
  ultimately show ?case using Cons by simp
qed simp

lemma unat_add_weight32:
  fixes s :: "32 word" and w :: "16 word"
  assumes "uint s + uint w < 2 ^ 32"
  shows "uint (s + ucast w) = uint s + uint w"
proof -
  have "uint (ucast w :: 32 word) = uint w"
    using uint_bounded [of w] by (simp add: unsigned_ucast_eq take_bit_int_eq_self)
  then show ?thesis using assms by (simp add: uint_word_ariths)
qed

lemma sum_beneficiaries_spec:
  assumes "uint s + 10000 * int (length bs) < 2 ^ 32"
  shows "sum_beneficiaries bs s = Inr t \<longleftrightarrow>
     (\<forall>b \<in> set bs. is_valid_account_name (bnf_account b) \<and> uint (bnf_weight b) \<le> 10000)
     \<and> uint t = uint s + (\<Sum>b\<leftarrow>bs. uint (bnf_weight b))"
  using assms
proof (induction bs arbitrary: s)
  case Nil
  then show ?case by (auto simp: word_uint_eq_iff)
next
  case (Cons b bs)
  show ?case
  proof (cases "is_valid_account_name (bnf_account b) \<and> uint (bnf_weight b) \<le> 10000")
    case True
    have "uint s + uint (bnf_weight b) < 2 ^ 32" using Cons.prems True by simp
    note U = unat_add_weight32 [OF this]
    have "uint (s + ucast (bnf_weight b)) + 10000 * int (length bs) < 2 ^ 32"
      using Cons.prems True U by simp
    from Cons.IH [OF this] True U show ?thesis
      by (auto simp: STEEMIT_100_PERCENT_def)
  qed (auto simp: STEEMIT_100_PERCENT_def)
qed

text \<open>
  C20. A list of beneficiaries is accepted exactly when it names between 1 and 127 valid accounts
  in strictly ascending order, none with more than 100%, whose exact sum is at most 100%: the 32-bit
  sum cannot wrap. Accounts of an accepted list are therefore distinct.
\<close>

theorem comment_payout_beneficiaries_exact:
  assumes "\<And>n m. length (mem n) = length (mem m)"
  shows "(comment_payout_beneficiaries_validate mem bs = Inr () \<longleftrightarrow>
       0 < length bs \<and> length bs < 128
       \<and> (\<forall>b \<in> set bs. is_valid_account_name (bnf_account b) \<and> uint (bnf_weight b) \<le> 10000)
       \<and> (\<Sum>b\<leftarrow>bs. uint (bnf_weight b)) \<le> 10000
       \<and> beneficiaries_sorted mem bs)
     \<and> (comment_payout_beneficiaries_validate mem bs = Inr () \<longrightarrow> distinct (map bnf_account bs))"
proof (cases "length bs < 128")
  case True
  then have S: "sum_beneficiaries bs 0 = Inr t \<longleftrightarrow>
     (\<forall>b \<in> set bs. is_valid_account_name (bnf_account b) \<and> uint (bnf_weight b) \<le> 10000)
     \<and> uint t = (\<Sum>b\<leftarrow>bs. uint (bnf_weight b))" for t
    using sum_beneficiaries_spec [of 0 bs t] by simp
  have "\<exists>t :: 32 word. uint t = (\<Sum>b\<leftarrow>bs. uint (bnf_weight b))"
    if "(\<Sum>b\<leftarrow>bs. uint (bnf_weight b)) \<le> 10000"
  proof -
    have "0 \<le> (\<Sum>b\<leftarrow>bs. uint (bnf_weight b))" by (rule sum_list_nonneg) auto
    with that show ?thesis
      by (intro exI [of _ "word_of_int (\<Sum>b\<leftarrow>bs. uint (bnf_weight b))"]) (simp add: unsigned_of_int take_bit_int_eq_self)
  qed
  then show ?thesis using True S beneficiaries_sorted_distinct [of mem bs] assms
    by (auto simp: comment_payout_beneficiaries_validate_def STEEMIT_100_PERCENT_def) (metis)
qed (auto simp: comment_payout_beneficiaries_validate_def)

definition demo_mem :: "account_name \<Rightarrow> 8 word list" where
  "demo_mem n = map (\<lambda>i. if i < length n then of_char (n ! i) else 0) [0..<16]"

theorem comment_payout_beneficiaries_exact_witness:
  "comment_payout_beneficiaries_validate demo_mem
     [\<lparr>bnf_account = ''alice'', bnf_weight = 6000\<rparr>, \<lparr>bnf_account = ''bob'', bnf_weight = 4000\<rparr>] = Inr ()
   \<and> comment_payout_beneficiaries_validate demo_mem
     [\<lparr>bnf_account = ''alice'', bnf_weight = 6000\<rparr>, \<lparr>bnf_account = ''bob'', bnf_weight = 4001\<rparr>] \<noteq> Inr ()"
proof -
  have n: "is_valid_account_name ''alice''" "is_valid_account_name ''bob''" by code_simp+
  have "string_less demo_mem ''alice'' ''bob''" by code_simp
  then show ?thesis using comment_payout_beneficiaries_exact [of demo_mem] n
    by (simp add: demo_mem_def)
qed

end
