(* ===== verification/Market.thy ===== *)
theory Market
  imports Ledger_Demo Operations
begin

text \<open>
  The internal market: limit orders, their matching and cancellation (\<^verbatim>\<open>database.cpp\<close>:
  \<open>apply_order\<close>, \<open>match\<close>, \<open>fill_order\<close>, \<open>cancel_order\<close>, \<open>clear_expired_orders\<close>,
  \<open>adjust_liquidity_reward\<close>, \<open>update_pair_depth\<close>, \<open>update_asset_marketed\<close>; \<^verbatim>\<open>steem_evaluator.cpp\<close>:
  the four limit order evaluators). An order is named by its seller and number; a reference to an
  order is a lookup of its row. The assertions of \<open>match\<close> that are compiled out of a release build are
  not modelled. The lemmas follow the money through the exchange, fees of user-issued assets
  included, and bound what a match takes from either order.
\<close>

section \<open>Books of the market\<close>

definition get_order :: "account_name \<times> 32 word \<Rightarrow> database \<Rightarrow> limit_order_object result" where
  "get_order k db = (case t_get k (db_orders db) of
     None \<Rightarrow> Inl (Missing_Object ''limit_order'') | Some o1 \<Rightarrow> Inr o1)"

lemma get_order_Inr [simp]: "get_order k db = Inr o1 \<longleftrightarrow> t_get k (db_orders db) = Some o1"
  by (simp add: get_order_def split: option.splits)

definition update_pair_depth :: "asset \<Rightarrow> asset \<Rightarrow> database \<Rightarrow> database result" where
  "update_pair_depth b q db =
    (let k = (symbol b, symbol q) in
     case t_get k (db_pairs db) of
       Some p \<Rightarrow>
         rbind (asset_add (mp_base_depth p) b) (\<lambda>nb.
         rbind (asset_add (mp_quote_depth p) q) (\<lambda>nq.
         Inr (db\<lparr>db_pairs := (if amount nb = 0 \<and> amount nq = 0 then t_remove k (db_pairs db)
           else t_modify k (\<lambda>_. p\<lparr>mp_base_depth := nb, mp_quote_depth := nq\<rparr>) (db_pairs db))\<rparr>)))
     | None \<Rightarrow> Inr (db\<lparr>db_pairs := t_create k \<lparr>mp_base_depth = b, mp_quote_depth = q\<rparr> (db_pairs db)\<rparr>))"

definition update_asset_marketed :: "asset_symbol_type \<Rightarrow> database \<Rightarrow> database result" where
  "update_asset_marketed s db =
     rbind (check_assert (s \<noteq> VESTS_SYMBOL \<and> s \<noteq> STMD_SYMBOL)) (\<lambda>_.
     if s = STEEM_SYMBOL \<or> s = SBD_SYMBOL then Inr db
     else rbind (get_asset s db) (\<lambda>a.
       Inr (db\<lparr>db_assets := t_modify s (\<lambda>_. a\<lparr>ast_marketed := head_block_time db\<rparr>) (db_assets db)\<rparr>)))"

definition STEEMIT_LIQUIDITY_TIMEOUT_SEC :: int where
  "STEEMIT_LIQUIDITY_TIMEOUT_SEC = 60 * 60 * 24 * 7"

definition adjust_liquidity_reward :: "account_name \<Rightarrow> asset \<Rightarrow> bool \<Rightarrow> database \<Rightarrow> database" where
  "adjust_liquidity_reward n volume is_sdb db =
    (case t_get n (db_liquidity db) of
       Some r \<Rightarrow>
         let r1 = (if head_block_time db - lr_last_update r \<ge> STEEMIT_LIQUIDITY_TIMEOUT_SEC
                   then r\<lparr>lr_sbd_volume := 0, lr_steem_volume := 0, lr_weight := 0\<rparr> else r);
             r2 = (if is_sdb then r1\<lparr>lr_sbd_volume := lr_sbd_volume r1 + word_of_int (amount volume)\<rparr>
                   else r1\<lparr>lr_steem_volume := lr_steem_volume r1 + word_of_int (amount volume)\<rparr>)
         in db\<lparr>db_liquidity := t_modify n (\<lambda>_. (update_weight (has_hardfork 10 db) r2)
              \<lparr>lr_last_update := head_block_time db\<rparr>) (db_liquidity db)\<rparr>
     | None \<Rightarrow>
         let r = \<lparr>lr_steem_volume = (if is_sdb then 0 else word_of_int (amount volume)),
                  lr_sbd_volume = (if is_sdb then word_of_int (amount volume) else 0), lr_weight = 0, lr_last_update = 0\<rparr>
         in db\<lparr>db_liquidity := t_create n ((update_weight (has_hardfork 9 db) r)
              \<lparr>lr_last_update := head_block_time db\<rparr>) (db_liquidity db)\<rparr>)"

section \<open>Filling and cancelling\<close>

definition remove_order :: "account_name \<times> 32 word \<Rightarrow> database \<Rightarrow> database" where
  "remove_order k db = db\<lparr>db_orders := t_remove k (db_orders db)\<rparr>"

definition cancel_order :: "account_name \<times> 32 word \<Rightarrow> database \<Rightarrow> database result" where
  "cancel_order k db =
     rbind (get_order k db) (\<lambda>o1.
     rbind (get_account (lo_seller o1) db) (\<lambda>_.
     rbind (adjust_balance (lo_seller o1) (amount_for_sale o1) db) (\<lambda>db1.
     rbind (asset_neg (amount_for_sale o1)) (\<lambda>m.
     rbind (adjust_market_balance (lo_seller o1) m db1) (\<lambda>db2.
     rbind (amount_to_receive o1) (\<lambda>r.
     rbind (asset_neg r) (\<lambda>mr.
     rbind (update_pair_depth m mr (push_log (Order_Delete_Event o1) db2)) (\<lambda>db3.
     Inr (remove_order k db3)))))))))"

definition fill_order :: "account_name \<times> 32 word \<Rightarrow> asset \<Rightarrow> asset \<Rightarrow> database \<Rightarrow> (bool \<times> database) result" where
  "fill_order k pays receives db =
     rbind (get_order k db) (\<lambda>o1.
     rbind (check_assert (symbol (amount_for_sale o1) = symbol pays)) (\<lambda>_.
     rbind (check_assert (symbol pays \<noteq> symbol receives)) (\<lambda>_.
     rbind (get_account (lo_seller o1) db) (\<lambda>_.
     rbind (adjust_balance (lo_seller o1) receives db) (\<lambda>db1.
     rbind (asset_neg pays) (\<lambda>m.
     rbind (adjust_market_balance (lo_seller o1) m db1) (\<lambda>db2.
     rbind (asset_eq pays (amount_for_sale o1)) (\<lambda>all.
     if all then
       rbind (asset_neg (amount_for_sale o1)) (\<lambda>ms.
       rbind (amount_to_receive o1) (\<lambda>r.
       rbind (asset_neg r) (\<lambda>mr.
       rbind (update_pair_depth ms mr db2) (\<lambda>db3.
       Inr (True, remove_order k db3)))))
     else
       rbind (amount_to_receive o1) (\<lambda>r0.
       rbind (safe64 (lo_for_sale o1 - amount pays)) (\<lambda>left.
       let o2 = o1\<lparr>lo_for_sale := left\<rparr>;
           db3 = db2\<lparr>db_orders := t_modify k (\<lambda>_. o2) (db_orders db2)\<rparr>
       in rbind (amount_to_receive o2) (\<lambda>r1.
       rbind (asset_sub r0 r1) (\<lambda>rec.
       rbind (asset_neg rec) (\<lambda>mr.
       rbind (update_pair_depth m mr db3) (\<lambda>db4.
       if amount r1 = 0 then rbind (cancel_order k db4) (\<lambda>db5. Inr (True, db5))
       else Inr (False, db4)))))))))))))))"

section \<open>Matching\<close>

text \<open>The lambda \<open>subtract_fee\<close>: what is left, the fee, its receiver.\<close>

definition subtract_fee :: "asset \<Rightarrow> database \<Rightarrow> (asset \<times> asset \<times> account_name \<times> database) result" where
  "subtract_fee x db =
    (if symbol x = STEEM_SYMBOL \<or> symbol x = SBD_SYMBOL then Inr (x, mk_asset 0 (symbol x), [], db)
     else rbind (get_asset (symbol x) db) (\<lambda>ast.
       if ast_fee_percent ast \<noteq> 0 \<and> amount x \<noteq> 0 then
         rbind (u128_amount (u128 (amount x) * u128 (int (ast_fee_percent ast)) div u128 STEEMIT_100_PERCENT)) (\<lambda>f0.
         let fee = mk_asset (if has_hardfork 25 db then max f0 1 else f0) (symbol x) in
         rbind (get_account (ast_creator ast) db) (\<lambda>_.
         rbind (adjust_balance (ast_creator ast) fee db) (\<lambda>db1.
         rbind (asset_sub x fee) (\<lambda>y. Inr (y, fee, ast_creator ast, db1)))))
       else Inr (x, mk_asset 0 (symbol x), [], db)))"

definition STEEMIT_MIN_LIQUIDITY_REWARD_PERIOD_SEC :: int where
  "STEEMIT_MIN_LIQUIDITY_REWARD_PERIOD_SEC = 60"

definition STEEMIT_MIN_LIQUIDITY_REWARD_PERIOD_SEC_HF10 :: int where
  "STEEMIT_MIN_LIQUIDITY_REWARD_PERIOD_SEC_HF10 = 60 * 30"

definition liquidity_rewards ::
  "limit_order_object \<Rightarrow> limit_order_object \<Rightarrow> asset \<Rightarrow> asset \<Rightarrow> database \<Rightarrow> database result" where
  "liquidity_rewards new_order old_order old_receives new_receives db =
    (let age = head_block_time db - lo_created old_order in
     if \<not> has_hardfork 12 db
        \<and> (age \<ge> STEEMIT_MIN_LIQUIDITY_REWARD_PERIOD_SEC \<and> \<not> has_hardfork 10 db
           \<or> age \<ge> STEEMIT_MIN_LIQUIDITY_REWARD_PERIOD_SEC_HF10 \<and> has_hardfork 10 db) then
       let sbd = symbol old_receives \<noteq> STEEM_SYMBOL; v = (if sbd then new_receives else old_receives) in
       rbind (get_account (lo_seller old_order) db) (\<lambda>_.
       rbind (get_account (lo_seller new_order) db) (\<lambda>_.
       rbind (asset_neg v) (\<lambda>mv.
       Inr (adjust_liquidity_reward (lo_seller new_order) mv sbd
         (adjust_liquidity_reward (lo_seller old_order) v sbd db)))))
     else Inr db)"

text \<open>What the two orders exchange: what the old one receives and what the new one receives.\<close>

definition trade :: "limit_order_object \<Rightarrow> limit_order_object \<Rightarrow> price \<Rightarrow> (asset \<times> asset) result" where
  "trade new_order old_order match_price =
     rbind (asset_mul_price (amount_for_sale old_order) match_price) (\<lambda>v.
     rbind (asset_le (amount_for_sale new_order) v) (\<lambda>le.
     if le then rbind (asset_mul_price (amount_for_sale new_order) match_price) (\<lambda>r. Inr (amount_for_sale new_order, r))
     else rbind (asset_mul_price (amount_for_sale old_order) match_price) (\<lambda>r. Inr (r, amount_for_sale old_order))))"

definition trade_fees :: "asset \<Rightarrow> asset \<Rightarrow> database \<Rightarrow>
    ((asset \<times> asset \<times> account_name) \<times> (asset \<times> asset \<times> account_name) \<times> database) result" where
  "trade_fees new_receives old_receives db =
    (if has_hardfork 24 db then
       rbind (subtract_fee new_receives db) (\<lambda>(n, nf, nr, db1).
       if has_hardfork 25 db then
         rbind (subtract_fee old_receives db1) (\<lambda>(x, xf, xr, db2). Inr ((n, nf, nr), (x, xf, xr), db2))
       else Inr ((n, nf, nr), (old_receives, mk_asset 0 (symbol old_receives), []), db1))
     else Inr ((new_receives, mk_asset 0 (symbol new_receives), []),
               (old_receives, mk_asset 0 (symbol old_receives), []), db))"

text \<open>\<open>database::match\<close>: the two bits of its result and the state.\<close>

definition match_orders :: "account_name \<times> 32 word \<Rightarrow> account_name \<times> 32 word \<Rightarrow> database \<Rightarrow>
    (bool \<times> bool \<times> database) result" where
  "match_orders kn ko db =
     rbind (get_order kn db) (\<lambda>new_order.
     rbind (get_order ko db) (\<lambda>old_order.
     rbind (trade new_order old_order (lo_sell_price old_order)) (\<lambda>(old_receives, new_receives).
     rbind (liquidity_rewards new_order old_order old_receives new_receives db) (\<lambda>db1.
     rbind (trade_fees new_receives old_receives db1) (\<lambda>((n, nf, nr), (x, xf, xr), db2).
     rbind (fill_order kn old_receives n (push_log (Fill_Order_Op (lo_seller new_order) (lo_orderid new_order) old_receives nf nr
         (lo_seller old_order) (lo_orderid old_order) new_receives xf xr (lo_sell_price old_order)) db2)) (\<lambda>(b1, db3).
     rbind (fill_order ko new_receives x db3) (\<lambda>(b2, db4).
     Inr (b1, b2, db4))))))))"

text \<open>
  The index \<open>by_price\<close>: best price first, older orders first among equal prices; \<open>apply_order\<close> walks
  the orders of the opposite side whose price is at least the inverse of the new one. A match
  changes no order but the two it is about, so the rows can be listed beforehand.
\<close>

fun insert_by :: "('a \<Rightarrow> 'a \<Rightarrow> bool) \<Rightarrow> 'a \<Rightarrow> 'a list \<Rightarrow> 'a list" where
  "insert_by before x [] = [x]"
| "insert_by before x (y # ys) = (if before x y then x # y # ys else y # insert_by before x ys)"

definition sort_by :: "('a \<Rightarrow> 'a \<Rightarrow> bool) \<Rightarrow> 'a list \<Rightarrow> 'a list" where
  "sort_by before xs = foldl (\<lambda>acc x. insert_by before x acc) [] xs"

definition matching_orders :: "limit_order_object \<Rightarrow> database \<Rightarrow> (account_name \<times> 32 word) list result" where
  "matching_orders new_order db =
    (let max_price = price_invert (lo_sell_price new_order) in
     rbind (price_max (symbol (base max_price)) (symbol (quote max_price))) (\<lambda>best.
     Inr (map fst (filter (\<lambda>r. \<not> price_gt (lo_sell_price (snd r)) best \<and> \<not> price_gt max_price (lo_sell_price (snd r)))
       (sort_by (\<lambda>a b. price_gt (lo_sell_price (snd a)) (lo_sell_price (snd b))) (db_orders db))))))"

fun match_loop :: "account_name \<times> 32 word \<Rightarrow> (account_name \<times> 32 word) list \<Rightarrow> database \<Rightarrow> database result" where
  "match_loop kn [] db = Inr db"
| "match_loop kn (k # ks) db = rbind (match_orders kn k db) (\<lambda>(new_filled, old_filled, db1).
     if new_filled then Inr db1 else match_loop kn ks db1)"

definition apply_order :: "account_name \<times> 32 word \<Rightarrow> database \<Rightarrow> (bool \<times> database) result" where
  "apply_order kn db =
     rbind (get_order kn db) (\<lambda>new_order.
     rbind (matching_orders new_order db) (\<lambda>ks.
     rbind (match_loop kn ks db) (\<lambda>db1.
     Inr (t_get kn (db_orders db1) = None, db1))))"

section \<open>Evaluators\<close>

definition check_whitelists :: "asset_symbol_type \<Rightarrow> asset_symbol_type \<Rightarrow> database \<Rightarrow> unit result" where
  "check_whitelists a b db =
    (if a = STEEM_SYMBOL \<or> a = SBD_SYMBOL then Inr ()
     else rbind (get_asset a db) (\<lambda>ast. check_value (whitelists ast b)))"

text \<open>What the two order evaluators share; \<open>to_receive\<close> is taken of the new order.\<close>

definition place_order :: "account_name \<Rightarrow> 32 word \<Rightarrow> int \<Rightarrow> asset \<Rightarrow> asset_symbol_type \<Rightarrow> bool \<Rightarrow> price result
    \<Rightarrow> (limit_order_object \<Rightarrow> asset result) \<Rightarrow> database \<Rightarrow> database result" where
  "place_order n i expires sell receive fill_or_kill rate to_receive db =
     rbind (check_logic ''limit_order_must_be_for_golos_gbg_market'' (has_hardfork 24 db
         \<or> symbol sell = STEEM_SYMBOL \<and> receive = SBD_SYMBOL \<or> symbol sell = SBD_SYMBOL \<and> receive = STEEM_SYMBOL)) (\<lambda>_.
     rbind (check_whitelists (symbol sell) receive db) (\<lambda>_.
     rbind (check_whitelists receive (symbol sell) db) (\<lambda>_.
     rbind (check_param ''expiration'' (check_value (expires > head_block_time db))) (\<lambda>_.
     rbind (get_account n db) (\<lambda>_.
     rbind (check_balance n MAIN_BALANCE sell db) (\<lambda>_.
     rbind (asset_neg sell) (\<lambda>m.
     rbind (adjust_balance n m db) (\<lambda>db1.
     rbind (adjust_market_balance n sell db1) (\<lambda>db2.
     rbind (throw_if_exists_limit_order n i db2) (\<lambda>_.
     rbind rate (\<lambda>p.
     let order = \<lparr>lo_created = head_block_time db2, lo_expiration = expires, lo_seller = n, lo_orderid = i,
           lo_for_sale = amount sell, lo_symbol = symbol sell, lo_sell_price = p\<rparr> in
     rbind (t_insert (n, i) order (db_orders db2)) (\<lambda>t.
     rbind (to_receive order) (\<lambda>rec.
     rbind (apply_order (n, i) (push_log (Order_Create_Event order) (db2\<lparr>db_orders := t\<rparr>))) (\<lambda>(filled, db3).
     rbind (check_logic ''cancelling_not_filled_order'' (fill_or_kill \<longrightarrow> filled)) (\<lambda>_.
     rbind (update_asset_marketed (symbol sell) db3) (\<lambda>db4.
     rbind (update_asset_marketed receive db4) (\<lambda>db5.
     update_pair_depth sell rec db5)))))))))))))))))"

definition limit_order_create_apply :: "limit_order_create_operation \<Rightarrow> database \<Rightarrow> database result" where
  "limit_order_create_apply o1 = place_order (loc_owner o1) (loc_orderid o1) (loc_expiration o1)
     (loc_amount_to_sell o1) (symbol (loc_min_to_receive o1)) (loc_fill_or_kill o1)
     (loc_get_price o1) (\<lambda>_. Inr (loc_min_to_receive o1))"

definition limit_order_create2_apply :: "limit_order_create2_operation \<Rightarrow> database \<Rightarrow> database result" where
  "limit_order_create2_apply o1 = place_order (lo2_owner o1) (lo2_orderid o1) (lo2_expiration o1)
     (lo2_amount_to_sell o1) (symbol (quote (lo2_exchange_rate o1))) (lo2_fill_or_kill o1)
     (Inr (lo2_exchange_rate o1)) amount_to_receive"

definition limit_order_cancel_apply :: "limit_order_cancel_operation \<Rightarrow> database \<Rightarrow> database result" where
  "limit_order_cancel_apply o1 db =
     rbind (get_limit_order (lca_owner o1) (lca_orderid o1) db) (\<lambda>order.
     cancel_order (lo_seller order, lo_orderid order) db)"

text \<open>
  The extension that cancels all orders of a pair: orders of the owner by number; the loop stops
  once more than 100 were cancelled.
\<close>

definition pair_selects :: "pair_to_cancel \<Rightarrow> limit_order_object \<Rightarrow> bool result" where
  "pair_selects p o1 =
    (if ptc_base p \<noteq> [] \<or> ptc_quote p \<noteq> [] then
       rbind (symbol_name (base (lo_sell_price o1))) (\<lambda>b.
       rbind (symbol_name (quote (lo_sell_price o1))) (\<lambda>q.
       Inr (\<not> (ptc_base p \<noteq> [] \<and> b \<noteq> ptc_base p \<and> (\<not> ptc_reverse p \<or> q \<noteq> ptc_base p)
              \<or> ptc_quote p \<noteq> [] \<and> q \<noteq> ptc_quote p \<and> (\<not> ptc_reverse p \<or> b \<noteq> ptc_quote p)))))
     else Inr True)"

fun cancel_pair_loop :: "pair_to_cancel \<Rightarrow> (account_name \<times> 32 word) list \<Rightarrow> nat \<Rightarrow> database \<Rightarrow> database result" where
  "cancel_pair_loop p [] cancelled db = Inr db"
| "cancel_pair_loop p (k # ks) cancelled db =
    (if cancelled \<le> 100 then
       rbind (get_order k db) (\<lambda>o1.
       rbind (pair_selects p o1) (\<lambda>yes.
       if yes then rbind (cancel_order k db) (cancel_pair_loop p ks (Suc cancelled))
       else cancel_pair_loop p ks cancelled db))
     else Inr db)"

definition cancel_pair :: "account_name \<Rightarrow> pair_to_cancel \<Rightarrow> database \<Rightarrow> database result" where
  "cancel_pair owner p db = cancel_pair_loop p
     (sort_by (\<lambda>a b. snd a < snd b) (map fst (filter (\<lambda>r. lo_seller (snd r) = owner) (db_orders db)))) 0 db"

fun cancel_pairs :: "account_name \<Rightarrow> pair_to_cancel list \<Rightarrow> database \<Rightarrow> database result" where
  "cancel_pairs owner [] db = Inr db"
| "cancel_pairs owner (p # ps) db = rbind (cancel_pair owner p db) (cancel_pairs owner ps)"

definition limit_order_cancel_ex_apply :: "limit_order_cancel_ex_operation \<Rightarrow> database \<Rightarrow> database result" where
  "limit_order_cancel_ex_apply o1 db =
     rbind (check (has_hardfork 24 db) Unsupported_Operation) (\<lambda>_.
     rbind (cancel_pairs (lcx_owner o1) (lcx_extensions o1) db) (\<lambda>db1.
     if lcx_extensions o1 = [] then
       rbind (get_limit_order (lcx_owner o1) (lcx_orderid o1) db1) (\<lambda>order.
       cancel_order (lo_seller order, lo_orderid order) db1)
     else Inr db1))"

text \<open>The index \<open>by_expiration\<close>.\<close>

definition order_expires_before :: "limit_order_object \<Rightarrow> limit_order_object \<Rightarrow> bool" where
  "order_expires_before a b \<longleftrightarrow> lo_expiration a < lo_expiration b"

definition order_expired :: "database \<Rightarrow> limit_order_object \<Rightarrow> bool" where
  "order_expired db o1 \<longleftrightarrow> lo_expiration o1 < head_block_time db"

definition expire_order :: "limit_order_object \<Rightarrow> database \<Rightarrow> database result" where
  "expire_order o1 = cancel_order (lo_seller o1, lo_orderid o1)"

definition clear_expired_orders :: "database \<Rightarrow> database result" where
  "clear_expired_orders db =
     process_due (length (db_orders db)) db_orders order_expires_before order_expired expire_order db"

section \<open>Following the money\<close>

text \<open>
  A step of the market from one state to the next: what it adds to the gap of every symbol, and what
  it does not touch (the other pending objects, the settings, the withdrawal counters).
\<close>

definition side_frame :: "database \<Rightarrow> database \<Rightarrow> bool" where
  "side_frame db db' \<longleftrightarrow> db_hardfork db' = db_hardfork db \<and> head_block_time db' = head_block_time db
     \<and> db_escrows db' = db_escrows db \<and> db_withdraws db' = db_withdraws db \<and> db_converts db' = db_converts db
     \<and> (\<forall>n. map_option acc_savings_withdraw_requests (t_get n (db_accounts db'))
           = map_option acc_savings_withdraw_requests (t_get n (db_accounts db)))"

definition moves :: "(asset_symbol_type \<Rightarrow> int) \<Rightarrow> database \<Rightarrow> database \<Rightarrow> bool" where
  "moves d db db' \<longleftrightarrow> wf_db db' \<and> (\<forall>s. gap s db' = gap s db + d s) \<and> side_frame db db'"

lemma side_frameD:
  "side_frame db db' \<Longrightarrow> requests_of db' = requests_of db" "side_frame db db' \<Longrightarrow> db_escrows db' = db_escrows db"
  by (simp_all add: side_frame_def requests_of_def)

lemma side_frame_trans: "side_frame a b \<Longrightarrow> side_frame b c \<Longrightarrow> side_frame a c"
  by (simp add: side_frame_def)

lemma ledger_side_frame: "ledger_frame db db' \<Longrightarrow> side_frame db db'"
  by (simp add: ledger_frame_def side_frame_def)

lemma moves_trans: "moves d1 a b \<Longrightarrow> moves d2 b c \<Longrightarrow> moves (\<lambda>s. d1 s + d2 s) a c"
  by (auto simp: moves_def intro: side_frame_trans)

lemma moves_refl: "wf_db db \<Longrightarrow> moves (\<lambda>_. 0) db db"
  by (simp add: moves_def side_frame_def)

lemma moves_cong: "moves d a b \<Longrightarrow> (\<And>s. d s = d' s) \<Longrightarrow> moves d' a b"
  by (simp add: moves_def)

lemma moves_wf: "moves d a b \<Longrightarrow> wf_db b"
  by (simp add: moves_def)

lemma moves_credit: "adjust_balance n x db = Inr db' \<Longrightarrow> wf_db db \<Longrightarrow> moves (\<lambda>s. - asset_in s x) db db'"
  using pay_out ledger_side_frame by (simp add: moves_def)

lemma moves_market: "adjust_market_balance n x db = Inr db' \<Longrightarrow> wf_db db \<Longrightarrow> moves (\<lambda>_. 0) db db'"
  using adjust_market_balance_ledger adjust_market_balance_frame ledger_side_frame by (simp add: moves_def)

lemma moves_log: "wf_db db \<Longrightarrow> moves (\<lambda>_. 0) db (push_log e db)"
  using ledger_side_frame [OF frame_push_log] by (simp add: moves_def)

lemma moves_pairs: "wf_db db \<Longrightarrow> moves (\<lambda>_. 0) db (db\<lparr>db_pairs := t\<rparr>)"
  by (simp add: moves_def wf_db_def gap_def held_def issued_def side_frame_def)

lemma moves_liquidity: "wf_db db \<Longrightarrow> moves (\<lambda>_. 0) db (db\<lparr>db_liquidity := t\<rparr>)"
  by (simp add: moves_def wf_db_def gap_def held_def issued_def side_frame_def)

lemma moves_update_pair_depth: "update_pair_depth b q db = Inr db' \<Longrightarrow> wf_db db \<Longrightarrow> moves (\<lambda>_. 0) db db'"
  by (auto simp: update_pair_depth_def Let_def moves_pairs split: option.splits)

lemma moves_update_asset_marketed: "update_asset_marketed x db = Inr db' \<Longrightarrow> wf_db db \<Longrightarrow> moves (\<lambda>_. 0) db db'"
  using wf_asset_at [of db x]
  by (auto simp: update_asset_marketed_def moves_def side_frame_def gap_def held_def issued_def wf_db_def tbl.total_modify
      tbl.wf_modify wf_asset_def intro!: t_all_modify_const split: if_splits)

lemma moves_adjust_liquidity_reward: "wf_db db \<Longrightarrow> moves (\<lambda>_. 0) db (adjust_liquidity_reward n v b db)"
  by (auto simp: adjust_liquidity_reward_def Let_def moves_liquidity split: option.splits)

lemma moves_liquidity_rewards: "liquidity_rewards a b x y db = Inr db' \<Longrightarrow> wf_db db \<Longrightarrow> moves (\<lambda>_. 0) db db'"
  using moves_trans [OF moves_adjust_liquidity_reward moves_adjust_liquidity_reward] moves_wf [OF moves_adjust_liquidity_reward]
  by (auto simp: liquidity_rewards_def Let_def moves_refl split: if_splits intro: moves_cong)

lemma moves_remove_order:
  assumes "wf_db db" "t_get k (db_orders db) = Some o1"
  shows "moves (\<lambda>s. asset_in s (amount_for_sale o1)) db (remove_order k db)"
  using gap_orders(1) [OF assms] wf_rows_remove(4) [OF assms(1)] by (simp add: moves_def remove_order_def side_frame_def)

lemma update_pair_depth_orders: "update_pair_depth b q db = Inr db' \<Longrightarrow> db_orders db' = db_orders db"
  by (auto simp: update_pair_depth_def Let_def split: option.splits)

lemma push_log_orders [simp]: "db_orders (push_log e db) = db_orders db"
  by (simp add: push_log_def)

lemma cancel_order_moves:
  assumes cn: "cancel_order k db = Inr db'" and wf: "wf_db db"
  shows "moves (\<lambda>_. 0) db db' \<and> db_orders db' = t_remove k (db_orders db)"
proof -
  obtain o1 m r mr db1 db2 db3 where o1: "t_get k (db_orders db) = Some o1"
    and a1: "adjust_balance (lo_seller o1) (amount_for_sale o1) db = Inr db1"
    and a2: "adjust_market_balance (lo_seller o1) m db1 = Inr db2"
    and a3: "update_pair_depth m mr (push_log (Order_Delete_Event o1) db2) = Inr db3"
    and db': "db' = remove_order k db3"
    using cn by (auto simp: cancel_order_def simp del: asset_neg_Inr)
  note 1 = moves_credit [OF a1 wf]
  note 2 = moves_market [OF a2 moves_wf [OF 1]]
  note 3 = moves_log [OF moves_wf [OF 2], of "Order_Delete_Event o1"]
  note 4 = moves_update_pair_depth [OF a3 moves_wf [OF 3]]
  have same: "db_orders db3 = db_orders db"
    using update_pair_depth_orders [OF a3] adjust_balance_frame [OF a1] adjust_market_balance_frame [OF a2]
    by (simp add: ledger_frameD)
  have 5: "moves (\<lambda>s. asset_in s (amount_for_sale o1)) db3 db'"
    unfolding db' using moves_remove_order [OF moves_wf [OF 4]] o1 same by simp
  have "moves (\<lambda>_. 0) db db'"
    by (rule moves_cong [OF moves_trans [OF moves_trans [OF moves_trans [OF moves_trans [OF 1 2] 3] 4] 5]]) simp
  then show ?thesis using same by (simp add: db' remove_order_def)
qed

lemma moves_modify_order:
  assumes "wf_db db" "t_get k (db_orders db) = Some o1"
  shows "moves (\<lambda>s. asset_in s (amount_for_sale o1) - asset_in s (amount_for_sale (o1\<lparr>lo_for_sale := x\<rparr>))) db
    (db\<lparr>db_orders := t_modify k (\<lambda>_. o1\<lparr>lo_for_sale := x\<rparr>) (db_orders db)\<rparr>)"
  using gap_orders(2) [OF assms, of _ "o1\<lparr>lo_for_sale := x\<rparr>"] wf_rows_modify(2) [OF assms(1), of k "o1\<lparr>lo_for_sale := x\<rparr>"]
    wf_order_at [OF assms] by (simp add: moves_def side_frame_def wf_order_def)

text \<open>The part both branches of \<open>fill_order\<close> share, and the rest of each.\<close>

lemma fill_order_cases:
  assumes fo: "fill_order k pays receives db = Inr (b, db')" and wf: "wf_db db"
  obtains o1 db2 where "t_get k (db_orders db) = Some o1" "symbol (amount_for_sale o1) = symbol pays"
    "moves (\<lambda>s. - asset_in s receives) db db2" "db_orders db2 = db_orders db"
    "b \<and> amount pays = lo_for_sale o1 \<and> (\<exists>db3 ms mr. update_pair_depth ms mr db2 = Inr db3 \<and> db' = remove_order k db3)
     \<or> (\<exists>db4 m mr. amount pays \<noteq> lo_for_sale o1 \<and>
         update_pair_depth m mr (db2\<lparr>db_orders := t_modify k (\<lambda>_. o1\<lparr>lo_for_sale := lo_for_sale o1 - amount pays\<rparr>) (db_orders db2)\<rparr>) = Inr db4
         \<and> (b \<and> cancel_order k db4 = Inr db' \<or> \<not> b \<and> db' = db4))"
proof -
  obtain o1 m db1 db2 all where o1: "t_get k (db_orders db) = Some o1" and sy: "symbol (amount_for_sale o1) = symbol pays"
    and a1: "adjust_balance (lo_seller o1) receives db = Inr db1" and a2: "adjust_market_balance (lo_seller o1) m db1 = Inr db2"
    and eq: "asset_eq pays (amount_for_sale o1) = Inr all"
    and rest: "(if all then
       rbind (asset_neg (amount_for_sale o1)) (\<lambda>ms. rbind (amount_to_receive o1) (\<lambda>r. rbind (asset_neg r) (\<lambda>mr.
       rbind (update_pair_depth ms mr db2) (\<lambda>db3. Inr (True, remove_order k db3)))))
     else
       rbind (amount_to_receive o1) (\<lambda>r0. rbind (safe64 (lo_for_sale o1 - amount pays)) (\<lambda>left.
       let o2 = o1\<lparr>lo_for_sale := left\<rparr>; db3 = db2\<lparr>db_orders := t_modify k (\<lambda>_. o2) (db_orders db2)\<rparr>
       in rbind (amount_to_receive o2) (\<lambda>r1. rbind (asset_sub r0 r1) (\<lambda>rec. rbind (asset_neg rec) (\<lambda>mr.
       rbind (update_pair_depth m mr db3) (\<lambda>db4.
       if amount r1 = 0 then rbind (cancel_order k db4) (\<lambda>db5. Inr (True, db5)) else Inr (False, db4)))))))) = Inr (b, db')"
    using fo unfolding fill_order_def by (auto simp del: asset_neg_Inr)
  have all: "all \<longleftrightarrow> amount pays = lo_for_sale o1" using eq sy by (auto simp: asset_eq_def amount_for_sale_def)
  note 1 = moves_credit [OF a1 wf]
  have "moves (\<lambda>s. - asset_in s receives) db db2"
    by (rule moves_cong [OF moves_trans [OF 1 moves_market [OF a2 moves_wf [OF 1]]]]) simp
  moreover have "db_orders db2 = db_orders db"
    using adjust_balance_frame [OF a1] adjust_market_balance_frame [OF a2] by (simp add: ledger_frameD)
  ultimately show thesis using rest all by (intro that [OF o1 sy, of db2]) (auto simp: Let_def split: if_splits)
qed

lemma fill_order_moves:
  assumes fo: "fill_order k pays receives db = Inr (b, db')" and wf: "wf_db db"
  shows "moves (\<lambda>s. asset_in s pays - asset_in s receives) db db'
    \<and> (b \<longleftrightarrow> t_get k (db_orders db') = None) \<and> (\<forall>k'. k' \<noteq> k \<longrightarrow> t_get k' (db_orders db') = t_get k' (db_orders db))"
proof (cases rule: fill_order_cases [OF fo wf])
  case (1 o1 db2)
  have sold: "asset_in s (amount_for_sale o1) - asset_in s (amount_for_sale (o1\<lparr>lo_for_sale := lo_for_sale o1 - amount pays\<rparr>)) = asset_in s pays" for s
    using 1(2) by (simp add: amount_for_sale_def asset_in_def)
  have row: "t_get k (db_orders db2) = Some o1" using 1(1,4) by simp
  from 1(5) show ?thesis
  proof (elim disjE conjE exE)
    fix db3 ms mr
    assume b: "b" "amount pays = lo_for_sale o1" and u: "update_pair_depth ms mr db2 = Inr db3" and db': "db' = remove_order k db3"
    note 2 = moves_update_pair_depth [OF u moves_wf [OF 1(3)]]
    have row3: "t_get k (db_orders db3) = Some o1" using row update_pair_depth_orders [OF u] by simp
    note 3 = moves_remove_order [OF moves_wf [OF 2] row3]
    have "asset_in s (amount_for_sale o1) = asset_in s pays" for s using 1(2) b(2) by (simp add: amount_for_sale_def asset_in_def)
    then have "moves (\<lambda>s. asset_in s pays - asset_in s receives) db db'"
      unfolding db' by (intro moves_cong [OF moves_trans [OF moves_trans [OF 1(3) 2] 3]]) simp
    then show ?thesis using b 1(4) update_pair_depth_orders [OF u] by (simp add: db' remove_order_def t_get_remove)
  next
    fix db4 m mr
    assume ne: "amount pays \<noteq> lo_for_sale o1"
      and u: "update_pair_depth m mr (db2\<lparr>db_orders := t_modify k (\<lambda>_. o1\<lparr>lo_for_sale := lo_for_sale o1 - amount pays\<rparr>) (db_orders db2)\<rparr>) = Inr db4"
    note 2 = moves_modify_order [OF moves_wf [OF 1(3)] row, of "lo_for_sale o1 - amount pays"]
    note 3 = moves_update_pair_depth [OF u moves_wf [OF 2]]
    have M: "moves (\<lambda>s. asset_in s pays - asset_in s receives) db db4"
      by (rule moves_cong [OF moves_trans [OF moves_trans [OF 1(3) 2] 3]]) (simp add: sold)
    have O: "db_orders db4 = t_modify k (\<lambda>_. o1\<lparr>lo_for_sale := lo_for_sale o1 - amount pays\<rparr>) (db_orders db)"
      using update_pair_depth_orders [OF u] 1(4) by simp
    {
      assume b: "b" and c: "cancel_order k db4 = Inr db'"
      note C = cancel_order_moves [OF c moves_wf [OF M]]
      have "moves (\<lambda>s. asset_in s pays - asset_in s receives) db db'"
        by (rule moves_cong [OF moves_trans [OF M conjunct1 [OF C]]]) simp
      then show ?thesis using b C O by (simp add: t_get_remove t_get_modify)
    next
      assume "\<not> b" "db' = db4"
      then show ?thesis using M O 1(1) by (simp add: t_get_modify)
    }
  qed
qed

lemma subtract_fee_cases:
  assumes "subtract_fee x db = Inr (y, fee, r, db')"
  shows "y = x \<and> db' = db \<or> (\<exists>n f. adjust_balance n (mk_asset f (symbol x)) db = Inr db'
    \<and> asset_sub x (mk_asset f (symbol x)) = Inr y)"
proof (cases "symbol x = STEEM_SYMBOL \<or> symbol x = SBD_SYMBOL")
  case True
  then show ?thesis using assms by (simp add: subtract_fee_def)
next
  case False
  with assms obtain ast where "get_asset (symbol x) db = Inr ast" by (auto simp: subtract_fee_def)
  with assms False show ?thesis
    by (cases "ast_fee_percent ast \<noteq> 0 \<and> amount x \<noteq> 0") (auto simp: subtract_fee_def Let_def simp del: asset_sub_Inr)
qed

lemma subtract_fee_moves:
  assumes sf: "subtract_fee x db = Inr (y, fee, r, db')" and wf: "wf_db db"
  shows "moves (\<lambda>s. asset_in s y - asset_in s x) db db' \<and> db_orders db' = db_orders db \<and> symbol y = symbol x"
  using subtract_fee_cases [OF sf]
proof (elim disjE exE conjE)
  fix n f
  assume a: "adjust_balance n (mk_asset f (symbol x)) db = Inr db'" and y: "asset_sub x (mk_asset f (symbol x)) = Inr y"
  have "asset_in s y - asset_in s x = - asset_in s (mk_asset f (symbol x))" for s using y by (simp add: asset_in_def)
  then have "moves (\<lambda>s. asset_in s y - asset_in s x) db db'" by (intro moves_cong [OF moves_credit [OF a wf]]) simp
  then show ?thesis using adjust_balance_frame [OF a] y by (simp add: ledger_frameD)
qed (use wf moves_refl in simp)

lemma trade_fees_moves:
  assumes "trade_fees x y db = Inr ((n, nf, nr), (o1, xf, xr), db')" "wf_db db"
  shows "moves (\<lambda>s. asset_in s n + asset_in s o1 - asset_in s x - asset_in s y) db db' \<and> db_orders db' = db_orders db"
proof (cases "has_hardfork 24 db")
  case False
  then show ?thesis using assms moves_refl by (auto simp: trade_fees_def)
next
  case h24: True
  then obtain db1 where f1: "subtract_fee x db = Inr (n, nf, nr, db1)"
    and r: "if has_hardfork 25 db then subtract_fee y db1 = Inr (o1, xf, xr, db') else o1 = y \<and> db' = db1"
    using assms(1) by (auto simp: trade_fees_def split: if_splits)
  note 1 = subtract_fee_moves [OF f1 assms(2)]
  show ?thesis
  proof (cases "has_hardfork 25 db")
    case True
    note 2 = subtract_fee_moves [OF r [unfolded if_P [OF True]] moves_wf [OF conjunct1 [OF 1]]]
    have "moves (\<lambda>s. asset_in s n + asset_in s o1 - asset_in s x - asset_in s y) db db'"
      by (rule moves_cong [OF moves_trans [OF conjunct1 [OF 1] conjunct1 [OF 2]]]) simp
    then show ?thesis using 1 2 by simp
  next
    case False
    then show ?thesis using 1 r by (auto intro: moves_cong)
  qed
qed

lemma match_orders_moves:
  assumes mo: "match_orders kn ko db = Inr (b1, b2, db')" and wf: "wf_db db" and ne: "kn \<noteq> ko"
  shows "moves (\<lambda>_. 0) db db' \<and> (b1 \<longleftrightarrow> t_get kn (db_orders db') = None) \<and> (b2 \<longleftrightarrow> t_get ko (db_orders db') = None)
    \<and> (\<forall>k. k \<notin> {kn, ko} \<longrightarrow> t_get k (db_orders db') = t_get k (db_orders db))"
proof -
  obtain x y db1 n nf nr z xf xr db2 ev db3 where
    l: "\<exists>a b. liquidity_rewards a b x y db = Inr db1"
    and tf: "trade_fees y x db1 = Inr ((n, nf, nr), (z, xf, xr), db2)"
    and f1: "fill_order kn x n (push_log ev db2) = Inr (b1, db3)" and f2: "fill_order ko y z db3 = Inr (b2, db')"
    using mo unfolding match_orders_def by (auto simp: split_beta) blast
  obtain a b where l: "liquidity_rewards a b x y db = Inr db1" using l by blast
  note 1 = moves_liquidity_rewards [OF l wf]
  note 2 = trade_fees_moves [OF tf moves_wf [OF 1]]
  note 3 = moves_log [OF moves_wf [OF conjunct1 [OF 2]], of ev]
  note 4 = fill_order_moves [OF f1 moves_wf [OF 3]]
  note 5 = fill_order_moves [OF f2 moves_wf [OF conjunct1 [OF 4]]]
  have "moves (\<lambda>_. 0) db db'"
    by (rule moves_cong [OF moves_trans [OF moves_trans [OF moves_trans [OF moves_trans [OF 1 conjunct1 [OF 2]] 3]
      conjunct1 [OF 4]] conjunct1 [OF 5]]]) simp
  moreover have "db_orders db1 = db_orders db" using l
    by (auto simp: liquidity_rewards_def Let_def adjust_liquidity_reward_def split: if_splits option.splits)
  ultimately show ?thesis using 2 4 5 ne by (auto simp del: split_paired_All)
qed

lemma match_loop_moves:
  assumes "match_loop kn ks db = Inr db'" "wf_db db" "kn \<notin> set ks"
  shows "moves (\<lambda>_. 0) db db'"
  using assms
proof (induction ks arbitrary: db)
  case Nil
  then show ?case using moves_refl by simp
next
  case (Cons k ks)
  obtain b1 b2 db1 where m: "match_orders kn k db = Inr (b1, b2, db1)"
    and r: "if b1 then db' = db1 else match_loop kn ks db1 = Inr db'"
    using Cons.prems(1) by (auto simp: split_beta split: if_splits)
  have M: "moves (\<lambda>_. 0) db db1" using match_orders_moves [OF m Cons.prems(2)] Cons.prems(3) by auto
  show ?case
  proof (cases b1)
    case True
    then show ?thesis using M r by simp
  next
    case False
    then have "moves (\<lambda>_. 0) db1 db'" using Cons.IH [of db1] r moves_wf [OF M] Cons.prems(3) by auto
    then show ?thesis by (intro moves_cong [OF moves_trans [OF M]]) simp_all
  qed
qed

text \<open>The new order is not among those it is matched with: they are on the other side of the pair.\<close>

lemma set_insert_by [simp]: "set (insert_by before x ys) = insert x (set ys)"
  by (induction ys) auto

lemma set_sort_by [simp]: "set (sort_by before xs) = set xs"
proof -
  have "set (foldl (\<lambda>acc x. insert_by before x acc) acc xs) = set acc \<union> set xs" for acc
    by (induction xs arbitrary: acc) auto
  then show ?thesis by (simp add: sort_by_def)
qed

lemma price_ge_same_pair:
  assumes "\<not> price_gt p best" "\<not> price_gt m p" "symbol (base best) = symbol (base m)" "symbol (quote best) = symbol (quote m)"
  shows "symbol (base p) = symbol (base m) \<and> symbol (quote p) = symbol (quote m)"
  using assms by (auto simp: price_gt_def price_le_def price_eq_def price_lt_def split: if_splits)

lemma matching_orders_sound:
  assumes mk: "matching_orders n db = Inr ks" and k: "k \<in> set ks" and wf: "t_wf (db_orders db)"
  shows "\<exists>o1. t_get k (db_orders db) = Some o1 \<and> symbol (base (lo_sell_price o1)) = symbol (quote (lo_sell_price n))
    \<and> symbol (quote (lo_sell_price o1)) = symbol (base (lo_sell_price n))
    \<and> \<not> price_gt (price_invert (lo_sell_price n)) (lo_sell_price o1)"
proof -
  obtain best o1 where best: "price_max (symbol (quote (lo_sell_price n))) (symbol (base (lo_sell_price n))) = Inr best"
    and o1: "(k, o1) \<in> set (db_orders db)" and g: "\<not> price_gt (lo_sell_price o1) best"
      "\<not> price_gt (price_invert (lo_sell_price n)) (lo_sell_price o1)"
    using mk k by (auto simp: matching_orders_def Let_def price_invert_def)
  have "symbol (base best) = symbol (quote (lo_sell_price n))" "symbol (quote best) = symbol (base (lo_sell_price n))"
    using best by (auto simp: price_max_def asset_div_asset_def)
  with price_ge_same_pair [OF g] have "symbol (base (lo_sell_price o1)) = symbol (quote (lo_sell_price n))
    \<and> symbol (quote (lo_sell_price o1)) = symbol (base (lo_sell_price n))" by (simp add: price_invert_def)
  moreover have "t_get k (db_orders db) = Some o1" using o1 wf by (simp add: t_get_def t_wf_def)
  ultimately show ?thesis using g(2) by blast
qed

lemma apply_order_moves:
  assumes ap: "apply_order kn db = Inr (b, db')" and wf: "wf_db db" and row: "t_get kn (db_orders db) = Some n"
    and pair: "symbol (base (lo_sell_price n)) \<noteq> symbol (quote (lo_sell_price n))"
  shows "moves (\<lambda>_. 0) db db'"
proof -
  obtain ks where ks: "matching_orders n db = Inr ks" and l: "match_loop kn ks db = Inr db'"
    using ap row by (auto simp: apply_order_def)
  have "kn \<notin> set ks" using matching_orders_sound [OF ks] wf row pair by (fastforce simp: wf_db_def)
  then show ?thesis using match_loop_moves [OF l wf] by blast
qed

lemma moves_create_order:
  assumes "wf_db db" "t_get (n, i) (db_orders db) = None" "lo_seller o1 = n" "lo_orderid o1 = i"
  shows "moves (\<lambda>s. - asset_in s (amount_for_sale o1)) db (db\<lparr>db_orders := t_create (n, i) o1 (db_orders db)\<rparr>)"
  using wf_rows_create(4) [OF assms(1,2)] assms(3,4) by (simp add: moves_def gap_orders_create side_frame_def wf_order_def)

lemma place_order_moves:
  assumes po: "place_order n i expires sell receive fok rate to_receive db = Inr db'" and wf: "wf_db db"
    and p: "\<And>p. rate = Inr p \<Longrightarrow> symbol (base p) = symbol sell \<and> symbol (quote p) = receive" and ne: "symbol sell \<noteq> receive"
  shows "moves (\<lambda>_. 0) db db'"
proof -
  obtain m db1 db2 p order b db3 db4 db5 rec where neg: "asset_neg sell = Inr m"
    and a1: "adjust_balance n m db = Inr db1" and a2: "adjust_market_balance n sell db1 = Inr db2"
    and r: "rate = Inr p" and order: "order = \<lparr>lo_created = head_block_time db2, lo_expiration = expires, lo_seller = n,
        lo_orderid = i, lo_for_sale = amount sell, lo_symbol = symbol sell, lo_sell_price = p\<rparr>"
    and free: "t_get (n, i) (db_orders db2) = None"
    and ap: "apply_order (n, i) (push_log (Order_Create_Event order) (db2\<lparr>db_orders := t_create (n, i) order (db_orders db2)\<rparr>)) = Inr (b, db3)"
    and u1: "update_asset_marketed (symbol sell) db3 = Inr db4" and u2: "update_asset_marketed receive db4 = Inr db5"
    and u3: "update_pair_depth sell rec db5 = Inr db'"
    using po unfolding place_order_def by (auto simp: Let_def simp del: asset_neg_Inr)
  let ?o = "Order_Create_Event order"
  note sy = p [OF r]
  have held: "asset_in s (amount_for_sale order) = asset_in s sell" for s
    using sy by (simp add: order amount_for_sale_def asset_in_def)
  have 1: "moves (\<lambda>s. asset_in s sell) db db1"
    by (rule moves_cong [OF moves_credit [OF a1 wf]]) (use neg in \<open>simp add: asset_in_neg\<close>)
  note 2 = moves_market [OF a2 moves_wf [OF 1]]
  have 3: "moves (\<lambda>s. - asset_in s sell) db2 (db2\<lparr>db_orders := t_create (n, i) order (db_orders db2)\<rparr>)"
    by (rule moves_cong [OF moves_create_order [OF moves_wf [OF 2] free]]) (simp_all add: order, simp add: held [unfolded order])
  note 4 = moves_log [OF moves_wf [OF 3], of ?o]
  have row: "t_get (n, i) (db_orders (push_log ?o (db2\<lparr>db_orders := t_create (n, i) order (db_orders db2)\<rparr>))) = Some order"
    using free by (simp add: tbl.get_create)
  have "symbol (base (lo_sell_price order)) \<noteq> symbol (quote (lo_sell_price order))" using sy ne by (simp add: order)
  note 5 = apply_order_moves [OF ap moves_wf [OF 4] row this]
  note 6 = moves_update_asset_marketed [OF u1 moves_wf [OF 5]]
  note 7 = moves_update_asset_marketed [OF u2 moves_wf [OF 6]]
  note 8 = moves_update_pair_depth [OF u3 moves_wf [OF 7]]
  show ?thesis
    by (rule moves_cong [OF moves_trans [OF moves_trans [OF moves_trans [OF moves_trans [OF moves_trans [OF moves_trans [OF moves_trans [OF
      1 2] 3] 4] 5] 6] 7] 8]]) simp
qed

lemma check_order_assets_ne: "check_order_assets sell receive = Inr () \<Longrightarrow> symbol sell \<noteq> symbol receive"
  by (auto simp: check_order_assets_def split: if_splits)

lemma limit_order_create_moves:
  assumes "limit_order_create_apply o1 db = Inr db'" "limit_order_create_validate o1 = Inr ()" "wf_db db"
  shows "moves (\<lambda>_. 0) db db'"
proof (rule place_order_moves [OF assms(1) [unfolded limit_order_create_apply_def] assms(3)])
  show "symbol (loc_amount_to_sell o1) \<noteq> symbol (loc_min_to_receive o1)"
    using assms(2) check_order_assets_ne by (auto simp: limit_order_create_validate_def)
  show "symbol (base p) = symbol (loc_amount_to_sell o1) \<and> symbol (quote p) = symbol (loc_min_to_receive o1)"
    if "loc_get_price o1 = Inr p" for p
    using that by (auto simp: loc_get_price_def asset_div_asset_def)
qed

lemma limit_order_create2_moves:
  assumes "limit_order_create2_apply o1 db = Inr db'" "limit_order_create2_validate o1 = Inr ()" "wf_db db"
  shows "moves (\<lambda>_. 0) db db'"
proof (rule place_order_moves [OF assms(1) [unfolded limit_order_create2_apply_def] assms(3)])
  show "symbol (lo2_amount_to_sell o1) \<noteq> symbol (quote (lo2_exchange_rate o1))"
    using assms(2) check_order_assets_ne by (auto simp: limit_order_create2_validate_def)
  show "symbol (base p) = symbol (lo2_amount_to_sell o1) \<and> symbol (quote p) = symbol (quote (lo2_exchange_rate o1))"
    if "Inr (lo2_exchange_rate o1) = (Inr p :: price result)" for p
    using that assms(2) by (auto simp: limit_order_create2_validate_def)
qed

lemma limit_order_cancel_moves:
  assumes "limit_order_cancel_apply o1 db = Inr db'" "wf_db db"
  shows "moves (\<lambda>_. 0) db db'"
  using assms cancel_order_moves by (auto simp: limit_order_cancel_apply_def)

lemma cancel_pair_loop_moves:
  "cancel_pair_loop p ks c db = Inr db' \<Longrightarrow> wf_db db \<Longrightarrow> moves (\<lambda>_. 0) db db'"
proof (induction ks arbitrary: c db)
  case Nil
  then show ?case using moves_refl by simp
next
  case (Cons k ks)
  show ?case
  proof (cases "c \<le> 100")
    case False
    then show ?thesis using Cons.prems moves_refl by simp
  next
    case True
    then consider (yes) db1 where "cancel_order k db = Inr db1" "cancel_pair_loop p ks (Suc c) db1 = Inr db'"
      | (no) "cancel_pair_loop p ks c db = Inr db'"
      using Cons.prems(1) by (auto split: if_splits)
    then show ?thesis
    proof cases
      case yes
      note M = conjunct1 [OF cancel_order_moves [OF yes(1) Cons.prems(2)]]
      show ?thesis by (rule moves_cong [OF moves_trans [OF M Cons.IH [OF yes(2) moves_wf [OF M]]]]) simp
    next
      case no
      then show ?thesis using Cons.IH Cons.prems(2) by blast
    qed
  qed
qed

lemma cancel_pairs_moves: "cancel_pairs n ps db = Inr db' \<Longrightarrow> wf_db db \<Longrightarrow> moves (\<lambda>_. 0) db db'"
proof (induction ps arbitrary: db)
  case Nil
  then show ?case using moves_refl by simp
next
  case (Cons p ps)
  obtain db1 where c: "cancel_pair n p db = Inr db1" and r: "cancel_pairs n ps db1 = Inr db'" using Cons.prems(1) by auto
  note M = cancel_pair_loop_moves [OF c [unfolded cancel_pair_def] Cons.prems(2)]
  show ?case by (rule moves_cong [OF moves_trans [OF M Cons.IH [OF r moves_wf [OF M]]]]) simp
qed

lemma limit_order_cancel_ex_moves:
  assumes ap: "limit_order_cancel_ex_apply o1 db = Inr db'" and wf: "wf_db db"
  shows "moves (\<lambda>_. 0) db db'"
proof -
  obtain db1 where c: "cancel_pairs (lcx_owner o1) (lcx_extensions o1) db = Inr db1"
    and r: "(\<exists>o2 :: limit_order_object. cancel_order (lo_seller o2, lo_orderid o2) db1 = Inr db') \<or> db' = db1"
    using ap by (auto simp: limit_order_cancel_ex_apply_def split: if_splits) blast
  note M = cancel_pairs_moves [OF c wf]
  from r show ?thesis
  proof (elim disjE exE)
    fix o2 :: limit_order_object
    assume "cancel_order (lo_seller o2, lo_orderid o2) db1 = Inr db'"
    from moves_trans [OF M conjunct1 [OF cancel_order_moves [OF this moves_wf [OF M]]]] show ?thesis by simp
  qed (use M in simp)
qed

definition order_inv :: "database \<Rightarrow> database \<Rightarrow> bool" where
  "order_inv db0 db \<longleftrightarrow> moves (\<lambda>_. 0) db0 db"

interpretation expiry_queue: due_loop db_orders order_expires_before order_expired expire_order "order_inv db0" for db0
proof unfold_locales
  fix db a b
  assume "order_expired db b" "\<not> order_expired db a"
  then show "order_expires_before b a \<and> \<not> order_expires_before a b"
    by (simp add: order_expired_def order_expires_before_def)
next
  fix db k o1 db'
  assume inv: "order_inv db0 db" and row: "t_get k (db_orders db) = Some o1" and ex: "expire_order o1 db = Inr db'"
  have wf: "wf_db db" using inv moves_wf by (auto simp: order_inv_def)
  have "k = (lo_seller o1, lo_orderid o1)" using wf_order_at [OF wf row] by (simp add: wf_order_def)
  with ex have "cancel_order k db = Inr db'" by (simp add: expire_order_def)
  note C = cancel_order_moves [OF this wf]
  have "moves (\<lambda>_. 0) db0 db'" using moves_trans [OF inv [unfolded order_inv_def] conjunct1 [OF C]] by simp
  moreover have "head_block_time db' = head_block_time db" using C by (simp add: moves_def side_frame_def)
  ultimately show "order_inv db0 db' \<and> db_orders db' = t_remove k (db_orders db) \<and> order_expired db' = order_expired db"
    using C by (simp add: order_inv_def order_expired_def fun_eq_iff)
qed (auto simp: order_inv_def moves_def wf_db_def)

lemma clear_expired_orders_moves:
  assumes "clear_expired_orders db = Inr db'" "wf_db db"
  shows "moves (\<lambda>_. 0) db db' \<and> db_orders db' = filter (\<lambda>r. head_block_time db \<le> lo_expiration (snd r)) (db_orders db)"
  using expiry_queue.process_due_all [of "length (db_orders db)" db db' db] assms moves_refl
  by (simp add: clear_expired_orders_def order_inv_def order_expired_def not_less)

section \<open>Properties\<close>

text \<open>The arithmetic of a match: prices are fractions of positive integers, products are rounded down.\<close>

lemma floor_exchange:
  fixes n v :: int
  assumes "0 < b" "0 < q" "n \<le> v * q div b"
  shows "n * b div q \<le> v"
proof -
  have "n * b \<le> (v * q div b) * b" using assms by (simp add: mult_right_mono)
  also have "\<dots> \<le> v * q" using assms(1) by (metis add.commute le_add_same_cancel1 div_mult_mod_eq pos_mod_sign)
  finally have "n * b div q \<le> v * q div q" using assms(2) by (intro zdiv_mono1)
  then show ?thesis using assms(2) by simp
qed

lemma asset_le_same: "asset_le (mk_asset a s) (mk_asset b s) = Inr (a \<le> b)"
  by (auto simp: asset_le_def asset_eq_def asset_lt_def)

lemma price_of_sale:
  assumes "price_ok p" "symbol_name (base p) = Inr nb" "0 \<le> v" "v < 2 ^ 63" "v * amount (quote p) div amount (base p) < 2 ^ 63"
  shows "asset_mul_price (mk_asset v (symbol (base p))) p = Inr (mk_asset (v * amount (quote p) div amount (base p)) (symbol (quote p)))"
  using asset_mul_price_base [of "mk_asset v (symbol (base p))" nb p] assms
    symbol_name_symbol [of "mk_asset v (symbol (base p))" "base p"] by (simp add: price_ok_def amount_ok_def)

lemma price_of_purchase:
  assumes "price_ok p" "symbol_name (base p) = Inr nb" "symbol_name (quote p) = Inr nq" "nb \<noteq> nq"
    "0 \<le> v" "v < 2 ^ 63" "v * amount (base p) div amount (quote p) < 2 ^ 63"
  shows "asset_mul_price (mk_asset v (symbol (quote p))) p = Inr (mk_asset (v * amount (base p) div amount (quote p)) (symbol (base p)))"
  using asset_mul_price_floor_inverse [of "mk_asset v (symbol (quote p))" nq p nb] assms
    symbol_name_symbol [of "mk_asset v (symbol (quote p))" "quote p"] by (simp add: price_ok_def amount_ok_def)


definition demo_old_order :: limit_order_object where
  "demo_old_order = \<lparr>lo_created = 0, lo_expiration = 2000000, lo_seller = ''bob'', lo_orderid = 1, lo_for_sale = 10,
     lo_symbol = SBD_SYMBOL, lo_sell_price = mk_price (mk_asset 3 SBD_SYMBOL) (mk_asset 7 STEEM_SYMBOL)\<rparr>"

definition demo_new_order :: limit_order_object where
  "demo_new_order = \<lparr>lo_created = 0, lo_expiration = 2000000, lo_seller = ''alice'', lo_orderid = 1, lo_for_sale = 100,
     lo_symbol = STEEM_SYMBOL, lo_sell_price = mk_price (mk_asset 10 STEEM_SYMBOL) (mk_asset 1 SBD_SYMBOL)\<rparr>"

lemma demo_trade: "trade demo_new_order demo_old_order (mk_price (mk_asset 3 SBD_SYMBOL) (mk_asset 7 STEEM_SYMBOL))
    = Inr (mk_asset 23 STEEM_SYMBOL, mk_asset 10 SBD_SYMBOL)"
  using price_of_sale [of "mk_price (mk_asset 3 SBD_SYMBOL) (mk_asset 7 STEEM_SYMBOL)" _ 10]
  by (simp add: trade_def demo_new_order_def demo_old_order_def amount_for_sale_def price_ok_def amount_ok_def asset_le_same)


datatype market_op = Limit_Order_Create limit_order_create_operation | Limit_Order_Create2 limit_order_create2_operation
  | Limit_Order_Cancel limit_order_cancel_operation | Limit_Order_Cancel_Ex limit_order_cancel_ex_operation

fun market_validate :: "market_op \<Rightarrow> unit result" where
  "market_validate (Limit_Order_Create o1) = limit_order_create_validate o1"
| "market_validate (Limit_Order_Create2 o1) = limit_order_create2_validate o1"
| "market_validate (Limit_Order_Cancel o1) = limit_order_cancel_validate o1"
| "market_validate (Limit_Order_Cancel_Ex o1) = limit_order_cancel_ex_validate o1"

fun market_apply :: "market_op \<Rightarrow> database \<Rightarrow> database result" where
  "market_apply (Limit_Order_Create o1) = limit_order_create_apply o1"
| "market_apply (Limit_Order_Create2 o1) = limit_order_create2_apply o1"
| "market_apply (Limit_Order_Cancel o1) = limit_order_cancel_apply o1"
| "market_apply (Limit_Order_Cancel_Ex o1) = limit_order_cancel_ex_apply o1"

lemma market_moves:
  assumes "market_validate o1 = Inr ()" "market_apply o1 db = Inr db'" "wf_db db"
  shows "moves (\<lambda>_. 0) db db'"
  using assms limit_order_create_moves limit_order_create2_moves limit_order_cancel_moves limit_order_cancel_ex_moves
  by (cases o1) auto

text \<open>
  C5. The market conserves money: placing an order, with all the matching and the fees of
  user-issued assets that it triggers, and cancelling one or many orders leave the books of every
  asset as they were.
\<close>

theorem market_operations_conserve:
  assumes "market_validate o1 = Inr ()" "market_apply o1 db = Inr db'" "wf_db db"
  shows "conserves db db'"
  using market_moves [OF assms] by (simp add: moves_def conserves_def)

text \<open>
  C30. \<open>clear_expired_orders\<close> cancels exactly the orders whose expiration lies before the head block
  time: the others stay as they are, in their order, and money is conserved.
\<close>

theorem clear_expired_orders_exact:
  assumes "clear_expired_orders db = Inr db'" "wf_db db"
  shows "db_orders db' = filter (\<lambda>r. head_block_time db \<le> lo_expiration (snd r)) (db_orders db) \<and> conserves db db'"
  using clear_expired_orders_moves [OF assms] by (simp add: moves_def conserves_def)

definition demo_market :: "int \<Rightarrow> database" where
  "demo_market expires = demo_db\<lparr>db_orders := [((''alice'', 1), demo_new_order\<lparr>lo_expiration := expires\<rparr>)],
     db_accounts := [(''alice'', (demo_account ''alice'')\<lparr>acc_balance := mk_asset 400 STEEM_SYMBOL,
       acc_market_balance := mk_asset 100 STEEM_SYMBOL\<rparr>), (''bob'', demo_account ''bob'')]\<rparr>"

lemmas demo_market_defs = demo_defs demo_market_def demo_new_order_def

lemma demo_market_wf: "wf_db (demo_market e)"
  by (simp add: demo_market_defs wf_db_def wf_account_def wf_dgp_def wf_order_def t_wf_def t_all_def)

lemma demo_cancel_run: "\<exists>db'. cancel_order (''alice'', 1) (demo_market e) = Inr db'
    \<and> map_option acc_balance (t_get ''alice'' (db_accounts db')) = Some (mk_asset 500 STEEM_SYMBOL)"
proof -
  have "amount_to_receive (demo_new_order\<lparr>lo_expiration := e\<rparr>) = Inr (mk_asset 10 SBD_SYMBOL)"
    using price_of_sale [of "mk_price (mk_asset 10 STEEM_SYMBOL) (mk_asset 1 SBD_SYMBOL)" _ 100]
    by (simp add: amount_to_receive_def amount_for_sale_def demo_new_order_def price_ok_def amount_ok_def)
  then show ?thesis
    by (simp add: cancel_order_def get_order_def demo_market_defs t_get_def get_account_def amount_for_sale_def
      adjust_balance_def adjust_market_balance_def asset_add_def asset_neg_def int64_ok_def set_account_def t_modify_def
      push_log_def update_pair_depth_def remove_order_def t_remove_def t_create_def)
qed

lemma demo_names_market: "is_valid_account_name ''alice''"
  by code_simp

theorem market_operations_conserve_witness:
  "\<exists>db'. market_apply (Limit_Order_Cancel \<lparr>lca_owner = ''alice'', lca_orderid = 1\<rparr>) (demo_market 2000000) = Inr db'
    \<and> conserves (demo_market 2000000) db'"
proof -
  let ?o = "Limit_Order_Cancel \<lparr>lca_owner = ''alice'', lca_orderid = 1\<rparr>"
  have v: "market_validate ?o = Inr ()" by (simp add: limit_order_cancel_validate_def check_param_account_def demo_names_market)
  obtain db' where "cancel_order (''alice'', 1) (demo_market 2000000) = Inr db'" using demo_cancel_run by blast
  then have "market_apply ?o (demo_market 2000000) = Inr db'"
    by (simp add: limit_order_cancel_apply_def get_limit_order_def limit_order_key_def has_hardfork_def demo_market_defs t_get_def)
  then show ?thesis using market_operations_conserve [OF v _ demo_market_wf] by blast
qed

theorem clear_expired_orders_exact_witness:
  "\<exists>db'. clear_expired_orders (demo_market 5) = Inr db' \<and> db_orders db' = [] \<and> conserves (demo_market 5) db'"
proof -
  obtain db' where "cancel_order (''alice'', 1) (demo_market 5) = Inr db'" using demo_cancel_run by blast
  then have c: "clear_expired_orders (demo_market 5) = Inr db'"
    by (simp add: clear_expired_orders_def demo_market_defs order_expired_def expire_order_def)
  from clear_expired_orders_exact [OF c demo_market_wf] c show ?thesis by (simp add: demo_market_defs)
qed

end
