(* ===== verification/Median_Props.thy ===== *)
theory Median_Props
  imports Block_Production Market
begin

text \<open>
  What a round of witnesses decides by its median (\<^verbatim>\<open>libraries/chain/database.cpp\<close>):
  \<open>update_median_witness_props\<close> for the chain properties and \<open>update_median_feed\<close> for the price of
  GOLOS. \<open>nth_element\<close> is modelled by the value a sorted list has at that position; where the
  comparison ties on elements with different values (the windows of the batteries and equal prices
  written with different amounts), the source leaves the choice to the library and the model takes
  the first. The lemmas show that a majority that agrees on a range keeps the median in it.
\<close>

section \<open>Medians\<close>

definition round_objects :: "database \<Rightarrow> witness_object list result" where
  "round_objects db =
    (let n = unat (wso_num_scheduled_witnesses (db_schedule db)) in
     rbind (check (n \<le> length (wso_current_shuffled_witnesses (db_schedule db))) Undefined_Behaviour) (\<lambda>_.
     scheduled_objects (take n (wso_current_shuffled_witnesses (db_schedule db))) db))"

definition median_key :: "('p \<Rightarrow> 'k :: linorder) \<Rightarrow> 'p list \<Rightarrow> 'k" where
  "median_key f ps = sort (map f ps) ! (length ps div 2)"

text \<open>\<open>operator<\<close> on assets throws when the symbols differ.\<close>

definition median_asset :: "('p \<Rightarrow> asset) \<Rightarrow> 'p list \<Rightarrow> asset result" where
  "median_asset f ps =
     rbind (check_assert (list_all (\<lambda>p. symbol (f p) = symbol (f (hd ps))) ps)) (\<lambda>_.
     Inr (mk_asset (median_key (\<lambda>p. amount (f p)) ps) (symbol (f (hd ps)))))"

text \<open>A window and its number of items, compared by consumption; zero items divide by zero.\<close>

definition battery_less :: "('p \<Rightarrow> 16 word) \<Rightarrow> ('p \<Rightarrow> 16 word) \<Rightarrow> 'p \<Rightarrow> 'p \<Rightarrow> bool" where
  "battery_less window items a b =
    (let a_consumption = window a div items a; b_consumption = window b div items b
     in a_consumption < b_consumption \<or> (a_consumption = b_consumption \<and> items a < items b))"

definition median_battery :: "('p \<Rightarrow> 16 word) \<Rightarrow> ('p \<Rightarrow> 16 word) \<Rightarrow> 'p list \<Rightarrow> 'p result" where
  "median_battery window items ps =
     rbind (check (length ps = 1 \<or> list_all (\<lambda>p. items p \<noteq> 0) ps) Undefined_Behaviour) (\<lambda>_.
     Inr (sort_by (battery_less window items) ps ! (length ps div 2)))"

definition median_min_max :: "('p \<Rightarrow> 16 word) \<Rightarrow> ('p \<Rightarrow> 16 word) \<Rightarrow> 'p list \<Rightarrow> 'p" where
  "median_min_max low high ps =
     sort_by (\<lambda>a b. low a < low b \<or> (low a = low b \<and> high a < high b)) ps ! (length ps div 2)"

fun curve_value :: "curation_curve \<Rightarrow> nat" where
  "curve_value curve_bounded = 0"
| "curve_value curve_linear = 1"
| "curve_value curve_square_root = 2"
| "curve_value curve_size = 3"
| "curve_value curve_detect = 100"

definition curve_of :: "nat \<Rightarrow> curation_curve" where
  "curve_of n = (if n = 0 then curve_bounded else if n = 1 then curve_linear else if n = 2 then curve_square_root
     else if n = 3 then curve_size else curve_detect)"

text \<open>The three reward shares: apart since hardfork 26, one after the other since 23, as a triple before.\<close>

definition copy_all_median :: "('p \<Rightarrow> 16 word) \<Rightarrow> 'p list \<Rightarrow> 'p list" where
  "copy_all_median f ps = filter (\<lambda>p. f p = median_key f ps) ps"

definition triple_less :: "16 word \<times> 16 word \<times> 16 word \<Rightarrow> 16 word \<times> 16 word \<times> 16 word \<Rightarrow> bool" where
  "triple_less = (\<lambda>(a, b, c) (a', b', c'). a < a' \<or> (a = a' \<and> (b < b' \<or> (b = b' \<and> c < c'))))"

definition median_rewards :: "database \<Rightarrow> chain_properties_30 list \<Rightarrow> 16 word \<times> 16 word \<times> 16 word" where
  "median_rewards db ps =
    (if has_hardfork 26 db then
       (median_key worker_reward_percent ps, median_key witness_reward_percent ps, median_key vesting_reward_percent ps)
     else if has_hardfork 23 db then
       (let act_worker = copy_all_median worker_reward_percent ps;
            act_witness = copy_all_median witness_reward_percent act_worker
        in (median_key worker_reward_percent ps, median_key witness_reward_percent act_worker,
            median_key vesting_reward_percent act_witness))
     else sort_by triple_less (map (\<lambda>p. (worker_reward_percent p, witness_reward_percent p, vesting_reward_percent p)) ps)
       ! (length ps div 2))"

definition median_negrep :: "database \<Rightarrow> chain_properties_30 list \<Rightarrow> (16 word \<times> 16 word) result" where
  "median_negrep db ps =
    (if has_hardfork 27 db then Inr (median_key negrep_posting_window ps, median_key negrep_posting_per_window ps)
     else rbind (median_battery negrep_posting_window negrep_posting_per_window ps)
       (\<lambda>p. Inr (negrep_posting_window p, negrep_posting_per_window p)))"

definition median_props :: "database \<Rightarrow> chain_properties_30 list \<Rightarrow> chain_properties_30 result" where
  "median_props db ps =
     rbind (median_asset account_creation_fee ps) (\<lambda>m_account_creation_fee.
     rbind (median_asset create_account_min_golos_fee ps) (\<lambda>m_create_account_min_golos_fee.
     rbind (median_asset create_account_min_delegation ps) (\<lambda>m_create_account_min_delegation.
     rbind (median_asset min_delegation ps) (\<lambda>m_min_delegation.
     rbind (median_asset min_referral_break_fee ps) (\<lambda>m_min_referral_break_fee.
     rbind (median_asset max_referral_break_fee ps) (\<lambda>m_max_referral_break_fee.
     rbind (median_asset worker_request_creation_fee ps) (\<lambda>m_worker_request_creation_fee.
     rbind (median_asset min_invite_balance ps) (\<lambda>m_min_invite_balance.
     rbind (median_asset asset_creation_fee ps) (\<lambda>m_asset_creation_fee.
     rbind (median_asset min_golos_power_to_curate ps) (\<lambda>m_min_golos_power_to_curate.
     rbind (median_asset unwanted_operation_cost ps) (\<lambda>m_unwanted_operation_cost.
     rbind (median_asset unlimit_operation_cost ps) (\<lambda>m_unlimit_operation_cost.
     rbind (median_asset min_golos_power_to_emission ps) (\<lambda>m_min_golos_power_to_emission.
     rbind (median_asset nft_issue_cost ps) (\<lambda>m_nft_issue_cost.
     rbind (median_asset private_group_golos_power ps) (\<lambda>m_private_group_golos_power.
     rbind (median_asset private_group_cost ps) (\<lambda>m_private_group_cost.
     rbind (median_battery posts_window posts_per_window ps) (\<lambda>posts.
     rbind (median_battery comments_window comments_per_window ps) (\<lambda>comments.
     rbind (median_battery votes_window votes_per_window ps) (\<lambda>votes.
     rbind (median_negrep db ps) (\<lambda>(negrep_window, negrep_per_window).
     let curation = median_min_max min_curation_percent max_curation_percent ps;
         (reward_worker, reward_witness, reward_vesting) = median_rewards db ps
     in Inr \<lparr>
       account_creation_fee = m_account_creation_fee,
       maximum_block_size = median_key maximum_block_size ps,
       sbd_interest_rate = median_key sbd_interest_rate ps,
       create_account_min_golos_fee = m_create_account_min_golos_fee,
       create_account_min_delegation = m_create_account_min_delegation,
       create_account_delegation_time = median_key create_account_delegation_time ps,
       min_delegation = m_min_delegation,
       max_referral_interest_rate = median_key max_referral_interest_rate ps,
       max_referral_term_sec = median_key max_referral_term_sec ps,
       min_referral_break_fee = m_min_referral_break_fee,
       max_referral_break_fee = m_max_referral_break_fee,
       posts_window = posts_window posts,
       posts_per_window = posts_per_window posts,
       comments_window = comments_window comments,
       comments_per_window = comments_per_window comments,
       votes_window = votes_window votes,
       votes_per_window = votes_per_window votes,
       auction_window_size = median_key auction_window_size ps,
       max_delegated_vesting_interest_rate = median_key max_delegated_vesting_interest_rate ps,
       custom_ops_bandwidth_multiplier = median_key custom_ops_bandwidth_multiplier ps,
       min_curation_percent = min_curation_percent curation,
       max_curation_percent = max_curation_percent curation,
       curation_reward_curve = curve_of (median_key (\<lambda>p. curve_value (curation_reward_curve p)) ps),
       allow_return_auction_reward_to_fund = median_key allow_return_auction_reward_to_fund ps,
       allow_distribute_auction_reward = median_key allow_distribute_auction_reward ps,
       worker_reward_percent = reward_worker,
       witness_reward_percent = reward_witness,
       vesting_reward_percent = reward_vesting,
       worker_request_creation_fee = m_worker_request_creation_fee,
       worker_request_approve_min_percent = median_key worker_request_approve_min_percent ps,
       sbd_debt_convert_rate = median_key sbd_debt_convert_rate ps,
       vote_regeneration_per_day = median_key vote_regeneration_per_day ps,
       witness_skipping_reset_time = median_key witness_skipping_reset_time ps,
       witness_idleness_time = median_key witness_idleness_time ps,
       account_idleness_time = median_key account_idleness_time ps,
       claim_idleness_time = median_key claim_idleness_time ps,
       min_invite_balance = m_min_invite_balance,
       asset_creation_fee = m_asset_creation_fee,
       invite_transfer_interval_sec = median_key invite_transfer_interval_sec ps,
       convert_fee_percent = median_key convert_fee_percent ps,
       min_golos_power_to_curate = m_min_golos_power_to_curate,
       worker_emission_percent = median_key worker_emission_percent ps,
       vesting_of_remain_percent = median_key vesting_of_remain_percent ps,
       negrep_posting_window = negrep_window,
       negrep_posting_per_window = negrep_per_window,
       unwanted_operation_cost = m_unwanted_operation_cost,
       unlimit_operation_cost = m_unlimit_operation_cost,
       min_golos_power_to_emission = m_min_golos_power_to_emission,
       nft_issue_cost = m_nft_issue_cost,
       private_group_golos_power = m_private_group_golos_power,
       private_group_cost = m_private_group_cost\<rparr>))))))))))))))))))))"

definition update_median_witness_props :: "database \<Rightarrow> database result" where
  "update_median_witness_props db =
     rbind (round_objects db) (\<lambda>active.
     rbind (check (active \<noteq> []) Undefined_Behaviour) (\<lambda>_.
     rbind (median_props db (map wit_props active)) (\<lambda>p.
     Inr (db\<lparr>db_median_props := p, db_dgp := (db_dgp db)\<lparr>dgp_maximum_block_size := unat (maximum_block_size p),
       dgp_sbd_interest_rate := unat (sbd_interest_rate p),
       dgp_custom_ops_bandwidth_multiplier := unat (custom_ops_bandwidth_multiplier p)\<rparr>\<rparr>))))"

section \<open>The price feed\<close>

definition STEEMIT_FEED_INTERVAL_BLOCKS :: nat where "STEEMIT_FEED_INTERVAL_BLOCKS = 60 * 60 div 3"
definition STEEMIT_FEED_HISTORY_WINDOW_PRE_HF_16 :: nat where "STEEMIT_FEED_HISTORY_WINDOW_PRE_HF_16 = 24 * 7"
definition STEEMIT_FEED_HISTORY_WINDOW :: nat where "STEEMIT_FEED_HISTORY_WINDOW = 12 * 7"
definition STEEMIT_MAX_FEED_AGE :: int where "STEEMIT_MAX_FEED_AGE = 7 * 24 * 60 * 60"
definition STEEMIT_MIN_FEEDS :: nat where "STEEMIT_MIN_FEEDS = 21 div 3"

definition feed_counts :: "database \<Rightarrow> witness_object \<Rightarrow> bool" where
  "feed_counts db w \<longleftrightarrow>
    (if has_hardfork 18 db
     then head_block_time db < wit_last_sbd_exchange_update w + STEEMIT_MAX_FEED_AGE
     else wit_last_sbd_exchange_update w < head_block_time db + STEEMIT_MAX_FEED_AGE)
    \<and> \<not> price_is_null (wit_sbd_exchange_rate w)"

definition median_price :: "price list \<Rightarrow> price" where
  "median_price ps = sort_by price_lt ps ! (length ps div 2)"

definition push_feed :: "nat \<Rightarrow> price \<Rightarrow> price list \<Rightarrow> price list" where
  "push_feed window p history = (let h = history @ [p] in if length h > window then tl h else h)"

definition min_price_of :: "database \<Rightarrow> price result" where
  "min_price_of db =
    (let p = db_dgp db; price_of = (\<lambda>k. rbind (safe64 (k * amount (dgp_current_sbd_supply p))) (\<lambda>a.
       Inr (mk_price (mk_asset a SBD_SYMBOL) (dgp_current_supply p)))) in
     rbind (price_of 10) (\<lambda>min_price. if \<not> has_hardfork 29 db then price_of 9 else Inr min_price))"

definition update_median_feed :: "database \<Rightarrow> database result" where
  "update_median_feed db =
    (if head_block_num db mod STEEMIT_FEED_INTERVAL_BLOCKS \<noteq> 0 then Inr db
     else rbind (round_objects db) (\<lambda>ws.
       let feeds = map wit_sbd_exchange_rate (filter (feed_counts db) ws) in
       if length feeds \<ge> STEEMIT_MIN_FEEDS then
         (let history = push_feed (if has_hardfork 16 db then STEEMIT_FEED_HISTORY_WINDOW
                else STEEMIT_FEED_HISTORY_WINDOW_PRE_HF_16) (median_price feeds) (fho_price_history (db_feed_history db));
              median = median_price history in
          rbind (if has_hardfork 14 db then
              rbind (min_price_of db) (\<lambda>min_price. Inr (if price_gt min_price median then (True, min_price) else (False, median)))
            else Inr (False, median)) (\<lambda>(is_forced_min_price, current).
          Inr (db\<lparr>db_median_history := current,
            db_feed_history := \<lparr>fho_witness_median_history = median, fho_price_history = history\<rparr>,
            db_dgp := (if has_hardfork 29 db \<or> is_forced_min_price
              then (db_dgp db)\<lparr>dgp_is_forced_min_price := is_forced_min_price\<rparr> else db_dgp db)\<rparr>)))
       else Inr db))"

section \<open>A majority keeps the median in its range\<close>

definition majority_within :: "('p \<Rightarrow> 'k :: linorder) \<Rightarrow> 'k \<Rightarrow> 'k \<Rightarrow> 'p list \<Rightarrow> bool" where
  "majority_within f low high ps \<longleftrightarrow> length ps < 2 * length (filter (\<lambda>p. low \<le> f p \<and> f p \<le> high) ps)"

lemma sorted_nth_count_le:
  assumes "sorted xs" "k < length xs"
  shows "Suc k \<le> length (filter (\<lambda>x. x \<le> xs ! k) xs)"
proof -
  have "filter (\<lambda>x. x \<le> xs ! k) xs = filter (\<lambda>x. x \<le> xs ! k) (take (Suc k) xs) @ filter (\<lambda>x. x \<le> xs ! k) (drop (Suc k) xs)"
    by (metis append_take_drop_id filter_append)
  moreover have "filter (\<lambda>x. x \<le> xs ! k) (take (Suc k) xs) = take (Suc k) xs"
    using assms by (auto simp: filter_id_conv in_set_conv_nth less_Suc_eq_le intro!: sorted_nth_mono)
  ultimately show ?thesis using assms(2) by simp
qed

lemma disjoint_counts: "(\<And>x. \<not> (P x \<and> Q x)) \<Longrightarrow> length (filter P xs) + length (filter Q xs) \<le> length xs"
proof (induction xs)
  case (Cons x xs)
  then have "length (filter P xs) + length (filter Q xs) \<le> length xs" by blast
  then show ?case using Cons.prems [of x] by auto
qed simp

lemma median_key_within:
  assumes "majority_within f low high ps"
  shows "low \<le> median_key f ps \<and> median_key f ps \<le> high"
proof -
  let ?xs = "sort (map f ps)" and ?k = "length ps div 2" and ?in = "\<lambda>x. low \<le> x \<and> x \<le> high"
  have len: "length ?xs = length ps" by simp
  have k: "?k < length ?xs" using assms by (cases ps) (auto simp: majority_within_def)
  have "length (filter ?in ?xs) = length (filter ?in (map f ps))" by (metis filter_sort length_sort)
  then have maj: "length ps < 2 * length (filter ?in ?xs)" using assms by (simp add: majority_within_def filter_map comp_def)
  have "low \<le> ?xs ! ?k"
  proof (rule ccontr)
    assume "\<not> low \<le> ?xs ! ?k"
    then have "length (filter (\<lambda>x. x \<le> ?xs ! ?k) ?xs) + length (filter ?in ?xs) \<le> length ?xs"
      by (intro disjoint_counts) auto
    then show False using sorted_nth_count_le [OF sorted_sort k] maj len by linarith
  qed
  moreover have "?xs ! ?k \<le> high"
  proof (rule ccontr)
    assume "\<not> ?xs ! ?k \<le> high"
    then have "length (filter (\<lambda>x. ?xs ! ?k \<le> x) ?xs) + length (filter ?in ?xs) \<le> length ?xs"
      by (intro disjoint_counts) auto
    then show False using sorted_nth_count [OF sorted_sort k] maj len by linarith
  qed
  ultimately show ?thesis by (simp add: median_key_def)
qed

lemma length_sort_by [simp]: "length (sort_by before xs) = length xs"
proof -
  have ins: "length (insert_by before x ys) = Suc (length ys)" for x ys by (induction ys) auto
  have "length (foldl (\<lambda>acc x. insert_by before x acc) acc xs) = length acc + length xs" for acc
    by (induction xs arbitrary: acc) (auto simp: ins)
  then show ?thesis by (simp add: sort_by_def)
qed

lemma sort_by_middle: "ps \<noteq> [] \<Longrightarrow> sort_by before ps ! (length ps div 2) \<in> set ps"
  using nth_mem [of "length ps div 2" "sort_by before ps"] by simp

lemma median_asset_within:
  "median_asset f ps = Inr a \<Longrightarrow> majority_within (\<lambda>p. amount (f p)) low high ps \<Longrightarrow> low \<le> amount a \<and> amount a \<le> high"
  using median_key_within [of "\<lambda>p. amount (f p)" low high ps] by (auto simp: median_asset_def)

lemma median_props_fields:
  assumes "median_props db ps = Inr m"
  shows "maximum_block_size m = median_key maximum_block_size ps"
    and "median_asset account_creation_fee ps = Inr (account_creation_fee m)"
    and "witness_skipping_reset_time m = median_key witness_skipping_reset_time ps"
    and "min_curation_percent m = min_curation_percent (median_min_max min_curation_percent max_curation_percent ps)"
    and "max_curation_percent m = max_curation_percent (median_min_max min_curation_percent max_curation_percent ps)"
    and "\<exists>p. median_battery posts_window posts_per_window ps = Inr p \<and> posts_window m = posts_window p
      \<and> posts_per_window m = posts_per_window p"
proof -
  obtain x y z where "median_rewards db ps = (x, y, z)" by (metis prod_cases3)
  with assms show "maximum_block_size m = median_key maximum_block_size ps"
    "median_asset account_creation_fee ps = Inr (account_creation_fee m)"
    "witness_skipping_reset_time m = median_key witness_skipping_reset_time ps"
    "min_curation_percent m = min_curation_percent (median_min_max min_curation_percent max_curation_percent ps)"
    "max_curation_percent m = max_curation_percent (median_min_max min_curation_percent max_curation_percent ps)"
    "\<exists>p. median_battery posts_window posts_per_window ps = Inr p \<and> posts_window m = posts_window p
      \<and> posts_per_window m = posts_per_window p"
    by (auto simp: median_props_def Let_def)
qed


lemma price_le_not_less: "price_le a b \<Longrightarrow> \<not> price_lt b a"
  by (auto simp: price_le_def price_eq_def price_lt_def split: if_splits)

lemma price_lt_irrefl: "\<not> price_lt a a"
  by (simp add: price_lt_def)

text \<open>
  The feed price changes only once an hour and only when at least seven witnesses of the round
  publish a fresh price; the history keeps its window, and since hardfork 14 the current price is
  never below the price that values the debt at a tenth of the supply.
\<close>

theorem update_median_feed_bounds:
  assumes "update_median_feed db = Inr db'" "db_median_history db' \<noteq> db_median_history db" "has_hardfork 16 db"
    and "length (fho_price_history (db_feed_history db)) \<le> 84"
  shows "head_block_num db mod 1200 = 0
    \<and> (\<exists>ws. round_objects db = Inr ws \<and> 7 \<le> length (filter (feed_counts db) ws))
    \<and> length (fho_price_history (db_feed_history db')) \<le> 84
    \<and> (\<exists>floor. min_price_of db = Inr floor \<and> \<not> price_lt (db_median_history db') floor)"
proof -
  have h14: "has_hardfork 14 db" using assms(3) by (simp add: has_hardfork_def)
  have hour: "head_block_num db mod STEEMIT_FEED_INTERVAL_BLOCKS = 0"
    using assms(1,2) by (auto simp: update_median_feed_def split: if_splits)
  obtain ws where ws: "round_objects db = Inr ws" using assms(1) hour by (auto simp: update_median_feed_def)
  have seven: "STEEMIT_MIN_FEEDS \<le> length (filter (feed_counts db) ws)"
    using assms(1,2) hour ws by (auto simp: update_median_feed_def Let_def split: if_splits)
  define history where "history = push_feed STEEMIT_FEED_HISTORY_WINDOW
    (median_price (map wit_sbd_exchange_rate (filter (feed_counts db) ws))) (fho_price_history (db_feed_history db))"
  obtain floor where floor: "min_price_of db = Inr floor"
    and db': "db_median_history db' = (if price_gt floor (median_price history) then floor else median_price history)"
      "fho_price_history (db_feed_history db') = history"
    using assms(1) hour ws seven h14 assms(3)
    by (cases "min_price_of db") (auto simp: update_median_feed_def Let_def history_def split: if_splits)
  have "length history \<le> 84" using assms(4) by (simp add: history_def push_feed_def Let_def STEEMIT_FEED_HISTORY_WINDOW_def)
  moreover have "\<not> price_lt (db_median_history db') floor"
    using price_le_not_less price_lt_irrefl by (auto simp: db' price_gt_def)
  ultimately show ?thesis using hour seven ws floor db'
    by (simp add: STEEMIT_FEED_INTERVAL_BLOCKS_def STEEMIT_MIN_FEEDS_def)
qed

section \<open>Concrete rounds\<close>

lemma median_pair: "median_key f [p, p] = f p" "median_asset g [p, p] = Inr (g p)"
  "items p \<noteq> 0 \<Longrightarrow> median_battery window items [p, p] = Inr p"
  by (simp_all add: median_key_def median_asset_def median_battery_def sort_by_def)

lemma median_props_pair:
  "has_hardfork 27 db \<Longrightarrow> posts_per_window p \<noteq> 0 \<Longrightarrow> comments_per_window p \<noteq> 0 \<Longrightarrow> votes_per_window p \<noteq> 0
    \<Longrightarrow> \<exists>m. median_props db [p, p] = Inr m"
  by (simp add: median_props_def median_pair median_negrep_def Let_def split: prod.splits)

lemma scheduled_objects_all:
  assumes "\<forall>n \<in> set ns. t_get n (db_witnesses db) = Some (f n)"
  shows "scheduled_objects ns db = Inr (map f ns)"
  using assms by (induction ns) (auto simp: get_witness_def)

lemma demo_chain_round: "round_objects demo_chain = Inr [demo_producer ''alice'' 1000, demo_producer ''bob'' 990]"
  by (simp add: round_objects_def demo_chain_def demo_db_def demo_schedule_def get_witness_def t_get_def)


definition demo_reporters :: "account_name list" where
  "demo_reporters = map (\<lambda>i. [char_of (97 + i)]) [0..<7]"

definition demo_report :: "account_name \<Rightarrow> witness_object" where
  "demo_report n = (demo_producer n 0)\<lparr>wit_sbd_exchange_rate := mk_price (mk_asset 2 SBD_SYMBOL) (mk_asset 1 STEEM_SYMBOL),
     wit_last_sbd_exchange_update := 900000\<rparr>"

definition demo_feeds :: database where
  "demo_feeds = demo_db\<lparr>db_dgp := demo_dgp\<lparr>dgp_head_block_number := 1200\<rparr>,
     db_witnesses := map (\<lambda>n. (n, demo_report n)) demo_reporters,
     db_schedule := demo_schedule\<lparr>wso_current_shuffled_witnesses := demo_reporters, wso_num_scheduled_witnesses := 7\<rparr>\<rparr>"

lemma demo_feeds_round: "round_objects demo_feeds = Inr (map demo_report demo_reporters)"
proof -
  have "scheduled_objects demo_reporters demo_feeds = Inr (map demo_report demo_reporters)"
    by (rule scheduled_objects_all) (auto simp: t_get_def demo_feeds_def map_of_map_restrict comp_def)
  moreover have "length demo_reporters = 7" by (simp add: demo_reporters_def)
  ultimately show ?thesis by (simp add: round_objects_def demo_feeds_def)
qed

theorem update_median_feed_bounds_witness:
  "\<exists>db'. update_median_feed demo_feeds = Inr db' \<and> db_median_history db' \<noteq> db_median_history demo_feeds
    \<and> length (fho_price_history (db_feed_history db')) \<le> 84"
proof -
  let ?p = "mk_price (mk_asset 2 SBD_SYMBOL) (mk_asset 1 STEEM_SYMBOL)"
  have len: "length demo_reporters = 7" by (simp add: demo_reporters_def)
  have "feed_counts demo_feeds (demo_report n)" for n
    by (simp add: feed_counts_def demo_feeds_def demo_db_def demo_dgp_def has_hardfork_def demo_report_def
        STEEMIT_MAX_FEED_AGE_def price_is_null_def price_eq_def default_price_def)
  then have all: "filter (feed_counts demo_feeds) (map demo_report demo_reporters) = map demo_report demo_reporters"
    by (simp add: filter_id_conv)
  then have cnt: "length (filter (feed_counts demo_feeds) (map demo_report demo_reporters)) = 7" by (simp add: len)
  have feeds: "map wit_sbd_exchange_rate (filter (feed_counts demo_feeds) (map demo_report demo_reporters)) = replicate 7 ?p"
    unfolding all by (simp add: comp_def demo_report_def map_replicate_const len)
  have "sort_by price_lt (replicate 7 ?p) = replicate 7 ?p"
    by (simp add: sort_by_def numeral_eq_Suc price_lt_irrefl)
  then have med: "median_price (replicate 7 ?p) = ?p" "median_price [?p] = ?p"
    by (simp_all add: median_price_def sort_by_def)
  let ?floor = "mk_price (mk_asset 0 SBD_SYMBOL) (mk_asset 1000 STEEM_SYMBOL)"
  have floor: "min_price_of demo_feeds = Inr ?floor" "\<not> price_gt ?floor ?p"
    by (simp_all add: min_price_of_def Let_def demo_feeds_def demo_db_def demo_dgp_def has_hardfork_def int64_ok_def
        price_gt_def price_le_def price_lt_def)
  have facts: "head_block_num demo_feeds = 1200" "has_hardfork 14 demo_feeds" "has_hardfork 16 demo_feeds" "has_hardfork 29 demo_feeds"
      "fho_price_history (db_feed_history demo_feeds) = []"
      "db_median_history demo_feeds = mk_price (mk_asset 1000 SBD_SYMBOL) (mk_asset 1000 STEEM_SYMBOL)"
    by (simp_all add: demo_feeds_def demo_db_def has_hardfork_def)
  have "\<exists>db'. update_median_feed demo_feeds = Inr db' \<and> db_median_history db' = ?p"
    using feeds med floor facts cnt
    by (simp del: filter_map add: update_median_feed_def demo_feeds_round STEEMIT_MIN_FEEDS_def STEEMIT_FEED_INTERVAL_BLOCKS_def push_feed_def
        STEEMIT_FEED_HISTORY_WINDOW_def Let_def)
  then obtain db' where db': "update_median_feed demo_feeds = Inr db'" "db_median_history db' = ?p" by blast
  then have ne: "db_median_history db' \<noteq> db_median_history demo_feeds" by (simp add: facts)
  show ?thesis using update_median_feed_bounds [OF db'(1) ne facts(3)] facts(5) db'(1) ne by simp
qed

end
