(* ===== verification/Witness_Schedule.thy ===== *)
theory Witness_Schedule
  imports Median_Props "HOL-Library.Multiset"
begin

unbundle bit_operations_syntax

text \<open>
  The witness schedule (\<^verbatim>\<open>libraries/chain/database.cpp\<close>): every 21 blocks
  \<open>update_witness_schedule\<close> chooses the next round from the votes, the mining queue and the virtual
  time, tallies the versions and hardfork votes of the round that ends, and shuffles the round.
  The order of account names in the vote index is the parameter \<open>name_less\<close>. The lemmas show that
  the shuffle is a permutation, that a round has no witness twice, none without a signing key and at
  most 21, and that a hardfork is scheduled only by 17 votes.
\<close>

definition STEEMIT_MAX_VOTED_WITNESSES :: nat where "STEEMIT_MAX_VOTED_WITNESSES = 19"
definition STEEMIT_MAX_MINER_WITNESSES :: nat where "STEEMIT_MAX_MINER_WITNESSES = 1"
definition STEEMIT_HARDFORK_REQUIRED_WITNESSES :: nat where "STEEMIT_HARDFORK_REQUIRED_WITNESSES = 17"
definition VIRTUAL_SCHEDULE_LAP_LENGTH :: "128 word" where "VIRTUAL_SCHEDULE_LAP_LENGTH = 2 ^ 64 - 1"
definition VIRTUAL_SCHEDULE_LAP_LENGTH2 :: "128 word" where "VIRTUAL_SCHEDULE_LAP_LENGTH2 = - 1"

section \<open>The indices of the witnesses\<close>

definition vote_order :: "(account_name \<Rightarrow> account_name \<Rightarrow> bool) \<Rightarrow> database \<Rightarrow> (account_name \<times> witness_object) list" where
  "vote_order name_less db = sort_by (\<lambda>a b. wit_votes (snd a) > wit_votes (snd b)
     \<or> (wit_votes (snd a) = wit_votes (snd b) \<and> name_less (fst a) (fst b))) (db_witnesses db)"

definition pow_queue :: "database \<Rightarrow> (account_name \<times> witness_object) list" where
  "pow_queue db = sort_by (\<lambda>a b. wit_pow_worker (snd a) < wit_pow_worker (snd b))
     (filter (\<lambda>r. wit_pow_worker (snd r) > 0) (db_witnesses db))"

definition schedule_order :: "database \<Rightarrow> (account_name \<times> witness_object) list" where
  "schedule_order db = sort_by (\<lambda>a b. wit_virtual_scheduled_time (snd a) < wit_virtual_scheduled_time (snd b))
     (db_witnesses db)"

text \<open>Since hardfork 14 a witness with the null key is switched off.\<close>

definition switched_off :: "database \<Rightarrow> witness_object \<Rightarrow> bool" where
  "switched_off db w \<longleftrightarrow> has_hardfork 14 db \<and> wit_signing_key w = []"

definition change_witness :: "account_name \<Rightarrow> (witness_object \<Rightarrow> witness_object) \<Rightarrow> database \<Rightarrow> database" where
  "change_witness n f db = db\<lparr>db_witnesses := t_modify n f (db_witnesses db)\<rparr>"

definition mark_schedule :: "witness_schedule_type \<Rightarrow> account_name list \<Rightarrow> database \<Rightarrow> database" where
  "mark_schedule s ns db = fold (\<lambda>n. change_witness n (\<lambda>w. w\<lparr>wit_schedule := s\<rparr>)) ns db"

section \<open>Choosing the round\<close>

definition select_voted :: "(account_name \<Rightarrow> account_name \<Rightarrow> bool) \<Rightarrow> database \<Rightarrow> account_name list" where
  "select_voted name_less db = take STEEMIT_MAX_VOTED_WITNESSES
     (map fst (filter (\<lambda>r. \<not> switched_off db (snd r)) (vote_order name_less db)))"

text \<open>The miners at the head of the queue: those chosen, and all that leave the queue.\<close>

fun select_miners :: "database \<Rightarrow> account_name list \<Rightarrow> account_name list \<Rightarrow> (account_name \<times> witness_object) list
    \<Rightarrow> account_name list \<times> account_name list" where
  "select_miners db voted miners [] = (miners, [])"
| "select_miners db voted miners ((n, w) # q) =
    (if length miners < STEEMIT_MAX_MINER_WITNESSES then
       (let miners' = (if n \<notin> set voted \<and> \<not> switched_off db w then miners @ [n] else miners);
            (chosen, popped) = select_miners db voted miners' q
        in (chosen, n # popped))
     else (miners, []))"

text \<open>The witnesses in the lead by virtual time: the new ones, all that were passed, the time reached.\<close>

fun select_timeshare :: "database \<Rightarrow> account_name list \<Rightarrow> nat \<Rightarrow> 128 word \<Rightarrow> (account_name \<times> witness_object) list
    \<Rightarrow> account_name list \<times> account_name list \<times> 128 word" where
  "select_timeshare db chosen cnt vt [] = ([], [], vt)"
| "select_timeshare db chosen cnt vt ((n, w) # q) =
    (if cnt < STEEMIT_MAX_WITNESSES then
       (let new = \<not> switched_off db w \<and> n \<notin> set chosen;
            (active, processed, vt') = select_timeshare db chosen (if new then cnt + 1 else cnt)
              (wit_virtual_scheduled_time w) q
        in (if new then n # active else active, n # processed, vt'))
     else ([], [], vt))"

definition pop_miners :: "account_name list \<Rightarrow> database \<Rightarrow> database" where
  "pop_miners ns db = fold (\<lambda>n d. (change_witness n (\<lambda>w. w\<lparr>wit_pow_worker := 0\<rparr>) d)
     \<lparr>db_dgp := (db_dgp d)\<lparr>dgp_num_pow_witnesses := dgp_num_pow_witnesses (db_dgp d) - 1\<rparr>\<rparr>) ns db"

definition lap_time :: "128 word \<Rightarrow> witness_object \<Rightarrow> 128 word" where
  "lap_time vt w = vt + VIRTUAL_SCHEDULE_LAP_LENGTH2 div word_of_int (wit_votes w + 1)"

text \<open>\<open>True\<close> when the virtual time overflows.\<close>

fun advance_witnesses :: "128 word \<Rightarrow> account_name list \<Rightarrow> database \<Rightarrow> (bool \<times> database) result" where
  "advance_witnesses vt [] db = Inr (False, db)"
| "advance_witnesses vt (n # ns) db = rbind (get_witness n db) (\<lambda>w.
     if lap_time vt w < vt then Inr (True, db)
     else advance_witnesses vt ns (change_witness n (\<lambda>w. w\<lparr>wit_virtual_position := 0,
       wit_virtual_last_update := vt, wit_virtual_scheduled_time := lap_time vt w\<rparr>) db))"

definition reset_virtual_schedule_time :: "database \<Rightarrow> database" where
  "reset_virtual_schedule_time db = db\<lparr>db_current_virtual_time := 0,
     db_witnesses := map (\<lambda>(n, w). (n, w\<lparr>wit_virtual_position := 0, wit_virtual_last_update := 0,
       wit_virtual_scheduled_time := VIRTUAL_SCHEDULE_LAP_LENGTH2 div word_of_int (wit_votes w + 1)\<rparr>)) (db_witnesses db)\<rparr>"

section \<open>Versions and hardfork votes\<close>

text \<open>The highest version that enough witnesses have reached; the list has the versions from high to low.\<close>

fun majority_loop :: "32 word list \<Rightarrow> nat \<Rightarrow> 32 word list \<Rightarrow> 32 word option" where
  "majority_loop all n [] = None"
| "majority_loop all n (v # vs) =
    (let n' = n + length (filter (\<lambda>x. x = v) all) in
     if n' \<ge> STEEMIT_HARDFORK_REQUIRED_WITNESSES then Some v else majority_loop all n' vs)"

definition majority_of :: "32 word list \<Rightarrow> 32 word option" where
  "majority_of versions = majority_loop versions 0 (sort_by (\<lambda>a b. a > b) (remdups versions))"

definition voted_hardfork :: "(32 word \<times> int) list \<Rightarrow> (32 word \<times> int) option" where
  "voted_hardfork votes = find (\<lambda>v. length (filter (\<lambda>x. x = v) votes) \<ge> STEEMIT_HARDFORK_REQUIRED_WITNESSES)
     (sort_by (\<lambda>a b. fst a < fst b \<or> (fst a = fst b \<and> snd a < snd b)) (remdups votes))"

definition tally_versions :: "database \<Rightarrow> (32 word \<times> database) result" where
  "tally_versions db =
    (let majority_version = wso_majority_version (db_schedule db) in
     if has_hardfork 5 db then
       rbind (round_objects db) (\<lambda>ws.
       let majority = (case majority_of (map wit_running_version ws) of None \<Rightarrow> majority_version | Some v \<Rightarrow> v);
           hfp = db_hardfork_property db;
           hfp' = (case voted_hardfork (map (\<lambda>w. (wit_hardfork_version_vote w, wit_hardfork_time_vote w)) ws) of
               Some (v, t) \<Rightarrow> hfp\<lparr>hpo_next_hardfork := v, hpo_next_hardfork_time := t\<rparr>
             | None \<Rightarrow> hfp\<lparr>hpo_next_hardfork := hpo_current_hardfork_version hfp\<rparr>)
       in Inr (majority, db\<lparr>db_hardfork_property := hfp'\<rparr>))
     else Inr (majority_version, db))"

section \<open>The shuffle\<close>

definition xorshift :: "64 word \<Rightarrow> 64 word" where
  "xorshift k = (let k1 = k XOR drop_bit 12 k; k2 = k1 XOR push_bit 25 k1; k3 = k2 XOR drop_bit 27 k2
     in k3 * 2685821657736338717)"

definition swap_at :: "nat \<Rightarrow> nat \<Rightarrow> 'a list \<Rightarrow> 'a list" where
  "swap_at i j xs = xs[i := xs ! j, j := xs ! i]"

definition shuffle_target :: "64 word \<Rightarrow> nat \<Rightarrow> nat \<Rightarrow> nat" where
  "shuffle_target now_hi n i =
     i + unat (xorshift (now_hi + word_of_nat i * 2685821657736338717)) mod (n - i)"

definition shuffle_round :: "int \<Rightarrow> nat \<Rightarrow> account_name list \<Rightarrow> account_name list" where
  "shuffle_round now n xs = (let now_hi = push_bit 32 (word_of_int now)
     in fold (\<lambda>i. swap_at i (shuffle_target now_hi n i)) [0..<n] xs)"

text \<open>The array of 21 names: the active ones, then empty names, shuffled among the first ones.\<close>

definition new_round :: "int \<Rightarrow> account_name list \<Rightarrow> 8 word \<times> account_name list" where
  "new_round now active =
    (let n = max 1 (length active) in
     (word_of_nat n, shuffle_round now n (active @ replicate (STEEMIT_MAX_WITNESSES - length active) [])))"

section \<open>The new round\<close>

definition update_witness_schedule4 :: "(account_name \<Rightarrow> account_name \<Rightarrow> bool) \<Rightarrow> database \<Rightarrow> database result" where
  "update_witness_schedule4 name_less db =
    (let voted = select_voted name_less db;
         db1 = mark_schedule Top19 voted db;
         (miners, popped) = (if \<not> has_hardfork 28 db then select_miners db1 voted [] (pow_queue db1) else ([], []));
         db2 = pop_miners popped (mark_schedule Miner miners db1);
         (running, processed, vt) = select_timeshare db2 (voted @ miners) (length voted + length miners)
           (db_current_virtual_time db2) (schedule_order db2);
         db3 = mark_schedule Timeshare running db2;
         active = voted @ miners @ running in
     rbind (advance_witnesses vt processed db3) (\<lambda>(reset, db4).
     let db5 = (if reset then reset_virtual_schedule_time db4 else db4);
         vt5 = (if reset then 0 else vt) in
     rbind (check_assert (head_block_num db5 > 14400 \<longrightarrow>
       length active = min STEEMIT_MAX_WITNESSES (length (db_witnesses db5)))) (\<lambda>_.
     rbind (tally_versions db5) (\<lambda>(majority_version, db6).
     let wso = db_schedule db6; (n, names) = new_round (head_block_time db6) active in
     update_median_witness_props (db6\<lparr>db_current_virtual_time := vt5, db_schedule := wso\<lparr>
       wso_current_shuffled_witnesses := names, wso_num_scheduled_witnesses := n,
       wso_witness_pay_normalization_factor := ucast (wso_top19_weight wso) * word_of_nat (length voted)
         + ucast (wso_miner_weight wso) * word_of_nat (length miners)
         + ucast (wso_timeshare_weight wso) * word_of_nat (length running),
       wso_next_shuffle_block_num := word_of_nat (head_block_num db6) + ucast n,
       wso_majority_version := majority_version\<rparr>\<rparr>)))))"

text \<open>The schedule before hardfork 4.\<close>

definition early_voted :: "(account_name \<Rightarrow> account_name \<Rightarrow> bool) \<Rightarrow> database \<Rightarrow> account_name list \<times> 128 word \<times> database" where
  "early_voted name_less db =
    (let voted = take (STEEMIT_MAX_WITNESSES - 2) (map fst (filter (\<lambda>r. wit_pow_worker (snd r) = 0) (vote_order name_less db)));
         db1 = fold (\<lambda>n. change_witness n (\<lambda>w. w\<lparr>wit_virtual_scheduled_time := - 1\<rparr>)) voted db in
     case dropWhile (\<lambda>r. wit_pow_worker (snd r) \<noteq> 0) (schedule_order db1) of
       [] \<Rightarrow> (voted, 0, db1)
     | (n, w) # _ \<Rightarrow>
         (let vt = (if wit_virtual_scheduled_time w = - 1 then 0 else wit_virtual_scheduled_time w);
              lap = (if has_hardfork 2 db then VIRTUAL_SCHEDULE_LAP_LENGTH2 else VIRTUAL_SCHEDULE_LAP_LENGTH)
          in (voted @ [n], vt, change_witness n (\<lambda>w. w\<lparr>wit_virtual_position := 0,
               wit_virtual_scheduled_time := wit_virtual_scheduled_time w + lap div word_of_int (wit_votes w + 1)\<rparr>) db1)))"

fun early_miners :: "bool \<Rightarrow> account_name list \<Rightarrow> (account_name \<times> witness_object) list \<Rightarrow> account_name list" where
  "early_miners voting active [] = active"
| "early_miners voting active ((n, w) # q) =
    (let active' = active @ [n] in
     if voting \<or> length active' \<ge> STEEMIT_MAX_WITNESSES then active' else early_miners voting active' q)"

definition early_schedule :: "(account_name \<Rightarrow> account_name \<Rightarrow> bool) \<Rightarrow> database \<Rightarrow> database result" where
  "early_schedule name_less db =
    (let voting = head_block_num db > STEEMIT_START_MINER_VOTING_BLOCK;
         (voted, vt, db1) = (if dgp_num_pow_witnesses (db_dgp db) = 0 \<or> voting then early_voted name_less db else ([], 0, db));
         db2 = (if unat (dgp_num_pow_witnesses (db_dgp db1)) > STEEMIT_MAX_WITNESSES
           then pop_miners (map fst (take 1 (pow_queue db1))) db1 else db1);
         active = early_miners voting voted (pow_queue db2);
         (n, names) = new_round (head_block_time db2) active in
     update_median_witness_props (db2\<lparr>
       db_current_virtual_time := (if dgp_num_pow_witnesses (db_dgp db2) = 0 \<or> voting then vt else db_current_virtual_time db2),
       db_schedule := (db_schedule db2)\<lparr>wso_current_shuffled_witnesses := names, wso_num_scheduled_witnesses := n,
         wso_next_shuffle_block_num := word_of_nat (head_block_num db2) + ucast n\<rparr>\<rparr>))"

definition update_witness_schedule :: "(account_name \<Rightarrow> account_name \<Rightarrow> bool) \<Rightarrow> database \<Rightarrow> database result" where
  "update_witness_schedule name_less db =
    (if head_block_num db mod STEEMIT_MAX_WITNESSES = 0 then
       (if has_hardfork 4 db then update_witness_schedule4 name_less db else early_schedule name_less db)
     else Inr db)"

section \<open>Sorting\<close>

lemma mset_sort_by: "mset (sort_by before xs) = mset xs"
proof -
  have ins: "mset (insert_by before x ys) = add_mset x (mset ys)" for x ys by (induction ys) auto
  have "mset (foldl (\<lambda>acc x. insert_by before x acc) acc xs) = mset acc + mset xs" for acc
    by (induction xs arbitrary: acc) (auto simp: ins)
  then show ?thesis by (simp add: sort_by_def)
qed

lemma distinct_sort_by: "distinct (map f (sort_by before xs)) \<longleftrightarrow> distinct (map f xs)"
proof -
  have "mset (map f (sort_by before xs)) = mset (map f xs)" by (simp add: mset_sort_by)
  then show ?thesis by (metis mset_eq_imp_distinct_iff)
qed

lemma sort_by_sorted:
  assumes tr: "\<And>x y z. \<not> before y x \<Longrightarrow> \<not> before z y \<Longrightarrow> \<not> before z x" and as: "\<And>x y. before x y \<Longrightarrow> \<not> before y x"
  shows "sorted_wrt (\<lambda>x y. \<not> before y x) (sort_by before xs)"
proof -
  have ins: "sorted_wrt (\<lambda>x y. \<not> before y x) (insert_by before x ys)" if "sorted_wrt (\<lambda>x y. \<not> before y x) ys" for x ys
    using that
  proof (induction ys)
    case (Cons a ys)
    show ?case
    proof (cases "before x a")
      case True
      then have "\<not> before a x" by (rule as)
      then have "\<forall>z \<in> set ys. \<not> before z x" using Cons.prems tr by auto
      then show ?thesis using True Cons.prems \<open>\<not> before a x\<close> by simp
    qed (use Cons in auto)
  qed simp
  have "sorted_wrt (\<lambda>x y. \<not> before y x) (foldl (\<lambda>acc x. insert_by before x acc) acc xs)"
    if "sorted_wrt (\<lambda>x y. \<not> before y x) acc" for acc
    using that by (induction xs arbitrary: acc) (auto simp: ins)
  then show ?thesis by (simp add: sort_by_def)
qed

section \<open>The shuffle permutes the round\<close>

lemma shuffle_target_bounds: "i < n \<Longrightarrow> i \<le> shuffle_target h n i \<and> shuffle_target h n i < n"
proof -
  assume "i < n"
  then have "unat (xorshift (h + word_of_nat i * 2685821657736338717)) mod (n - i) < n - i" by simp
  with \<open>i < n\<close> show ?thesis unfolding shuffle_target_def by linarith
qed

lemma swap_at_take:
  assumes "i < n" "j < n" "n \<le> length xs"
  shows "mset (take n (swap_at i j xs)) = mset (take n xs)" "length (swap_at i j xs) = length xs"
proof -
  have "take n (swap_at i j xs) = (take n xs)[i := take n xs ! j, j := take n xs ! i]"
    using assms by (simp add: swap_at_def take_update_swap)
  also have "mset \<dots> = mset (take n xs)" using assms by (intro mset_swap) simp_all
  finally show "mset (take n (swap_at i j xs)) = mset (take n xs)" .
qed (simp add: swap_at_def)

lemma shuffle_permutes:
  assumes "n \<le> length xs"
  shows "mset (take n (shuffle_round now n xs)) = mset (take n xs)" "length (shuffle_round now n xs) = length xs"
proof -
  let ?f = "\<lambda>i. swap_at i (shuffle_target (push_bit 32 (word_of_int now)) n i)"
  have "mset (take n (fold ?f is xs)) = mset (take n xs) \<and> length (fold ?f is xs) = length xs"
    if "\<forall>i \<in> set is. i < n" for "is" using that assms
  proof (induction "is" arbitrary: xs)
    case (Cons i "is")
    then have "i < n" "shuffle_target (push_bit 32 (word_of_int now)) n i < n" using shuffle_target_bounds by auto
    from swap_at_take [OF this Cons.prems(2)] Cons show ?case by simp
  qed simp
  from this [of "[0..<n]"] show "mset (take n (shuffle_round now n xs)) = mset (take n xs)"
      "length (shuffle_round now n xs) = length xs"
    by (simp_all add: shuffle_round_def Let_def)
qed

lemma new_round_names:
  assumes "active \<noteq> []" "length active \<le> STEEMIT_MAX_WITNESSES"
  shows "new_round now active = (n, names) \<Longrightarrow> unat n = length active \<and> mset (take (unat n) names) = mset active
    \<and> length names = STEEMIT_MAX_WITNESSES"
proof -
  have m: "max (Suc 0) (length active) = length active" using assms(1) by (cases active) auto
  have "unat (word_of_nat (length active) :: 8 word) = length active"
    using assms(2) by (simp add: unat_of_nat STEEMIT_MAX_WITNESSES_def)
  then show "new_round now active = (n, names) \<Longrightarrow> ?thesis" if "new_round now active = (n, names)"
    using that assms(2) shuffle_permutes [of "length active" "active @ replicate (STEEMIT_MAX_WITNESSES - length active) []" now]
    by (auto simp: new_round_def m Let_def)
qed

section \<open>Who is in the round\<close>

definition key_rows :: "database \<Rightarrow> (account_name \<times> public_key) list" where
  "key_rows db = map (\<lambda>(n, w). (n, wit_signing_key w)) (db_witnesses db)"

text \<open>The switch-off state and the keys of the witnesses are those of another state.\<close>

definition same_keys :: "database \<Rightarrow> database \<Rightarrow> bool" where
  "same_keys db db' \<longleftrightarrow> key_rows db' = key_rows db \<and> db_hardfork db' = db_hardfork db"

lemma same_keys_change:
  assumes "\<And>w. wit_signing_key (f w) = wit_signing_key w"
  shows "same_keys db (change_witness n f db)"
  using assms by (auto simp: same_keys_def key_rows_def change_witness_def t_modify_def)

lemma same_keys_trans: "same_keys db1 db2 \<Longrightarrow> same_keys db2 db3 \<Longrightarrow> same_keys db1 db3"
  by (simp add: same_keys_def)

lemma same_keys_fold:
  assumes "\<And>n d. same_keys d (g n d)"
  shows "same_keys db (fold g ns db)"
proof (induction ns arbitrary: db)
  case (Cons n ns)
  show ?case using same_keys_trans [OF assms Cons] by simp
qed (simp add: same_keys_def)

lemma same_keys_mark: "same_keys db (mark_schedule s ns db)"
  unfolding mark_schedule_def by (rule same_keys_fold) (rule same_keys_change, simp)

lemma same_keys_pop: "same_keys db (pop_miners ns db)"
  unfolding pop_miners_def
proof (rule same_keys_fold)
  fix n and d :: database
  show "same_keys d ((change_witness n (\<lambda>w. w\<lparr>wit_pow_worker := 0\<rparr>) d)
     \<lparr>db_dgp := (db_dgp d)\<lparr>dgp_num_pow_witnesses := dgp_num_pow_witnesses (db_dgp d) - 1\<rparr>\<rparr>)"
    using same_keys_change [of "\<lambda>w. w\<lparr>wit_pow_worker := 0\<rparr>" d n] by (simp add: same_keys_def key_rows_def)
qed

lemma same_keys_advance: "advance_witnesses vt ns db = Inr (r, db') \<Longrightarrow> same_keys db db'"
proof (induction vt ns db rule: advance_witnesses.induct)
  case (2 vt n ns db)
  then obtain w where w: "get_witness n db = Inr w" by auto
  show ?case
  proof (cases "lap_time vt w < vt")
    case True
    then show ?thesis using "2.prems" w by (simp add: same_keys_def)
  next
    case False
    let ?f = "\<lambda>w. w\<lparr>wit_virtual_position := 0, wit_virtual_last_update := vt, wit_virtual_scheduled_time := lap_time vt w\<rparr>"
    have "same_keys (change_witness n ?f db) db'" using "2.IH" [OF False] "2.prems" w False by simp
    then show ?thesis using same_keys_trans same_keys_change [of ?f db n] by fastforce
  qed
qed (simp add: same_keys_def)

lemma same_keys_reset: "same_keys db (reset_virtual_schedule_time db)"
  by (auto simp: same_keys_def reset_virtual_schedule_time_def key_rows_def)

lemma same_keys_tally: "tally_versions db = Inr (v, db') \<Longrightarrow> same_keys db db'"
  by (auto simp: tally_versions_def Let_def same_keys_def key_rows_def split: if_splits)

lemma same_keys_medians: "update_median_witness_props db = Inr db' \<Longrightarrow> same_keys db db' \<and> db_schedule db' = db_schedule db"
  by (auto simp: update_median_witness_props_def same_keys_def key_rows_def)

text \<open>A witness that may be scheduled.\<close>

definition eligible :: "database \<Rightarrow> account_name \<Rightarrow> bool" where
  "eligible db n \<longleftrightarrow> (\<exists>k. (n, k) \<in> set (key_rows db) \<and> (has_hardfork 14 db \<longrightarrow> k \<noteq> []))"

lemma eligible_same: "same_keys db db' \<Longrightarrow> eligible db' n = eligible db n"
  by (simp add: eligible_def same_keys_def has_hardfork_def)

lemma eligible_row: "(n, w) \<in> set (db_witnesses db) \<Longrightarrow> \<not> switched_off db w \<Longrightarrow> eligible db n"
  by (force simp: eligible_def key_rows_def switched_off_def)

lemma key_rows_names: "map fst (db_witnesses db) = map fst (key_rows db)"
  by (simp add: key_rows_def comp_def case_prod_unfold)

lemma names_same: "same_keys db db' \<Longrightarrow> map fst (db_witnesses db') = map fst (db_witnesses db)"
  by (simp only: key_rows_names same_keys_def)

lemma select_voted_ok:
  assumes "t_wf (db_witnesses db)"
  shows "distinct (select_voted name_less db)" "\<forall>n \<in> set (select_voted name_less db). eligible db n"
    "length (select_voted name_less db) \<le> 19"
proof -
  have "distinct (map fst (vote_order name_less db))" using assms by (simp add: vote_order_def distinct_sort_by t_wf_def)
  then show "distinct (select_voted name_less db)" by (simp add: select_voted_def distinct_map_filter)
  show "\<forall>n \<in> set (select_voted name_less db). eligible db n"
    using eligible_row by (fastforce simp: select_voted_def vote_order_def dest!: in_set_takeD)
qed (simp add: select_voted_def STEEMIT_MAX_VOTED_WITNESSES_def)

lemma select_miners_ok:
  assumes "select_miners db voted miners q = (chosen, popped)" "distinct (map fst q)" "distinct miners"
    "set miners \<inter> fst ` set q = {}" "set miners \<inter> set voted = {}" "length miners \<le> 1" "set q \<subseteq> set (db_witnesses db)"
    "\<forall>n \<in> set miners. eligible db n"
  shows "distinct chosen \<and> set chosen \<inter> set voted = {} \<and> length chosen \<le> 1 \<and> (\<forall>n \<in> set chosen. eligible db n)"
  using assms
proof (induction db voted miners q arbitrary: chosen popped rule: select_miners.induct)
  case (2 db voted miners n w q)
  show ?case
  proof (cases "length miners < STEEMIT_MAX_MINER_WITNESSES")
    case False
    then show ?thesis using "2.prems" by auto
  next
    case True
    then have m: "miners = []" by (simp add: STEEMIT_MAX_MINER_WITNESSES_def)
    have "eligible db n" if "\<not> switched_off db w" using eligible_row [of n w db] that "2.prems"(7) by auto
    then show ?thesis using "2.IH" [OF True refl] "2.prems" True
      by (auto simp: m Let_def split: prod.splits if_splits)
  qed
qed auto

lemma select_timeshare_ok:
  assumes "select_timeshare db chosen cnt vt q = (active, processed, vt')" "distinct (map fst q)" "set q \<subseteq> set (db_witnesses db)"
  shows "distinct active \<and> set active \<subseteq> fst ` set q - set chosen \<and> length active \<le> STEEMIT_MAX_WITNESSES - cnt
    \<and> (\<forall>n \<in> set active. eligible db n)"
  using assms
proof (induction db chosen cnt vt q arbitrary: active processed vt' rule: select_timeshare.induct)
  case (2 db chosen cnt vt n w q)
  show ?case
  proof (cases "cnt < STEEMIT_MAX_WITNESSES")
    case False
    then show ?thesis using "2.prems" by auto
  next
    case True
    let ?new = "\<not> switched_off db w \<and> n \<notin> set chosen"
    obtain a p v where rec: "select_timeshare db chosen (if ?new then cnt + 1 else cnt) (wit_virtual_scheduled_time w) q = (a, p, v)"
      by (metis prod_cases3)
    have res: "active = (if ?new then n # a else a)" using "2.prems"(1) True rec by (simp add: Let_def split: if_splits)
    have IH: "distinct a \<and> set a \<subseteq> fst ` set q - set chosen \<and> length a \<le> STEEMIT_MAX_WITNESSES - (if ?new then cnt + 1 else cnt)
        \<and> (\<forall>n \<in> set a. eligible db n)"
      using "2.IH" [OF True refl rec] "2.prems"(2,3) by simp
    have "eligible db n" if ?new using eligible_row [of n w db] that "2.prems"(3) by auto
    then show ?thesis using IH res "2.prems"(2) True by auto
  qed
qed auto

lemma t_wf_names: "t_wf (db_witnesses db) \<longleftrightarrow> distinct (map fst (db_witnesses db))"
  by (simp add: t_wf_def)

lemma queues_ok:
  assumes "t_wf (db_witnesses db)"
  shows "distinct (map fst (pow_queue db))" "set (pow_queue db) \<subseteq> set (db_witnesses db)"
    "distinct (map fst (schedule_order db))" "set (schedule_order db) \<subseteq> set (db_witnesses db)"
  using assms by (auto simp: pow_queue_def schedule_order_def distinct_sort_by distinct_map_filter t_wf_def)

definition schedule_ok :: "database \<Rightarrow> account_name list \<Rightarrow> bool" where
  "schedule_ok db active \<longleftrightarrow> distinct active \<and> length active \<le> STEEMIT_MAX_WITNESSES \<and> (\<forall>n \<in> set active. eligible db n)"

lemma update_witness_schedule4_active:
  assumes "update_witness_schedule4 name_less db = Inr db'" "t_wf (db_witnesses db)"
  shows "\<exists>active now n names. schedule_ok db active \<and> same_keys db db'
    \<and> set (select_voted name_less db) \<subseteq> set active \<and> new_round now active = (n, names)
    \<and> wso_num_scheduled_witnesses (db_schedule db') = n \<and> wso_current_shuffled_witnesses (db_schedule db') = names"
proof -
  let ?voted = "select_voted name_less db"
  let ?db1 = "mark_schedule Top19 ?voted db"
  obtain miners popped where mi: "(if \<not> has_hardfork 28 db then select_miners ?db1 ?voted [] (pow_queue ?db1) else ([], []))
      = (miners, popped)" by fastforce
  let ?db2 = "pop_miners popped (mark_schedule Miner miners ?db1)"
  obtain running processed vt where ru: "select_timeshare ?db2 (?voted @ miners) (length ?voted + length miners)
      (db_current_virtual_time ?db2) (schedule_order ?db2) = (running, processed, vt)" by (metis prod_cases3)
  let ?db3 = "mark_schedule Timeshare running ?db2" and ?active = "?voted @ miners @ running"
  obtain reset db4 where adv: "advance_witnesses vt processed ?db3 = Inr (reset, db4)"
    using assms(1) by (auto simp: update_witness_schedule4_def Let_def mi ru)
  let ?db5 = "if reset then reset_virtual_schedule_time db4 else db4"
  obtain v db6 where tal: "tally_versions ?db5 = Inr (v, db6)"
    using assms(1) by (auto simp: update_witness_schedule4_def Let_def mi ru adv)
  obtain n names where nr: "new_round (head_block_time db6) ?active = (n, names)" by fastforce
  obtain wso vt5 where fin: "update_median_witness_props (db6\<lparr>db_current_virtual_time := vt5, db_schedule := wso\<rparr>) = Inr db'"
      "wso_num_scheduled_witnesses wso = n" "wso_current_shuffled_witnesses wso = names"
    using assms(1) by (fastforce simp: update_witness_schedule4_def Let_def mi ru adv tal nr)
  have k1: "same_keys db ?db1" by (rule same_keys_mark)
  have k2: "same_keys db ?db2" by (rule same_keys_trans [OF k1 same_keys_trans [OF same_keys_mark same_keys_pop]])
  have "same_keys db ?db5" using same_keys_trans [OF k2 same_keys_trans [OF same_keys_mark same_keys_advance [OF adv]]]
      same_keys_reset same_keys_trans by auto
  then have k6: "same_keys db db6" using same_keys_tally [OF tal] same_keys_trans by blast
  have fd: "same_keys db db'" "db_schedule db' = wso"
    using same_keys_medians [OF fin(1)] k6 by (auto simp: same_keys_def key_rows_def)
  have wf: "t_wf (db_witnesses ?db1)" "t_wf (db_witnesses ?db2)"
    using assms(2) names_same [OF k1] names_same [OF k2] by (simp_all add: t_wf_names)
  have voted: "distinct ?voted" "\<forall>n \<in> set ?voted. eligible db n" "length ?voted \<le> 19"
    using select_voted_ok [OF assms(2)] by auto
  have miners: "distinct miners \<and> set miners \<inter> set ?voted = {} \<and> length miners \<le> 1 \<and> (\<forall>n \<in> set miners. eligible db n)"
  proof (cases "has_hardfork 28 db")
    case False
    then have "select_miners ?db1 ?voted [] (pow_queue ?db1) = (miners, popped)" using mi by simp
    from select_miners_ok [OF this] queues_ok [OF wf(1)] show ?thesis by (simp add: eligible_same [OF k1])
  qed (use mi in simp)
  have running: "distinct running \<and> set running \<inter> (set ?voted \<union> set miners) = {}
      \<and> length running \<le> STEEMIT_MAX_WITNESSES - (length ?voted + length miners) \<and> (\<forall>n \<in> set running. eligible db n)"
    using select_timeshare_ok [OF ru] queues_ok [OF wf(2)] by (auto simp: eligible_same [OF k2])
  have "schedule_ok db ?active" using voted miners running by (auto simp: schedule_ok_def STEEMIT_MAX_WITNESSES_def)
  then show ?thesis using fd fin nr by (intro exI [of _ ?active] exI) auto
qed

section \<open>Votes on versions\<close>

lemma majority_loop_mem: "majority_loop all n vs = Some v \<Longrightarrow> v \<in> set vs"
  by (induction all n vs rule: majority_loop.induct) (auto simp: Let_def split: if_splits)

lemma majority_loop_count:
  assumes "majority_loop all n vs = Some v" "sorted_wrt (\<lambda>x y. y \<le> x) vs" "distinct vs"
  shows "STEEMIT_HARDFORK_REQUIRED_WITNESSES \<le> n + length (filter (\<lambda>x. v \<le> x \<and> x \<in> set vs) all)"
  using assms
proof (induction all n vs rule: majority_loop.induct)
  case (2 all n u vs)
  let ?c = "length (filter (\<lambda>x. x = u) all)"
  have split: "length (filter (\<lambda>x. v \<le> x \<and> x \<in> set (u # vs)) all)
      = length (filter (\<lambda>x. x = u \<and> v \<le> x) all) + length (filter (\<lambda>x. v \<le> x \<and> x \<in> set vs) all)"
    using "2.prems"(3) by (induction all) auto
  show ?case
  proof (cases "n + ?c \<ge> STEEMIT_HARDFORK_REQUIRED_WITNESSES")
    case True
    then have "v = u" using "2.prems"(1) by simp
    then show ?thesis using True split by (simp add: conj_commute cong: filter_cong) (metis (mono_tags, lifting) filter_cong le_add1 order.refl order_trans add_left_mono)
  next
    case False
    then have rec: "majority_loop all (n + ?c) vs = Some v" using "2.prems"(1) by (simp add: Let_def)
    have "v \<in> set vs" by (rule majority_loop_mem [OF rec])
    then have "v \<le> u" using "2.prems"(2) by simp
    then have "filter (\<lambda>x. x = u \<and> v \<le> x) all = filter (\<lambda>x. x = u) all" by (auto intro: filter_cong)
    then show ?thesis using "2.IH" [OF refl False rec] "2.prems"(2,3) split by simp
  qed
qed simp

section \<open>Properties\<close>


text \<open>
  C32. The version of the majority changes only to a version that 17 witnesses of the round have
  reached, and a hardfork is scheduled only when 17 of them voted for that version and that time;
  otherwise no hardfork stays scheduled.
\<close>

theorem tally_versions_supermajority:
  assumes "tally_versions db = Inr (v, db')" "has_hardfork 5 db"
  shows "\<exists>ws. round_objects db = Inr ws
    \<and> (v \<noteq> wso_majority_version (db_schedule db) \<longrightarrow> 17 \<le> length (filter (\<lambda>w. v \<le> wit_running_version w) ws))
    \<and> (hpo_next_hardfork (db_hardfork_property db') \<noteq> hpo_current_hardfork_version (db_hardfork_property db) \<longrightarrow>
        17 \<le> length (filter (\<lambda>w. wit_hardfork_version_vote w = hpo_next_hardfork (db_hardfork_property db')
          \<and> wit_hardfork_time_vote w = hpo_next_hardfork_time (db_hardfork_property db')) ws))"
proof -
  obtain ws where ws: "round_objects db = Inr ws" using assms by (auto simp: tally_versions_def Let_def)
  let ?vs = "map wit_running_version ws" and ?hs = "map (\<lambda>w. (wit_hardfork_version_vote w, wit_hardfork_time_vote w)) ws"
  have v: "v = (case majority_of ?vs of None \<Rightarrow> wso_majority_version (db_schedule db) | Some v \<Rightarrow> v)"
    and hp: "db_hardfork_property db' = (case voted_hardfork ?hs of
        Some (v, t) \<Rightarrow> (db_hardfork_property db)\<lparr>hpo_next_hardfork := v, hpo_next_hardfork_time := t\<rparr>
      | None \<Rightarrow> (db_hardfork_property db)\<lparr>hpo_next_hardfork := hpo_current_hardfork_version (db_hardfork_property db)\<rparr>)"
    using assms ws by (auto simp: tally_versions_def Let_def)
  have "17 \<le> length (filter (\<lambda>w. v \<le> wit_running_version w) ws)" if "v \<noteq> wso_majority_version (db_schedule db)"
  proof -
    have m: "majority_loop ?vs 0 (sort_by (\<lambda>a b. a > b) (remdups ?vs)) = Some v"
      using that v by (simp add: majority_of_def split: option.splits)
    have "sorted_wrt (\<lambda>x y. \<not> y > x) (sort_by (\<lambda>a b. a > b) (remdups ?vs))" by (rule sort_by_sorted) auto
    then have "sorted_wrt (\<lambda>x y. y \<le> x) (sort_by (\<lambda>a b. a > b) (remdups ?vs))" by (simp add: not_less)
    moreover have "distinct (sort_by (\<lambda>a b. a > b) (remdups ?vs))"
      using distinct_sort_by [of "\<lambda>x. x" "\<lambda>a b. a > b" "remdups ?vs"] by simp
    ultimately have "17 \<le> length (filter (\<lambda>x. v \<le> x \<and> x \<in> set (sort_by (\<lambda>a b. a > b) (remdups ?vs))) ?vs)"
      using majority_loop_count [OF m] by (simp add: STEEMIT_HARDFORK_REQUIRED_WITNESSES_def)
    also have "\<dots> \<le> length (filter (\<lambda>w. v \<le> wit_running_version w) ws)"
      by (simp add: filter_map comp_def) (rule length_filter_imp, simp)
    finally show ?thesis .
  qed
  moreover have "17 \<le> length (filter (\<lambda>w. wit_hardfork_version_vote w = hpo_next_hardfork (db_hardfork_property db')
          \<and> wit_hardfork_time_vote w = hpo_next_hardfork_time (db_hardfork_property db')) ws)"
    if sched: "hpo_next_hardfork (db_hardfork_property db') \<noteq> hpo_current_hardfork_version (db_hardfork_property db)"
  proof -
    obtain u t where ut: "voted_hardfork ?hs = Some (u, t)" using sched hp by (auto split: option.splits)
    then have "17 \<le> length (filter (\<lambda>x. x = (u, t)) ?hs)"
      by (auto simp: voted_hardfork_def find_Some_iff STEEMIT_HARDFORK_REQUIRED_WITNESSES_def)
    then show ?thesis using hp ut by (simp add: filter_map comp_def)
  qed
  ultimately show ?thesis using ws by blast
qed

section \<open>Concrete rounds\<close>

definition demo_round :: database where
  "demo_round = reset_virtual_schedule_time (mark_schedule Timeshare [] (mark_schedule Miner []
     (mark_schedule Top19 [''alice'', ''bob''] demo_chain)))"

lemma demo_round_facts:
  "db_schedule demo_round = demo_schedule" "head_block_num demo_round = 1000" "head_block_time demo_round = 1000000"
  "db_hardfork demo_round = 30" "db_hardfork_property demo_round = db_hardfork_property demo_db"
  "map fst (db_witnesses demo_round) = [''alice'', ''bob'']"
  "\<forall>r \<in> set (db_witnesses demo_round). wit_props (snd r) = new_chain_properties"
  by (simp_all add: demo_round_def reset_virtual_schedule_time_def mark_schedule_def change_witness_def t_modify_def
      demo_chain_def demo_producer_def demo_db_def demo_dgp_def)

lemma demo_round_objects: "\<exists>a b. scheduled_objects [''alice'', ''bob''] demo_round = Inr [a, b]
    \<and> scheduled_objects [''bob'', ''alice''] demo_round = Inr [b, a]
    \<and> wit_props a = new_chain_properties \<and> wit_props b = new_chain_properties"
proof -
  obtain a b where t: "db_witnesses demo_round = [(''alice'', a), (''bob'', b)]"
    using demo_round_facts(6) by (auto simp: map_eq_Cons_conv)
  then show ?thesis using demo_round_facts(7) by (auto simp: get_witness_def t_get_def)
qed

lemma tally_frame:
  "round_objects db = Inr ws \<Longrightarrow> \<exists>v h. tally_versions db = Inr (v, db\<lparr>db_hardfork_property := h\<rparr>)"
  by (auto simp: tally_versions_def Let_def intro: exI [of _ "db_hardfork_property db"])

lemma scheduled_objects_same:
  "db_witnesses db = db_witnesses db' \<Longrightarrow> scheduled_objects ns db = scheduled_objects ns db'"
  by (induction ns) (auto simp: get_witness_def)

lemma demo_schedule_run: "\<exists>db'. update_witness_schedule4 (\<lambda>a b. False) demo_chain = Inr db'"
proof -
  have voted: "select_voted (\<lambda>a b. False) demo_chain = [''alice'', ''bob'']"
    by (simp add: select_voted_def vote_order_def sort_by_def switched_off_def chain_eval STEEMIT_MAX_VOTED_WITNESSES_def)
  have hf: "has_hardfork 28 demo_chain" by (simp add: has_hardfork_def demo_chain_def demo_db_def)
  let ?db = "mark_schedule Miner [] (mark_schedule Top19 [''alice'', ''bob''] demo_chain)"
  have run: "select_timeshare (pop_miners [] ?db) [''alice'', ''bob''] (Suc (Suc 0)) (db_current_virtual_time (pop_miners [] ?db))
      (schedule_order (pop_miners [] ?db)) = ([], [''alice'', ''bob''], - 1)"
    by (simp add: pop_miners_def schedule_order_def sort_by_def mark_schedule_def change_witness_def t_modify_def
        demo_chain_def demo_producer_def STEEMIT_MAX_WITNESSES_def Let_def)
  have adv: "advance_witnesses (- 1) [''alice'', ''bob''] (mark_schedule Timeshare [] (pop_miners [] ?db))
      = Inr (True, mark_schedule Timeshare [] (pop_miners [] ?db))"
    by (simp add: pop_miners_def lap_time_def mark_schedule_def change_witness_def t_modify_def get_witness_def t_get_def
        demo_chain_def demo_producer_def VIRTUAL_SCHEDULE_LAP_LENGTH2_def)
  have dr: "reset_virtual_schedule_time (mark_schedule Timeshare [] (pop_miners [] ?db)) = demo_round"
    by (simp add: demo_round_def pop_miners_def)
  have "round_objects demo_round = scheduled_objects [''alice'', ''bob''] demo_round"
    by (simp add: round_objects_def demo_round_facts demo_schedule_def)
  then obtain v h where tal: "tally_versions demo_round = Inr (v, demo_round\<lparr>db_hardfork_property := h\<rparr>)"
    using demo_round_objects tally_frame by fastforce
  let ?db6 = "demo_round\<lparr>db_hardfork_property := h\<rparr>"
  obtain n names where nr: "new_round (head_block_time ?db6) [''alice'', ''bob''] = (n, names)" by fastforce
  have names: "unat n = 2" "mset (take 2 names) = {#''alice'', ''bob''#}" "length names = 21"
    using new_round_names [OF _ _ nr] by (auto simp: STEEMIT_MAX_WITNESSES_def numeral_2_eq_2)
  obtain x y where "take 2 names = [x, y]" using names(3) by (cases names; cases "tl names") auto
  then have tk: "take 2 names = [''alice'', ''bob''] \<or> take 2 names = [''bob'', ''alice'']"
    using arg_cong [OF names(2), of set_mset] by (auto simp: doubleton_eq_iff)
  have med: "\<exists>db'. update_median_witness_props (?db6\<lparr>db_current_virtual_time := vt, db_schedule := wso\<rparr>) = Inr db'"
    if w: "wso_current_shuffled_witnesses wso = names" "wso_num_scheduled_witnesses wso = n" for vt wso
  proof -
    let ?d = "?db6\<lparr>db_current_virtual_time := vt, db_schedule := wso\<rparr>"
    have ro: "round_objects ?d = scheduled_objects (take 2 names) demo_round"
      using w names scheduled_objects_same [of ?d demo_round] by (simp add: round_objects_def)
    have "has_hardfork 27 ?d" by (simp add: has_hardfork_def demo_round_facts)
    then obtain m where "median_props ?d [new_chain_properties, new_chain_properties] = Inr m"
      using median_props_pair [of ?d new_chain_properties] by (auto simp: new_chain_properties_def)
    then show ?thesis using ro tk demo_round_objects by (auto simp: update_median_witness_props_def)
  qed
  show ?thesis
    using med nr tal
    by (simp add: update_witness_schedule4_def voted hf run adv dr Let_def demo_round_facts
        del: rbind_Inr advance_witnesses.simps)
qed


definition demo_voters :: "account_name list" where
  "demo_voters = map (\<lambda>i. [char_of (97 + i)]) [0..<17]"

definition demo_supermajority :: database where
  "demo_supermajority = demo_db\<lparr>
     db_witnesses := map (\<lambda>n. (n, (demo_producer n 0)\<lparr>wit_running_version := 0x1F0000,
       wit_hardfork_version_vote := 0x1F0000, wit_hardfork_time_vote := 2000000\<rparr>)) demo_voters,
     db_schedule := demo_schedule\<lparr>wso_current_shuffled_witnesses := demo_voters, wso_num_scheduled_witnesses := 17\<rparr>\<rparr>"

lemma demo_supermajority_objects: "round_objects demo_supermajority = Inr (map (\<lambda>n. (demo_producer n 0)\<lparr>wit_running_version := 0x1F0000,
       wit_hardfork_version_vote := 0x1F0000, wit_hardfork_time_vote := 2000000\<rparr>) demo_voters)"
proof -
  have "t_get n (db_witnesses demo_supermajority) = Some ((demo_producer n 0)\<lparr>wit_running_version := 0x1F0000,
       wit_hardfork_version_vote := 0x1F0000, wit_hardfork_time_vote := 2000000\<rparr>)" if "n \<in> set demo_voters" for n
    using that by (simp add: t_get_def demo_supermajority_def map_of_map_restrict comp_def)
  then have "scheduled_objects demo_voters demo_supermajority = Inr (map (\<lambda>n. (demo_producer n 0)\<lparr>wit_running_version := 0x1F0000,
       wit_hardfork_version_vote := 0x1F0000, wit_hardfork_time_vote := 2000000\<rparr>) demo_voters)"
    by (rule scheduled_objects_all [rule_format])
  moreover have "length demo_voters = 17" by (simp add: demo_voters_def)
  ultimately show ?thesis by (simp add: round_objects_def demo_supermajority_def)
qed

theorem tally_versions_supermajority_witness:
  "\<exists>v db'. tally_versions demo_supermajority = Inr (v, db') \<and> v = 0x1F0000
    \<and> hpo_next_hardfork (db_hardfork_property db') = 0x1F0000
    \<and> (\<exists>ws :: witness_object list. length ws = 17 \<and> 17 \<le> length (filter (\<lambda>w. v \<le> wit_running_version w) ws))"
proof -
  let ?ws = "map (\<lambda>n. (demo_producer n 0)\<lparr>wit_running_version := 0x1F0000,
       wit_hardfork_version_vote := 0x1F0000, wit_hardfork_time_vote := 2000000\<rparr>) demo_voters"
  have len: "length demo_voters = 17" by (simp add: demo_voters_def)
  then have rep: "map wit_running_version ?ws = replicate 17 0x1F0000"
      "map (\<lambda>w. (wit_hardfork_version_vote w, wit_hardfork_time_vote w)) ?ws = replicate 17 (0x1F0000, 2000000)"
    by (simp_all add: comp_def map_replicate_const)
  have rd: "remdups (replicate 17 x) = [x]" for x :: 'z by (simp add: numeral_eq_Suc)
  have hf: "has_hardfork 5 demo_supermajority" by (simp add: demo_supermajority_def demo_db_def has_hardfork_def)
  have tal: "\<exists>db'. tally_versions demo_supermajority = Inr (0x1F0000, db')
      \<and> hpo_next_hardfork (db_hardfork_property db') = 0x1F0000"
    unfolding tally_versions_def Let_def demo_supermajority_objects
    using hf by (simp add: len rep rd majority_of_def voted_hardfork_def sort_by_def STEEMIT_HARDFORK_REQUIRED_WITNESSES_def
        del: map_map)
  then obtain db' where db': "tally_versions demo_supermajority = Inr (0x1F0000, db')"
      "hpo_next_hardfork (db_hardfork_property db') = 0x1F0000" by blast
  moreover have "wso_majority_version (db_schedule demo_supermajority) = 0" by (simp add: demo_supermajority_def demo_schedule_def)
  ultimately obtain ws where "round_objects demo_supermajority = Inr ws" "17 \<le> length (filter (\<lambda>w. 0x1F0000 \<le> wit_running_version w) ws)"
    using tally_versions_supermajority [OF db'(1) hf] by auto
  moreover from this(1) have "length ws = 17" using demo_supermajority_objects len by auto
  ultimately show ?thesis using db' by blast
qed

end
