(* ===== verification/Voting.thy ===== *)
theory Voting
  imports Witness_Schedule Operations
begin

text \<open>
  Votes for witnesses (\<^verbatim>\<open>libraries/chain/database.cpp\<close>: \<open>adjust_witness_vote\<close>,
  \<open>adjust_witness_votes\<close>, the two \<open>adjust_proxied_witness_votes\<close>, \<open>clear_witness_votes\<close>;
  \<^verbatim>\<open>steem_evaluator.cpp\<close>: the evaluators of \<open>account_witness_vote\<close> and \<open>account_witness_proxy\<close>). A
  row of \<open>db_witness_votes\<close> is the \<open>rshares\<close> an account gives a witness; the votes of an account
  are visited in the order of the witnesses. The lemmas show that the votes of a witness stay
  between zero and the total of vesting shares, that each account's counter is the number of its
  votes, and that a proxy that was accepted leads to a voting account.
\<close>

definition STEEMIT_MAX_ACCOUNT_WITNESS_VOTES :: nat where "STEEMIT_MAX_ACCOUNT_WITNESS_VOTES = 30"

section \<open>Weights\<close>

fun safe_sum :: "int \<Rightarrow> int list \<Rightarrow> int result" where
  "safe_sum s [] = Inr s"
| "safe_sum s (x # xs) = rbind (safe64 (s + x)) (\<lambda>t. safe_sum t xs)"

definition witness_vote_weight :: "account_object \<Rightarrow> int result" where
  "witness_vote_weight a = safe_sum (amount (acc_vesting_shares a)) (acc_proxied_vsf_votes a)"

fun negate_all :: "int list \<Rightarrow> int list result" where
  "negate_all [] = Inr []"
| "negate_all (x # xs) = rbind (safe64 (- x)) (\<lambda>y. rbind (negate_all xs) (\<lambda>ys. Inr (y # ys)))"

section \<open>One vote\<close>

definition voted_object :: "database \<Rightarrow> int \<Rightarrow> witness_object \<Rightarrow> witness_object" where
  "voted_object db votes w =
    (let cvt = db_current_virtual_time db;
         delta_pos = word_of_int (wit_votes w) * (cvt - wit_virtual_last_update w);
         position = wit_virtual_position w + delta_pos;
         lap = (if has_hardfork 2 db then VIRTUAL_SCHEDULE_LAP_LENGTH2 else VIRTUAL_SCHEDULE_LAP_LENGTH);
         t = cvt + (lap - position) div word_of_int (votes + 1)
     in w\<lparr>wit_virtual_position := position, wit_virtual_last_update := cvt, wit_votes := votes,
       wit_virtual_scheduled_time := (if has_hardfork 4 db \<and> t < cvt then - 1 else t)\<rparr>)"

definition adjust_witness_vote :: "account_name \<Rightarrow> account_name \<Rightarrow> int \<Rightarrow> bool \<Rightarrow> database \<Rightarrow> database result" where
  "adjust_witness_vote a wit delta overwrite db =
     rbind (get_witness wit db) (\<lambda>w.
     rbind (safe64 (wit_votes w + delta)) (\<lambda>v.
     let votes = max v 0 in
     rbind (check_assert (votes \<le> amount (dgp_total_vesting_shares (db_dgp db)))) (\<lambda>_.
     let db1 = change_witness wit (voted_object db votes) db in
     case t_get (a, wit) (db_witness_votes db1) of None \<Rightarrow> Inr db1
     | Some r \<Rightarrow> rbind (safe64 ((if overwrite then 0 else r) + delta)) (\<lambda>r'.
         Inr (db1\<lparr>db_witness_votes := t_modify (a, wit) (\<lambda>_. max r' 0) (db_witness_votes db1)\<rparr>)))))"

fun adjust_each :: "account_name \<Rightarrow> int \<Rightarrow> account_name list \<Rightarrow> database \<Rightarrow> database result" where
  "adjust_each a delta [] db = Inr db"
| "adjust_each a delta (wit # wits) db = rbind (adjust_witness_vote a wit delta False db) (adjust_each a delta wits)"

definition voted_witnesses :: "account_name \<Rightarrow> database \<Rightarrow> account_name list" where
  "voted_witnesses a db = filter (\<lambda>wit. t_get (a, wit) (db_witness_votes db) \<noteq> None) (map fst (db_witnesses db))"

definition adjust_witness_votes :: "account_name \<Rightarrow> int \<Rightarrow> database \<Rightarrow> database result" where
  "adjust_witness_votes a delta db = adjust_each a delta (voted_witnesses a db) db"

definition clear_witness_votes :: "account_name \<Rightarrow> database \<Rightarrow> database result" where
  "clear_witness_votes a db =
    (let db1 = db\<lparr>db_witness_votes := filter (\<lambda>((a', wit), r). a' \<noteq> a) (db_witness_votes db)\<rparr> in
     if has_hardfork 6 db then modify_account a (\<lambda>acc. Inr (acc\<lparr>acc_witnesses_voted_for := 0\<rparr>)) db1 else Inr db1)"

section \<open>Proxies\<close>

text \<open>The weight of a vote by its number of votes since hardfork 22.\<close>

definition shared_delta :: "database \<Rightarrow> account_object \<Rightarrow> int \<Rightarrow> int result" where
  "shared_delta db a delta =
    (if has_hardfork 22 db then safe_div delta (max (uint (acc_witnesses_voted_for a)) 1) else Inr delta)"

fun add_proxied :: "nat \<Rightarrow> int list \<Rightarrow> nat \<Rightarrow> int list \<Rightarrow> int list result" where
  "add_proxied depth delta 0 votes = Inr votes"
| "add_proxied depth delta (Suc i) votes =
     rbind (safe64 (votes ! (i + depth) + delta ! i)) (\<lambda>v. add_proxied depth delta i (votes[i + depth := v]))"

function adjust_proxied_witness_votes :: "account_name \<Rightarrow> int list \<Rightarrow> nat \<Rightarrow> database \<Rightarrow> database result" where
  "adjust_proxied_witness_votes n delta depth db =
     rbind (get_account n db) (\<lambda>a.
     if acc_proxy a \<noteq> [] then
       (if depth \<ge> STEEMIT_MAX_PROXY_RECURSION_DEPTH then Inr db
        else (case modify_account (acc_proxy a) (\<lambda>p.
            rbind (add_proxied depth delta (STEEMIT_MAX_PROXY_RECURSION_DEPTH - depth) (acc_proxied_vsf_votes p))
              (\<lambda>v. Inr (p\<lparr>acc_proxied_vsf_votes := v\<rparr>))) db of
          Inl e \<Rightarrow> Inl e
        | Inr db1 \<Rightarrow> adjust_proxied_witness_votes (acc_proxy a) delta (depth + 1) db1))
     else
       rbind (safe_sum 0 (rev (take (STEEMIT_MAX_PROXY_RECURSION_DEPTH - depth + 1) delta))) (\<lambda>total_delta.
       rbind (shared_delta db a total_delta) (\<lambda>d. adjust_witness_votes n d db)))"
  by pat_completeness auto
termination by (relation "measure (\<lambda>(n, delta, depth, db). STEEMIT_MAX_PROXY_RECURSION_DEPTH - depth)") auto

text \<open>The overload for one weight.\<close>

function adjust_proxied_weight :: "account_name \<Rightarrow> int \<Rightarrow> nat \<Rightarrow> database \<Rightarrow> database result" where
  "adjust_proxied_weight n delta depth db =
     rbind (get_account n db) (\<lambda>a.
     if acc_proxy a \<noteq> [] then
       (if depth \<ge> STEEMIT_MAX_PROXY_RECURSION_DEPTH then Inr db
        else (case modify_account (acc_proxy a) (\<lambda>p.
            rbind (safe64 (acc_proxied_vsf_votes p ! depth + delta))
              (\<lambda>v. Inr (p\<lparr>acc_proxied_vsf_votes := (acc_proxied_vsf_votes p)[depth := v]\<rparr>))) db of
          Inl e \<Rightarrow> Inl e
        | Inr db1 \<Rightarrow> adjust_proxied_weight (acc_proxy a) delta (depth + 1) db1))
     else rbind (shared_delta db a delta) (\<lambda>d. adjust_witness_votes n d db))"
  by pat_completeness auto
termination by (relation "measure (\<lambda>(n, delta, depth, db). STEEMIT_MAX_PROXY_RECURSION_DEPTH - depth)") auto

declare adjust_proxied_witness_votes.simps [simp del] adjust_proxied_weight.simps [simp del]

text \<open>
  The check for loops. The source keeps a pointer to a copy that the loop body has left behind; the
  model reads the account the pointer was set to.
\<close>

function follow_proxies :: "account_name list \<Rightarrow> account_object \<Rightarrow> database \<Rightarrow> unit result" where
  "follow_proxies chain c db =
    (if acc_proxy c = [] then Inr ()
     else (case get_account (acc_proxy c) db of Inl e \<Rightarrow> Inl e
       | Inr next \<Rightarrow>
           if acc_proxy c \<in> set chain then Inl (Logic_Exception ''proxy_would_create_loop'')
           else if length chain + 1 > STEEMIT_MAX_PROXY_RECURSION_DEPTH then Inl (Logic_Exception ''proxy_chain_is_too_long'')
           else follow_proxies (acc_proxy c # chain) next db))"
  by pat_completeness auto
termination by (relation "measure (\<lambda>(chain, c, db). STEEMIT_MAX_PROXY_RECURSION_DEPTH - length chain)") auto

declare follow_proxies.simps [simp del]

definition set_proxy :: "account_name \<Rightarrow> account_name \<Rightarrow> database \<Rightarrow> database result" where
  "set_proxy n p = modify_account n (\<lambda>a. Inr (a\<lparr>acc_proxy := p\<rparr>))"

definition account_witness_proxy_apply :: "account_witness_proxy_operation \<Rightarrow> database \<Rightarrow> database result" where
  "account_witness_proxy_apply o1 db =
     rbind (get_account (awp_account o1) db) (\<lambda>account.
     rbind (check_logic ''proxy_must_change'' (acc_proxy account \<noteq> awp_proxy o1)) (\<lambda>_.
     rbind (check_logic ''voter_declined_voting_rights'' (acc_can_vote account)) (\<lambda>_.
     rbind (negate_all (amount (acc_vesting_shares account) # acc_proxied_vsf_votes account)) (\<lambda>delta.
     rbind (adjust_proxied_witness_votes (awp_account o1) delta 0 db) (\<lambda>db1.
     if awp_proxy o1 \<noteq> [] then
       rbind (get_account (awp_proxy o1) db1) (\<lambda>new_proxy.
       rbind (follow_proxies (remdups [awp_account o1, awp_proxy o1]) new_proxy db1) (\<lambda>_.
       rbind (clear_witness_votes (awp_account o1) db1) (\<lambda>db2.
       rbind (set_proxy (awp_account o1) (awp_proxy o1) db2) (\<lambda>db3.
       rbind (negate_all delta) (\<lambda>back.
       adjust_proxied_witness_votes (awp_account o1) back 0 db3)))))
     else set_proxy (awp_account o1) (awp_proxy o1) db1)))))"

section \<open>Voting\<close>

definition create_vote :: "account_name \<Rightarrow> account_name \<Rightarrow> int \<Rightarrow> database \<Rightarrow> database result" where
  "create_vote a wit r db = rbind (t_insert (a, wit) r (db_witness_votes db)) (\<lambda>t. Inr (db\<lparr>db_witness_votes := t\<rparr>))"

definition add_plain_votes :: "account_name \<Rightarrow> int \<Rightarrow> database \<Rightarrow> database result" where
  "add_plain_votes wit d db = rbind (get_witness wit db) (\<lambda>w. rbind (safe64 (wit_votes w + d)) (\<lambda>v.
     Inr (change_witness wit (\<lambda>w. w\<lparr>wit_votes := v\<rparr>) db)))"

text \<open>The shares of the other votes when the number of votes goes from \<open>n\<close> to \<open>m\<close>.\<close>

definition share_change :: "int \<Rightarrow> int \<Rightarrow> int \<Rightarrow> (int \<times> int) result" where
  "share_change weight n m =
     rbind (safe_div weight n) (\<lambda>old_delta. rbind (safe_div weight m) (\<lambda>new_delta.
     rbind (safe64 (- old_delta)) (\<lambda>x. rbind (safe64 (x + new_delta)) (\<lambda>d. Inr (d, new_delta)))))"

definition approve_witness :: "account_object \<Rightarrow> int \<Rightarrow> account_name \<Rightarrow> account_name \<Rightarrow> database \<Rightarrow> database result" where
  "approve_witness voter weight a wit db =
    (if has_hardfork 2 db then
       rbind (check_logic ''account_has_too_many_witness_votes''
         (unat (acc_witnesses_voted_for voter) < STEEMIT_MAX_ACCOUNT_WITNESS_VOTES)) (\<lambda>_.
       if has_hardfork 22 db then
         (let n = uint (acc_witnesses_voted_for voter) in
          rbind (share_change weight (max n 1) (n + 1)) (\<lambda>(change, new_delta).
          rbind (adjust_witness_votes a change db) (\<lambda>db1.
          rbind (create_vote a wit 0 db1) (\<lambda>db2.
          adjust_witness_vote a wit new_delta False db2))))
       else rbind (create_vote a wit 0 db) (\<lambda>db1.
         if has_hardfork 3 db then adjust_witness_vote a wit weight False db1 else adjust_proxied_weight a weight 0 db1))
     else rbind (create_vote a wit weight db) (\<lambda>db1. add_plain_votes wit weight db1))"

definition reject_witness :: "account_object \<Rightarrow> int \<Rightarrow> account_name \<Rightarrow> account_name \<Rightarrow> database \<Rightarrow> database result" where
  "reject_witness voter weight a wit db =
    (if has_hardfork 2 db then
       (if has_hardfork 22 db then
          (let n = acc_witnesses_voted_for voter in
           rbind (share_change weight (uint n) (max (uint (n - 1)) 1)) (\<lambda>(change, new_delta).
           rbind (adjust_witness_votes a change db) (\<lambda>db1.
           rbind (safe64 (- new_delta)) (\<lambda>d. adjust_witness_vote a wit d False db1))))
        else rbind (safe64 (- weight)) (\<lambda>d.
          if has_hardfork 3 db then adjust_witness_vote a wit d False db else adjust_proxied_weight a d 0 db))
     else rbind (get_witness wit db) (\<lambda>w. rbind (safe64 (wit_votes w - weight)) (\<lambda>v.
       Inr (change_witness wit (\<lambda>w. w\<lparr>wit_votes := v\<rparr>) db))))"

definition account_witness_vote_apply :: "account_witness_vote_operation \<Rightarrow> database \<Rightarrow> database result" where
  "account_witness_vote_apply o1 db =
     rbind (get_account (awv_account o1) db) (\<lambda>voter.
     rbind (check_logic ''cannot_vote_when_route_are_set'' (acc_proxy voter = [])) (\<lambda>_.
     rbind (witness_vote_weight voter) (\<lambda>weight.
     rbind (if awv_approve o1 then check_logic ''voter_declined_voting_rights'' (acc_can_vote voter) else Inr ()) (\<lambda>_.
     rbind (get_witness (awv_witness o1) db) (\<lambda>_.
     if t_get (awv_account o1, awv_witness o1) (db_witness_votes db) = None then
       rbind (check_logic ''witness_vote_does_not_exist'' (awv_approve o1)) (\<lambda>_.
       rbind (approve_witness voter weight (awv_account o1) (awv_witness o1) db) (\<lambda>db1.
       modify_account (awv_account o1) (\<lambda>a. Inr (a\<lparr>acc_witnesses_voted_for := acc_witnesses_voted_for a + 1\<rparr>)) db1))
     else
       rbind (check_logic ''witness_vote_already_exist'' (\<not> awv_approve o1)) (\<lambda>_.
       rbind (reject_witness voter weight (awv_account o1) (awv_witness o1) db) (\<lambda>db1.
       rbind (modify_account (awv_account o1) (\<lambda>a. Inr (a\<lparr>acc_witnesses_voted_for := acc_witnesses_voted_for a - 1\<rparr>)) db1) (\<lambda>db2.
       Inr (db2\<lparr>db_witness_votes := t_remove (awv_account o1, awv_witness o1) (db_witness_votes db2)\<rparr>)))))))))"

section \<open>What every adjustment keeps\<close>

definition counters :: "database \<Rightarrow> (account_name \<times> 16 word) list" where
  "counters db = map (\<lambda>(n, a). (n, acc_witnesses_voted_for a)) (db_accounts db)"

definition vote_count :: "account_name \<Rightarrow> database \<Rightarrow> nat" where
  "vote_count n db = length (filter (\<lambda>k. fst k = n) (map fst (db_witness_votes db)))"

definition votes_bounded :: "database \<Rightarrow> bool" where
  "votes_bounded db \<longleftrightarrow>
     t_all (\<lambda>_ w. 0 \<le> wit_votes w \<and> wit_votes w \<le> amount (dgp_total_vesting_shares (db_dgp db))) (db_witnesses db)
     \<and> t_all (\<lambda>_ r. 0 \<le> r) (db_witness_votes db)"

definition votes_counted :: "database \<Rightarrow> bool" where
  "votes_counted db \<longleftrightarrow> t_wf (db_accounts db) \<and> t_wf (db_witness_votes db)
     \<and> t_all (\<lambda>n a. uint (acc_witnesses_voted_for a) = int (vote_count n db)
         \<and> vote_count n db \<le> STEEMIT_MAX_ACCOUNT_WITNESS_VOTES) (db_accounts db)"

definition vote_frame :: "database \<Rightarrow> database \<Rightarrow> bool" where
  "vote_frame db db' \<longleftrightarrow> map fst (db_witness_votes db') = map fst (db_witness_votes db)
     \<and> counters db' = counters db \<and> db_hardfork db' = db_hardfork db \<and> db_dgp db' = db_dgp db
     \<and> (votes_bounded db \<longrightarrow> votes_bounded db')"

lemma vote_frame_refl [simp]: "vote_frame db db"
  by (simp add: vote_frame_def)

lemma vote_frame_trans: "vote_frame db1 db2 \<Longrightarrow> vote_frame db2 db3 \<Longrightarrow> vote_frame db1 db3"
  by (simp add: vote_frame_def)

lemma votes_counted_counters: "votes_counted db \<longleftrightarrow> distinct (map fst (counters db)) \<and> t_wf (db_witness_votes db)
    \<and> (\<forall>(n, c) \<in> set (counters db). uint c = int (vote_count n db) \<and> vote_count n db \<le> STEEMIT_MAX_ACCOUNT_WITNESS_VOTES)"
  by (auto simp: votes_counted_def counters_def t_wf_def t_all_def comp_def case_prod_unfold)

lemma vote_frame_counted: "vote_frame db db' \<Longrightarrow> votes_counted db \<Longrightarrow> votes_counted db'"
  by (simp add: votes_counted_counters vote_frame_def vote_count_def t_wf_def)

lemma vote_frame_bounded: "vote_frame db db' \<Longrightarrow> votes_bounded db \<Longrightarrow> votes_bounded db'"
  by (simp add: vote_frame_def)

lemma adjust_witness_vote_cases:
  assumes "adjust_witness_vote a wit delta ovr db = Inr db'"
  obtains votes where "0 \<le> votes" "votes \<le> amount (dgp_total_vesting_shares (db_dgp db))"
    "db' = change_witness wit (voted_object db votes) db
      \<or> (\<exists>r. 0 \<le> r \<and> db' = (change_witness wit (voted_object db votes) db)
           \<lparr>db_witness_votes := t_modify (a, wit) (\<lambda>_. r) (db_witness_votes db)\<rparr>)"
proof -
  from assms obtain w v where w: "t_get wit (db_witnesses db) = Some w"
    and le: "max v 0 \<le> amount (dgp_total_vesting_shares (db_dgp db))"
    and r: "(case t_get (a, wit) (db_witness_votes db) of None \<Rightarrow> Inr (change_witness wit (voted_object db (max v 0)) db)
     | Some r \<Rightarrow> rbind (safe64 ((if ovr then 0 else r) + delta)) (\<lambda>r'.
         Inr ((change_witness wit (voted_object db (max v 0)) db)\<lparr>db_witness_votes := t_modify (a, wit) (\<lambda>_. max r' 0) (db_witness_votes db)\<rparr>))) = Inr db'"
    by (auto simp: adjust_witness_vote_def get_witness_def Let_def change_witness_def simp del: rbind_Inr
        split: option.splits dest!: iffD1 [OF rbind_Inr])
  define votes where "votes = max v 0"
  have v: "0 \<le> votes" "votes \<le> amount (dgp_total_vesting_shares (db_dgp db))" using le by (simp_all add: votes_def)
  have "db' = change_witness wit (voted_object db votes) db
      \<or> (\<exists>r. 0 \<le> r \<and> db' = (change_witness wit (voted_object db votes) db)
           \<lparr>db_witness_votes := t_modify (a, wit) (\<lambda>_. r) (db_witness_votes db)\<rparr>)"
    using r unfolding votes_def [symmetric]
    by (cases "t_get (a, wit) (db_witness_votes db)") (auto intro!: exI [of _ "max _ 0"])
  with v show ?thesis by (rule that)
qed

lemma adjust_witness_vote_frame:
  assumes "adjust_witness_vote a wit delta ovr db = Inr db'"
  shows "vote_frame db db'" and "db_accounts db' = db_accounts db"
proof -
  obtain votes where v: "0 \<le> votes" "votes \<le> amount (dgp_total_vesting_shares (db_dgp db))"
    and db': "db' = change_witness wit (voted_object db votes) db
      \<or> (\<exists>r. 0 \<le> r \<and> db' = (change_witness wit (voted_object db votes) db)
           \<lparr>db_witness_votes := t_modify (a, wit) (\<lambda>_. r) (db_witness_votes db)\<rparr>)"
    by (rule adjust_witness_vote_cases [OF assms])
  have "votes_bounded db \<Longrightarrow> t_all (\<lambda>_ w. 0 \<le> wit_votes w \<and> wit_votes w \<le> amount (dgp_total_vesting_shares (db_dgp db)))
      (t_modify wit (voted_object db votes) (db_witnesses db))"
    unfolding votes_bounded_def by (rule t_all_modify) (use v in \<open>auto simp: voted_object_def Let_def\<close>)
  then show "vote_frame db db'"
    using db' by (auto simp: vote_frame_def counters_def change_witness_def votes_bounded_def intro: t_all_modify)
  show "db_accounts db' = db_accounts db" using db' by (auto simp: change_witness_def)
qed

lemma adjust_each_frame:
  "adjust_each a delta wits db = Inr db' \<Longrightarrow> vote_frame db db' \<and> db_accounts db' = db_accounts db"
proof (induction wits arbitrary: db)
  case (Cons wit wits)
  then obtain db1 where 1: "adjust_witness_vote a wit delta False db = Inr db1" "adjust_each a delta wits db1 = Inr db'"
    by auto
  show ?case using Cons.IH [OF 1(2)] adjust_witness_vote_frame [OF 1(1)] vote_frame_trans by simp
qed simp

lemma adjust_witness_votes_frame:
  "adjust_witness_votes a delta db = Inr db' \<Longrightarrow> vote_frame db db' \<and> db_accounts db' = db_accounts db"
  by (simp add: adjust_witness_votes_def adjust_each_frame)

lemma modify_account_counters:
  assumes "modify_account n f db = Inr db1" "t_wf (db_accounts db)"
  obtains a a' where "t_get n (db_accounts db) = Some a" "f a = Inr a'"
    "db1 = db\<lparr>db_accounts := t_modify n (\<lambda>_. a') (db_accounts db)\<rparr>"
    "counters db1 = map (\<lambda>(k, c). (k, if k = n then acc_witnesses_voted_for a' else c)) (counters db)"
proof -
  from assms(1) obtain a a' where a: "t_get n (db_accounts db) = Some a" "f a = Inr a'"
    and db1: "db1 = db\<lparr>db_accounts := t_modify n (\<lambda>_. a') (db_accounts db)\<rparr>" by auto
  have "counters db1 = map (\<lambda>(k, c). (k, if k = n then acc_witnesses_voted_for a' else c)) (counters db)"
    by (auto simp: db1 counters_def t_modify_def)
  with a db1 show ?thesis by (rule that)
qed

lemma counters_wf: "t_wf (db_accounts db) \<longleftrightarrow> distinct (map fst (counters db))"
  by (simp add: counters_def t_wf_def comp_def case_prod_unfold)

lemma counter_unique: "t_wf (db_accounts db) \<Longrightarrow> t_get n (db_accounts db) = Some a
    \<Longrightarrow> (n, c) \<in> set (counters db) \<longleftrightarrow> c = acc_witnesses_voted_for a"
  unfolding counters_def t_wf_def t_get_def
  by (auto simp: image_iff dest: map_of_SomeD eq_key_imp_eq_value intro!: bexI [of _ "(n, a)"])

lemma modify_proxied_frame:
  assumes "modify_account n f db = Inr db1" "t_wf (db_accounts db)"
    "\<And>a a'. f a = Inr a' \<Longrightarrow> acc_witnesses_voted_for a' = acc_witnesses_voted_for a"
  shows "vote_frame db db1"
proof -
  obtain a a' where a: "t_get n (db_accounts db) = Some a" "f a = Inr a'"
    and db1: "db1 = db\<lparr>db_accounts := t_modify n (\<lambda>_. a') (db_accounts db)\<rparr>"
    and c: "counters db1 = map (\<lambda>(k, c). (k, if k = n then acc_witnesses_voted_for a' else c)) (counters db)"
    by (rule modify_account_counters [OF assms(1,2)])
  have "counters db1 = counters db"
    unfolding c by (rule map_idI) (use counter_unique [OF assms(2) a(1)] assms(3) [OF a(2)] in auto)
  then show ?thesis by (simp add: vote_frame_def db1 votes_bounded_def)
qed

lemma add_proxied_length: "add_proxied depth delta i votes = Inr v \<Longrightarrow> length v = length votes"
  by (induction depth delta i votes rule: add_proxied.induct) auto

text \<open>The recursion along the proxies is a chain of such steps: what they all keep, it keeps.\<close>

lemma adjust_proxied_witness_votes_rel:
  assumes "adjust_proxied_witness_votes n delta depth db = Inr db'"
    and "\<And>d. R d d" "\<And>d1 d2 d3. R d1 d2 \<Longrightarrow> R d2 d3 \<Longrightarrow> R d1 d3"
    and "\<And>m x d d'. adjust_witness_votes m x d = Inr d' \<Longrightarrow> R d d'"
    and "\<And>m f d d'. modify_account m f d = Inr d' \<Longrightarrow>
      (\<And>p p'. f p = Inr p' \<Longrightarrow> \<exists>v. length v = length (acc_proxied_vsf_votes p) \<and> p' = p\<lparr>acc_proxied_vsf_votes := v\<rparr>) \<Longrightarrow> R d d'"
  shows "R db db'"
  using assms(1)
proof (induction n delta depth db rule: adjust_proxied_witness_votes.induct)
  case (1 n delta depth db)
  obtain a where a: "get_account n db = Inr a" using "1.prems" by (subst (asm) adjust_proxied_witness_votes.simps) auto
  show ?case
  proof (cases "acc_proxy a = [] \<or> depth \<ge> STEEMIT_MAX_PROXY_RECURSION_DEPTH")
    case True
    then show ?thesis using "1.prems" a assms(2,4)
      by (subst (asm) adjust_proxied_witness_votes.simps) (auto split: if_splits)
  next
    case False
    let ?f = "\<lambda>p. rbind (add_proxied depth delta (STEEMIT_MAX_PROXY_RECURSION_DEPTH - depth) (acc_proxied_vsf_votes p))
              (\<lambda>v. Inr (p\<lparr>acc_proxied_vsf_votes := v\<rparr>))"
    obtain db1 where f: "modify_account (acc_proxy a) ?f db = Inr db1"
      and r: "adjust_proxied_witness_votes (acc_proxy a) delta (depth + 1) db1 = Inr db'"
      using "1.prems" a False
      by (subst (asm) adjust_proxied_witness_votes.simps) (auto split: sum.splits simp del: modify_account_Inr)
    have "R db db1" by (rule assms(5) [OF f]) (auto dest: add_proxied_length)
    moreover have "R db1 db'" using "1.IH" [OF _ _ f r] False by simp
    ultimately show ?thesis by (rule assms(3))
  qed
qed

lemma adjust_proxied_weight_rel:
  assumes "adjust_proxied_weight n delta depth db = Inr db'"
    and "\<And>d. R d d" "\<And>d1 d2 d3. R d1 d2 \<Longrightarrow> R d2 d3 \<Longrightarrow> R d1 d3"
    and "\<And>m x d d'. adjust_witness_votes m x d = Inr d' \<Longrightarrow> R d d'"
    and "\<And>m f d d'. modify_account m f d = Inr d' \<Longrightarrow>
      (\<And>p p'. f p = Inr p' \<Longrightarrow> \<exists>v. length v = length (acc_proxied_vsf_votes p) \<and> p' = p\<lparr>acc_proxied_vsf_votes := v\<rparr>) \<Longrightarrow> R d d'"
  shows "R db db'"
  using assms(1)
proof (induction n delta depth db rule: adjust_proxied_weight.induct)
  case (1 n delta depth db)
  obtain a where a: "get_account n db = Inr a" using "1.prems" by (subst (asm) adjust_proxied_weight.simps) auto
  show ?case
  proof (cases "acc_proxy a = [] \<or> depth \<ge> STEEMIT_MAX_PROXY_RECURSION_DEPTH")
    case True
    then show ?thesis using "1.prems" a assms(2,4)
      by (subst (asm) adjust_proxied_weight.simps) (auto split: if_splits)
  next
    case False
    let ?f = "\<lambda>p. rbind (safe64 (acc_proxied_vsf_votes p ! depth + delta))
              (\<lambda>v. Inr (p\<lparr>acc_proxied_vsf_votes := (acc_proxied_vsf_votes p)[depth := v]\<rparr>))"
    obtain db1 where f: "modify_account (acc_proxy a) ?f db = Inr db1"
      and r: "adjust_proxied_weight (acc_proxy a) delta (depth + 1) db1 = Inr db'"
      using "1.prems" a False
      by (subst (asm) adjust_proxied_weight.simps) (auto split: sum.splits simp del: modify_account_Inr)
    have "R db db1"
    proof (rule assms(5) [OF f])
      fix p p' assume "?f p = Inr p'"
      then show "\<exists>v. length v = length (acc_proxied_vsf_votes p) \<and> p' = p\<lparr>acc_proxied_vsf_votes := v\<rparr>"
        by (intro exI [of _ "acc_proxied_vsf_votes p'"]) auto
    qed
    moreover have "R db1 db'" using "1.IH" [OF _ _ f r] False by simp
    ultimately show ?thesis by (rule assms(3))
  qed
qed

definition vote_step :: "database \<Rightarrow> database \<Rightarrow> bool" where
  "vote_step db db' \<longleftrightarrow> (t_wf (db_accounts db) \<longrightarrow> vote_frame db db')"

lemma vote_step_trans: "vote_step d1 d2 \<Longrightarrow> vote_step d2 d3 \<Longrightarrow> vote_step d1 d3"
  using vote_frame_trans by (auto simp: vote_step_def counters_wf vote_frame_def)

lemma vote_step_modify:
  assumes "modify_account m f d = Inr d'"
    "\<And>p p'. f p = Inr p' \<Longrightarrow> \<exists>v. length v = length (acc_proxied_vsf_votes p) \<and> p' = p\<lparr>acc_proxied_vsf_votes := v\<rparr>"
  shows "vote_step d d'"
  unfolding vote_step_def
proof
  assume "t_wf (db_accounts d)"
  then show "vote_frame d d'" by (rule modify_proxied_frame [OF assms(1)]) (use assms(2) in fastforce)
qed

lemma adjust_proxied_witness_votes_frame:
  assumes "adjust_proxied_witness_votes n delta depth db = Inr db'" "t_wf (db_accounts db)"
  shows "vote_frame db db'"
proof -
  have "vote_step db db'"
  proof (rule adjust_proxied_witness_votes_rel [OF assms(1), where R = vote_step])
    show "vote_step d d" for d by (simp add: vote_step_def)
    show "vote_step d d'" if "adjust_witness_votes m x d = Inr d'" for m x d d'
      using adjust_witness_votes_frame [OF that] by (simp add: vote_step_def)
  qed (fact vote_step_trans vote_step_modify)+
  then show ?thesis using assms(2) by (simp add: vote_step_def)
qed

section \<open>Proofs for the evaluators\<close>

lemma create_vote_step:
  assumes "create_vote a wit r db = Inr db'" "0 \<le> r"
  shows "t_get (a, wit) (db_witness_votes db) = None" "map fst (db_witness_votes db') = map fst (db_witness_votes db) @ [(a, wit)]"
    "counters db' = counters db" "db_hardfork db' = db_hardfork db" "db_dgp db' = db_dgp db"
    "votes_bounded db \<Longrightarrow> votes_bounded db'" "db_accounts db' = db_accounts db"
  using assms by (auto simp: create_vote_def votes_bounded_def counters_def t_create_def t_all_def)

text \<open>What approving a witness does to the votes, whatever way the weight is spread.\<close>

lemma approve_witness_step:
  assumes "approve_witness voter weight a wit db = Inr db'" "has_hardfork 3 db" "t_wf (db_accounts db)"
  shows "map fst (db_witness_votes db') = map fst (db_witness_votes db) @ [(a, wit)]" "counters db' = counters db"
    "votes_bounded db \<Longrightarrow> votes_bounded db'" "db_hardfork db' = db_hardfork db"
    "unat (acc_witnesses_voted_for voter) < STEEMIT_MAX_ACCOUNT_WITNESS_VOTES"
    "t_get (a, wit) (db_witness_votes db) = None" "db_dgp db' = db_dgp db"
proof -
  have h: "has_hardfork 2 db" using assms(2) by (simp add: has_hardfork_def)
  show "unat (acc_witnesses_voted_for voter) < STEEMIT_MAX_ACCOUNT_WITNESS_VOTES"
    using assms(1) h by (auto simp: approve_witness_def)
  obtain db1 db2 where 1: "vote_frame db db1" and 2: "create_vote a wit 0 db1 = Inr db2" and 3: "vote_frame db2 db'"
  proof (cases "has_hardfork 22 db")
    case True
    then obtain change new_delta db1 db2 where "adjust_witness_votes a change db = Inr db1" "create_vote a wit 0 db1 = Inr db2"
        "adjust_witness_vote a wit new_delta False db2 = Inr db'"
      using assms(1) h by (auto simp: approve_witness_def Let_def simp del: rbind_Inr dest!: iffD1 [OF rbind_Inr])
    then show ?thesis using that [of db1 db2] adjust_witness_votes_frame adjust_witness_vote_frame(1) by blast
  next
    case False
    then obtain db2 where 2: "create_vote a wit 0 db = Inr db2" and 3: "adjust_witness_vote a wit weight False db2 = Inr db'"
      using assms(1,2) h by (auto simp: approve_witness_def create_vote_def has_hardfork_def simp del: rbind_Inr dest!: iffD1 [OF rbind_Inr])
    show ?thesis using that [OF vote_frame_refl 2] adjust_witness_vote_frame(1) [OF 3] by blast
  qed
  note c = create_vote_step [OF 2 order_refl]
  show "map fst (db_witness_votes db') = map fst (db_witness_votes db) @ [(a, wit)]"
    using 1 c(2) 3 by (simp add: vote_frame_def)
  show "counters db' = counters db" using 1 c(3) 3 by (simp add: vote_frame_def)
  show "votes_bounded db \<Longrightarrow> votes_bounded db'" using 1 c(6) 3 by (simp add: vote_frame_def)
  show "db_hardfork db' = db_hardfork db" using 1 c(4) 3 by (simp add: vote_frame_def)
  show "db_dgp db' = db_dgp db" using 1 c(5) 3 by (simp add: vote_frame_def)
  show "t_get (a, wit) (db_witness_votes db) = None"
    using c(1) 1 by (metis map_of_eq_None_iff t_get_def vote_frame_def list.set_map)
qed

lemma reject_witness_step:
  assumes "reject_witness voter weight a wit db = Inr db'" "has_hardfork 3 db"
  shows "vote_frame db db'"
proof -
  have h: "has_hardfork 2 db" using assms(2) by (simp add: has_hardfork_def)
  show ?thesis
  proof (cases "has_hardfork 22 db")
    case True
    then obtain change d db1 where "adjust_witness_votes a change db = Inr db1" "adjust_witness_vote a wit d False db1 = Inr db'"
      using assms(1) h by (auto simp: reject_witness_def Let_def simp del: rbind_Inr dest!: iffD1 [OF rbind_Inr])
    then show ?thesis using adjust_witness_votes_frame adjust_witness_vote_frame(1) vote_frame_trans by blast
  next
    case False
    then show ?thesis using assms h adjust_witness_vote_frame(1) by (auto simp: reject_witness_def)
  qed
qed

definition voting_ok :: "database \<Rightarrow> bool" where
  "voting_ok db \<longleftrightarrow> votes_bounded db \<and> votes_counted db"

lemma vote_count_eq: "map fst (db_witness_votes db') = map fst (db_witness_votes db) @ [(a, wit)] \<Longrightarrow>
    vote_count n db' = vote_count n db + (if n = a then 1 else 0)"
  by (simp add: vote_count_def)

lemma modify_counter:
  assumes "modify_account a (\<lambda>x. Inr (x\<lparr>acc_witnesses_voted_for := g (acc_witnesses_voted_for x)\<rparr>)) db = Inr db'"
  obtains b where "t_get a (db_accounts db) = Some b" "db_witness_votes db' = db_witness_votes db"
    "counters db' = map (\<lambda>(k, c). (k, if k = a then g (acc_witnesses_voted_for b) else c)) (counters db)"
    "db_hardfork db' = db_hardfork db" "votes_bounded db' = votes_bounded db"
proof -
  from assms obtain b where b: "t_get a (db_accounts db) = Some b"
    and db': "db' = db\<lparr>db_accounts := t_modify a (\<lambda>_. b\<lparr>acc_witnesses_voted_for := g (acc_witnesses_voted_for b)\<rparr>) (db_accounts db)\<rparr>"
    by auto
  have "counters db' = map (\<lambda>(k, c). (k, if k = a then g (acc_witnesses_voted_for b) else c)) (counters db)"
    by (auto simp: db' counters_def t_modify_def)
  with b show ?thesis using that by (simp add: db' votes_bounded_def)
qed

lemma length_filter_remove1:
  "x \<in> set xs \<Longrightarrow> int (length (filter P (remove1 x xs))) = int (length (filter P xs)) - (if P x then 1 else 0)"
  by (induction xs) auto

lemma uint_succ_small:
  fixes w :: "16 word"
  assumes "unat w < 30"
  shows "uint (w + 1) = uint w + 1"
proof -
  have "int (unat w) < int 30" using assms by (rule of_nat_less_iff [THEN iffD2])
  then have "uint w < 30" by simp
  then show ?thesis by (simp add: uint_word_ariths(1))
qed

lemma approve_counted:
  assumes "votes_counted db" "t_get a (db_accounts db) = Some voter"
    and keys: "map fst (db_witness_votes db1) = map fst (db_witness_votes db) @ [(a, wit)]" and c: "counters db1 = counters db"
    and lt: "unat (acc_witnesses_voted_for voter) < STEEMIT_MAX_ACCOUNT_WITNESS_VOTES"
    and new: "t_get (a, wit) (db_witness_votes db) = None"
    and m: "modify_account a (\<lambda>a. Inr (a\<lparr>acc_witnesses_voted_for := acc_witnesses_voted_for a + 1\<rparr>)) db1 = Inr db'"
  shows "votes_counted db'"
proof -
  have wf: "t_wf (db_accounts db)" "t_wf (db_accounts db1)" using assms(1) c by (simp_all add: votes_counted_def counters_wf)
  obtain b where b: "t_get a (db_accounts db1) = Some b" and db': "db_witness_votes db' = db_witness_votes db1"
    and c': "counters db' = map (\<lambda>(k, c). (k, if k = a then acc_witnesses_voted_for b + 1 else c)) (counters db)"
    by (rule modify_counter [OF m]) (auto simp: c)
  have eq: "acc_witnesses_voted_for b = acc_witnesses_voted_for voter"
    using counter_unique [OF wf(1) assms(2)] counter_unique [OF wf(2) b] c by auto
  have suc: "uint (acc_witnesses_voted_for voter + 1) = uint (acc_witnesses_voted_for voter) + 1"
    by (rule uint_succ_small) (use lt in \<open>simp add: STEEMIT_MAX_ACCOUNT_WITNESS_VOTES_def\<close>)
  have cnt: "uint (acc_witnesses_voted_for voter) = int (vote_count a db)"
    using assms(1,2) by (auto simp: votes_counted_def dest: t_all_get)
  have lt': "vote_count a db < STEEMIT_MAX_ACCOUNT_WITNESS_VOTES"
  proof -
    have "int (unat (acc_witnesses_voted_for voter)) = int (vote_count a db)" using cnt by simp
    then show ?thesis using lt by linarith
  qed
  have "t_wf (db_witness_votes db')"
    using assms(1) new by (simp add: db' t_wf_def keys votes_counted_def) (metis (no_types, lifting) list.set_map map_of_eq_None_iff t_get_def)
  moreover have "distinct (map fst (counters db'))"
    using wf(1) by (simp add: c' counters_wf comp_def case_prod_unfold)
  moreover have "uint c = int (vote_count n db') \<and> vote_count n db' \<le> STEEMIT_MAX_ACCOUNT_WITNESS_VOTES"
    if "(n, c) \<in> set (counters db')" for n c
  proof -
    from that obtain c0 where c0: "(n, c0) \<in> set (counters db)" "c = (if n = a then acc_witnesses_voted_for voter + 1 else c0)"
      by (auto simp: c' eq)
    have n: "vote_count n db' = vote_count n db + (if n = a then 1 else 0)"
      by (rule vote_count_eq) (simp add: db' keys)
    have "uint c0 = int (vote_count n db) \<and> vote_count n db \<le> STEEMIT_MAX_ACCOUNT_WITNESS_VOTES"
      using assms(1) c0(1) by (auto simp: votes_counted_counters)
    then show ?thesis using n c0(2) suc cnt lt' by (cases "n = a") auto
  qed
  ultimately show ?thesis by (auto simp: votes_counted_counters)
qed

lemma reject_counted:
  assumes "votes_counted db" "t_get a (db_accounts db) = Some voter" "vote_frame db db1"
    and old: "t_get (a, wit) (db_witness_votes db) \<noteq> None"
    and m: "modify_account a (\<lambda>a. Inr (a\<lparr>acc_witnesses_voted_for := acc_witnesses_voted_for a - 1\<rparr>)) db1 = Inr db2"
  shows "votes_counted (db2\<lparr>db_witness_votes := t_remove (a, wit) (db_witness_votes db2)\<rparr>)" (is "votes_counted ?db")
proof -
  have keys: "map fst (db_witness_votes db1) = map fst (db_witness_votes db)" and c: "counters db1 = counters db"
    using assms(3) by (simp_all add: vote_frame_def)
  have wf: "t_wf (db_accounts db)" "t_wf (db_accounts db1)" using assms(1) c by (simp_all add: votes_counted_def counters_wf)
  obtain b where b: "t_get a (db_accounts db1) = Some b" and db2: "db_witness_votes db2 = db_witness_votes db1"
    and c': "counters db2 = map (\<lambda>(k, c). (k, if k = a then acc_witnesses_voted_for b - 1 else c)) (counters db)"
    by (rule modify_counter [OF m]) (auto simp: c)
  have eq: "acc_witnesses_voted_for b = acc_witnesses_voted_for voter"
    using counter_unique [OF wf(1) assms(2)] counter_unique [OF wf(2) b] c by auto
  have cnt: "uint (acc_witnesses_voted_for voter) = int (vote_count a db)"
    using assms(1,2) by (auto simp: votes_counted_def dest: t_all_get)
  have wfv: "t_wf (db_witness_votes db1)" using assms(1) by (simp add: votes_counted_def t_wf_def keys)
  have mem: "(a, wit) \<in> set (map fst (db_witness_votes db))" using old by (metis list.set_map map_of_eq_None_iff t_get_def)
  have n: "int (vote_count n ?db) = int (vote_count n db) - (if n = a then 1 else 0)" for n
  proof -
    have "map fst (t_remove (a, wit) (db_witness_votes db2)) = remove1 (a, wit) (map fst (db_witness_votes db))"
      using wfv by (simp add: t_remove_def db2 case_prod_unfold filter_map comp_def t_wf_def distinct_remove1_removeAll removeAll_filter_not_eq flip: keys)
        (metis (no_types, lifting) filter_cong)
    then have "vote_count n ?db = length (filter (\<lambda>k. fst k = n) (remove1 (a, wit) (map fst (db_witness_votes db))))"
      by (simp add: vote_count_def)
    then show ?thesis using length_filter_remove1 [OF mem, of "\<lambda>k. fst k = n"] by (simp add: vote_count_def)
  qed
  have le: "vote_count a db \<le> STEEMIT_MAX_ACCOUNT_WITNESS_VOTES"
    using assms(1,2) by (auto simp: votes_counted_def dest: t_all_get)
  have pred: "uint (acc_witnesses_voted_for voter - 1) = uint (acc_witnesses_voted_for voter) - 1"
    using n [of a] cnt by (simp add: uint_sub_if_size)
  have "t_wf (db_witness_votes ?db)" using wfv by (simp add: db2 t_wf_remove)
  moreover have "distinct (map fst (counters ?db))"
    using wf(1) c' by (simp add: counters_wf counters_def comp_def case_prod_unfold)
  moreover have "uint c = int (vote_count n ?db) \<and> vote_count n ?db \<le> STEEMIT_MAX_ACCOUNT_WITNESS_VOTES"
    if "(n, c) \<in> set (counters ?db)" for n c
  proof -
    have "(n, c) \<in> set (counters db2)" using that by (simp add: counters_def)
    then obtain c0 where c0: "(n, c0) \<in> set (counters db)" "c = (if n = a then acc_witnesses_voted_for voter - 1 else c0)"
      by (auto simp: c' eq)
    have "uint c0 = int (vote_count n db) \<and> vote_count n db \<le> STEEMIT_MAX_ACCOUNT_WITNESS_VOTES"
      using assms(1) c0(1) by (auto simp: votes_counted_counters)
    then show ?thesis using n [of n] c0(2) pred cnt le by auto
  qed
  ultimately show ?thesis by (auto simp: votes_counted_counters)
qed

lemma account_witness_vote_ok:
  assumes "voting_ok db" "has_hardfork 3 db" "account_witness_vote_apply o1 db = Inr db'"
  shows "voting_ok db'"
proof -
  let ?a = "awv_account o1" and ?w = "awv_witness o1"
  obtain voter weight where v: "t_get ?a (db_accounts db) = Some voter" "witness_vote_weight voter = Inr weight"
    and r: "(if t_get (?a, ?w) (db_witness_votes db) = None then
       rbind (check_logic ''witness_vote_does_not_exist'' (awv_approve o1)) (\<lambda>_.
       rbind (approve_witness voter weight ?a ?w db) (\<lambda>db1.
       modify_account ?a (\<lambda>a. Inr (a\<lparr>acc_witnesses_voted_for := acc_witnesses_voted_for a + 1\<rparr>)) db1))
     else
       rbind (check_logic ''witness_vote_already_exist'' (\<not> awv_approve o1)) (\<lambda>_.
       rbind (reject_witness voter weight ?a ?w db) (\<lambda>db1.
       rbind (modify_account ?a (\<lambda>a. Inr (a\<lparr>acc_witnesses_voted_for := acc_witnesses_voted_for a - 1\<rparr>)) db1) (\<lambda>db2.
       Inr (db2\<lparr>db_witness_votes := t_remove (?a, ?w) (db_witness_votes db2)\<rparr>))))) = Inr db'"
    using assms(3) by (auto simp: account_witness_vote_apply_def simp del: rbind_Inr modify_account_Inr
        split: if_splits dest!: iffD1 [OF rbind_Inr])
  have ok: "votes_bounded db" "votes_counted db" "t_wf (db_accounts db)"
    using assms(1) by (simp_all add: voting_ok_def votes_counted_def)
  show ?thesis
  proof (cases "t_get (?a, ?w) (db_witness_votes db) = None")
    case True
    with r obtain db1 where 1: "approve_witness voter weight ?a ?w db = Inr db1"
      and m: "modify_account ?a (\<lambda>a. Inr (a\<lparr>acc_witnesses_voted_for := acc_witnesses_voted_for a + 1\<rparr>)) db1 = Inr db'"
      by (auto simp del: modify_account_Inr)
    note s = approve_witness_step [OF 1 assms(2) ok(3)]
    have "votes_counted db'" by (rule approve_counted [OF ok(2) v(1) s(1,2,5,6) m])
    moreover have "votes_bounded db'" using modify_counter [OF m] s(3) [OF ok(1)] by metis
    ultimately show ?thesis by (simp add: voting_ok_def)
  next
    case False
    with r obtain db1 db2 where 1: "reject_witness voter weight ?a ?w db = Inr db1"
      and m: "modify_account ?a (\<lambda>a. Inr (a\<lparr>acc_witnesses_voted_for := acc_witnesses_voted_for a - 1\<rparr>)) db1 = Inr db2"
      and db': "db' = db2\<lparr>db_witness_votes := t_remove (?a, ?w) (db_witness_votes db2)\<rparr>"
      by (auto simp del: modify_account_Inr)
    note f = reject_witness_step [OF 1 assms(2)]
    have "votes_counted db'" unfolding db' by (rule reject_counted [OF ok(2) v(1) f False m])
    moreover have "votes_bounded db2" using modify_counter [OF m] vote_frame_bounded [OF f ok(1)] by metis
    then have "votes_bounded db'" by (simp add: votes_bounded_def db' t_all_remove)
    ultimately show ?thesis by (simp add: voting_ok_def)
  qed
qed

lemma clear_witness_votes_ok:
  assumes "clear_witness_votes a db = Inr db'" "has_hardfork 6 db" "voting_ok db"
  shows "voting_ok db'"
proof -
  let ?d = "db\<lparr>db_witness_votes := filter (\<lambda>((a', wit), r). a' \<noteq> a) (db_witness_votes db)\<rparr>"
  have m: "modify_account a (\<lambda>x. Inr (x\<lparr>acc_witnesses_voted_for := (\<lambda>_. 0) (acc_witnesses_voted_for x)\<rparr>)) ?d = Inr db'"
    using assms(1,2) by (simp add: clear_witness_votes_def Let_def)
  obtain b where vv: "db_witness_votes db' = db_witness_votes ?d"
    and c: "counters db' = map (\<lambda>(k, c). (k, if k = a then 0 else c)) (counters ?d)" and bd: "votes_bounded db' = votes_bounded ?d"
    by (rule modify_counter [OF m]) simp
  have cd: "counters ?d = counters db" by (simp add: counters_def)
  note c = c [unfolded cd]
  have "votes_bounded ?d" using assms(3) by (auto simp: voting_ok_def votes_bounded_def t_all_def)
  moreover have "votes_counted db'"
  proof -
    have "vote_count n db' = (if n = a then 0 else vote_count n db)" for n
      by (auto simp: vote_count_def vv filter_map comp_def case_prod_unfold intro!: arg_cong [of _ _ length] filter_cong)
    moreover have "t_wf (db_witness_votes db')"
      using assms(3) by (simp add: voting_ok_def votes_counted_def vv t_wf_def distinct_map_filter)
    ultimately show ?thesis using assms(3)
      by (auto simp: voting_ok_def votes_counted_counters c comp_def case_prod_unfold)
  qed
  ultimately show ?thesis using bd by (simp add: voting_ok_def)
qed

lemma vote_frame_ok: "vote_frame db db' \<Longrightarrow> voting_ok db \<Longrightarrow> voting_ok db'"
  by (simp add: voting_ok_def vote_frame_counted vote_frame_bounded)

lemma voting_ok_wf: "voting_ok db \<Longrightarrow> t_wf (db_accounts db)"
  by (simp add: voting_ok_def votes_counted_def)

lemma set_proxy_frame: "set_proxy n p db = Inr db' \<Longrightarrow> t_wf (db_accounts db) \<Longrightarrow> vote_frame db db'"
  unfolding set_proxy_def by (rule modify_proxied_frame) auto

lemma account_witness_proxy_ok:
  assumes "voting_ok db" "has_hardfork 6 db" "account_witness_proxy_apply o1 db = Inr db'"
  shows "voting_ok db'"
proof -
  obtain delta db1 where 1: "adjust_proxied_witness_votes (awp_account o1) delta 0 db = Inr db1"
    and r: "(awp_proxy o1 = [] \<and> set_proxy (awp_account o1) (awp_proxy o1) db1 = Inr db') \<or>
      (\<exists>db2 db3 delta2. clear_witness_votes (awp_account o1) db1 = Inr db2 \<and> set_proxy (awp_account o1) (awp_proxy o1) db2 = Inr db3
        \<and> adjust_proxied_witness_votes (awp_account o1) delta2 0 db3 = Inr db')"
    using assms(3) unfolding account_witness_proxy_apply_def
    by (clarsimp simp del: rbind_Inr modify_account_Inr dest!: iffD1 [OF rbind_Inr]) (force simp del: rbind_Inr split: if_splits dest!: iffD1 [OF rbind_Inr])
  have f1: "vote_frame db db1" by (rule adjust_proxied_witness_votes_frame [OF 1 voting_ok_wf [OF assms(1)]])
  note ok1 = vote_frame_ok [OF f1 assms(1)]
  have h1: "has_hardfork 6 db1" using f1 assms(2) by (simp add: vote_frame_def has_hardfork_def)
  from r show ?thesis
  proof (elim disjE exE conjE)
    assume "set_proxy (awp_account o1) (awp_proxy o1) db1 = Inr db'"
    then show ?thesis using set_proxy_frame voting_ok_wf [OF ok1] vote_frame_ok ok1 by blast
  next
    fix db2 db3 delta2
    assume c: "clear_witness_votes (awp_account o1) db1 = Inr db2" and p: "set_proxy (awp_account o1) (awp_proxy o1) db2 = Inr db3"
      and a: "adjust_proxied_witness_votes (awp_account o1) delta2 0 db3 = Inr db'"
    have ok2: "voting_ok db2" by (rule clear_witness_votes_ok [OF c h1 ok1])
    have ok3: "voting_ok db3" by (rule vote_frame_ok [OF set_proxy_frame [OF p voting_ok_wf [OF ok2]] ok2])
    show ?thesis by (rule vote_frame_ok [OF adjust_proxied_witness_votes_frame [OF a voting_ok_wf [OF ok3]] ok3])
  qed
qed

section \<open>Routes of proxies\<close>

definition proxy_of :: "database \<Rightarrow> account_name \<Rightarrow> account_name option" where
  "proxy_of db n = map_option acc_proxy (t_get n (db_accounts db))"

text \<open>A list of accounts each of which is the proxy of the one before, the last voting itself.\<close>

fun proxy_route :: "database \<Rightarrow> account_name list \<Rightarrow> bool" where
  "proxy_route db [] = False"
| "proxy_route db [n] = (proxy_of db n = Some [])"
| "proxy_route db (n # m # ns) = (proxy_of db n = Some m \<and> m \<noteq> [] \<and> proxy_route db (m # ns))"

lemma proxy_route_cong:
  "(\<And>n. n \<in> set ns \<Longrightarrow> proxy_of db' n = proxy_of db n) \<Longrightarrow> proxy_route db' ns = proxy_route db ns"
  by (induction db ns rule: proxy_route.induct) auto

lemma follow_proxies_route:
  "follow_proxies chain c db = Inr () \<Longrightarrow> proxy_of db m = Some (acc_proxy c) \<Longrightarrow> m \<in> set chain
    \<Longrightarrow> length chain \<le> STEEMIT_MAX_PROXY_RECURSION_DEPTH
    \<Longrightarrow> \<exists>ns. proxy_route db (m # ns) \<and> distinct ns \<and> set ns \<inter> set chain = {}
      \<and> length chain + length ns \<le> STEEMIT_MAX_PROXY_RECURSION_DEPTH"
proof (induction chain c db arbitrary: m rule: follow_proxies.induct)
  case (1 chain c db)
  show ?case
  proof (cases "acc_proxy c = []")
    case True
    then show ?thesis using "1.prems" by (intro exI [of _ "[]"]) simp
  next
    case False
    then obtain c' where c': "get_account (acc_proxy c) db = Inr c'" "acc_proxy c \<notin> set chain"
        "length chain + 1 \<le> STEEMIT_MAX_PROXY_RECURSION_DEPTH" "follow_proxies (acc_proxy c # chain) c' db = Inr ()"
      using "1.prems"(1) by (subst (asm) follow_proxies.simps) (auto split: sum.splits if_splits simp del: get_account_Inr)
    have "proxy_of db (acc_proxy c) = Some (acc_proxy c')" using c'(1) by (simp add: proxy_of_def)
    then obtain ns where ns: "proxy_route db (acc_proxy c # ns)" "distinct ns" "set ns \<inter> set (acc_proxy c # chain) = {}"
        "length (acc_proxy c # chain) + length ns \<le> STEEMIT_MAX_PROXY_RECURSION_DEPTH"
      using "1.IH" [OF False c'(1,2) _ c'(4)] c'(3) by fastforce
    then show ?thesis using "1.prems"(2) False c'(2) by (intro exI [of _ "acc_proxy c # ns"]) auto
  qed
qed

text \<open>Moving votes leaves the proxies alone.\<close>

lemma proxy_of_modify:
  assumes "modify_account n f db = Inr db1" "\<And>a a'. f a = Inr a' \<Longrightarrow> acc_proxy a' = acc_proxy a"
  shows "proxy_of db1 m = proxy_of db m"
proof -
  from assms(1) obtain a a' where a: "t_get n (db_accounts db) = Some a" "f a = Inr a'"
    and db1: "db1 = db\<lparr>db_accounts := t_modify n (\<lambda>_. a') (db_accounts db)\<rparr>" by auto
  show ?thesis using a(1) assms(2) [OF a(2)] by (simp add: proxy_of_def db1 t_get_modify)
qed

lemma adjust_proxied_proxies:
  assumes "adjust_proxied_witness_votes n delta depth db = Inr db'"
  shows "proxy_of db' m = proxy_of db m"
proof -
  have "proxy_of db' = proxy_of db"
  proof (rule adjust_proxied_witness_votes_rel [OF assms, where R = "\<lambda>d d'. proxy_of d' = proxy_of d"])
    show "proxy_of d' = proxy_of d" if "adjust_witness_votes k x d = Inr d'" for k x d d'
      using adjust_witness_votes_frame [OF that] by (simp add: proxy_of_def fun_eq_iff)
    show "proxy_of d' = proxy_of d" if "modify_account k f d = Inr d'"
      "\<And>p p'. f p = Inr p' \<Longrightarrow> \<exists>v. length v = length (acc_proxied_vsf_votes p) \<and> p' = p\<lparr>acc_proxied_vsf_votes := v\<rparr>" for k f d d'
      using proxy_of_modify [OF that(1)] that(2) by (fastforce simp: fun_eq_iff)
  qed auto
  then show ?thesis by simp
qed

lemma clear_witness_votes_proxies: "clear_witness_votes n db = Inr db' \<Longrightarrow> proxy_of db' m = proxy_of db m"
  by (auto simp: clear_witness_votes_def Let_def proxy_of_def t_get_modify split: if_splits)

lemma set_proxy_proxies: "set_proxy n p db = Inr db' \<Longrightarrow> proxy_of db' m = (if m = n then Some p else proxy_of db m)"
  by (auto simp: set_proxy_def proxy_of_def t_get_modify)

section \<open>Properties\<close>

text \<open>C34. Once a voter's counter is reset with its votes (hardfork 6), both voting evaluators keep
  every witness's votes between zero and the total of vesting shares and every vote's shares
  non-negative; and each account's counter is exactly the number of its vote rows, never above 30.\<close>

theorem witness_votes_invariant:
  assumes "voting_ok db" "has_hardfork 6 db"
    and "account_witness_vote_apply o1 db = Inr db' \<or> account_witness_proxy_apply o2 db = Inr db'"
  shows "voting_ok db'"
proof -
  have "has_hardfork 3 db" using assms(2) by (simp add: has_hardfork_def)
  then show ?thesis using account_witness_vote_ok account_witness_proxy_ok assms by blast
qed

text \<open>C35. A proxy is accepted only when following it ends: from the account, over its proxy, at most
  two further accounts lead to one that votes itself, and no account is met twice.\<close>

theorem accepted_proxy_route:
  assumes "account_witness_proxy_apply o1 db = Inr db'" "awp_proxy o1 \<noteq> []" "awp_proxy o1 \<noteq> awp_account o1"
  shows "\<exists>ns. proxy_route db' (awp_account o1 # awp_proxy o1 # ns)
    \<and> distinct (awp_account o1 # awp_proxy o1 # ns) \<and> length ns \<le> 2"
proof -
  let ?a = "awp_account o1" and ?p = "awp_proxy o1"
  obtain delta delta2 db1 db2 db3 c where c: "get_account ?p db1 = Inr c"
    and fp: "follow_proxies (remdups [?a, ?p]) c db1 = Inr ()" and c2: "clear_witness_votes ?a db1 = Inr db2"
    and p3: "set_proxy ?a ?p db2 = Inr db3" and a4: "adjust_proxied_witness_votes ?a delta2 0 db3 = Inr db'"
    using assms(1,2) unfolding account_witness_proxy_apply_def
    by (clarsimp simp del: rbind_Inr get_account_Inr remdups.simps dest!: iffD1 [OF rbind_Inr])
  have pr: "proxy_of db' m = (if m = ?a then Some ?p else proxy_of db1 m)" for m
    using adjust_proxied_proxies [OF a4] set_proxy_proxies [OF p3] clear_witness_votes_proxies [OF c2] by simp
  have "proxy_of db1 ?p = Some (acc_proxy c)" using c by (simp add: proxy_of_def)
  moreover have "follow_proxies [?a, ?p] c db1 = Inr ()" using fp assms(3) by auto
  ultimately obtain ns where ns: "proxy_route db1 (?p # ns)" "distinct ns" "set ns \<inter> {?a, ?p} = {}" "length ns \<le> 2"
    using follow_proxies_route [of "[?a, ?p]" c db1 ?p] by (auto simp: STEEMIT_MAX_PROXY_RECURSION_DEPTH_def)
  have "proxy_route db' (?p # ns) = proxy_route db1 (?p # ns)"
    by (rule proxy_route_cong) (use ns assms(3) pr in auto)
  then show ?thesis using ns assms(2,3) pr by (intro exI [of _ ns]) auto
qed

section \<open>A small poll\<close>

definition demo_poll :: database where
  "demo_poll = demo_chain\<lparr>db_dgp := demo_dgp\<lparr>dgp_total_vesting_shares := mk_asset 1000 VESTS_SYMBOL\<rparr>,
     db_accounts := [(''alice'', (demo_account ''alice'')\<lparr>acc_vesting_shares := mk_asset 600 VESTS_SYMBOL\<rparr>),
       (''bob'', (demo_account ''bob'')\<lparr>acc_vesting_shares := mk_asset 400 VESTS_SYMBOL\<rparr>)]\<rparr>"

definition demo_approval :: account_witness_vote_operation where
  "demo_approval = \<lparr>awv_account = ''alice'', awv_witness = ''bob'', awv_approve = True\<rparr>"

definition demo_proxy :: account_witness_proxy_operation where
  "demo_proxy = \<lparr>awp_account = ''bob'', awp_proxy = ''alice''\<rparr>"

lemmas poll_defs = demo_poll_def demo_approval_def demo_proxy_def chain_eval

lemma demo_poll_ok: "voting_ok demo_poll" "has_hardfork 6 demo_poll"
  by (simp_all add: voting_ok_def votes_bounded_def votes_counted_def vote_count_def poll_defs t_all_def t_wf_def has_hardfork_def)

lemma replicate4: "replicate 4 x = [x, x, x, x]"
  by (simp add: numeral_eq_Suc)

lemma add_proxied_numeral: "add_proxied d delta (numeral k) votes =
    rbind (safe64 (votes ! (pred_numeral k + d) + delta ! pred_numeral k))
      (\<lambda>v. add_proxied d delta (pred_numeral k) (votes[pred_numeral k + d := v]))"
  by (simp only: numeral_eq_Suc add_proxied.simps)

lemma demo_approval_result: "\<exists>db'. account_witness_vote_apply demo_approval demo_poll = Inr db'
    \<and> db_witness_votes db' = [((''alice'', ''bob''), 600)]"
  by (simp add: account_witness_vote_apply_def approve_witness_def witness_vote_weight_def share_change_def
      adjust_witness_votes_def adjust_witness_vote_def voted_witnesses_def voted_object_def create_vote_def
      change_witness_def get_account_def get_witness_def modify_account_def safe_div_def safe64_def int64_ok_def cdiv_def
      has_hardfork_def t_get_def t_insert_def t_create_def t_modify_def Let_def STEEMIT_MAX_ACCOUNT_WITNESS_VOTES_def
      STEEMIT_MAX_PROXY_RECURSION_DEPTH_def replicate4 add_proxied_numeral poll_defs del: rbind_Inr)

lemma demo_bob: "get_account ''bob'' demo_poll = Inr ((demo_account ''bob'')\<lparr>acc_vesting_shares := mk_asset 400 VESTS_SYMBOL\<rparr>)"
  "get_account ''alice'' demo_poll = Inr ((demo_account ''alice'')\<lparr>acc_vesting_shares := mk_asset 600 VESTS_SYMBOL\<rparr>)"
  by (simp_all add: t_get_def demo_poll_def)

lemma demo_unproxied: "acc_proxy (demo_account n) = []" "acc_proxied_vsf_votes (demo_account n) = [0, 0, 0, 0]"
  "acc_witnesses_voted_for (demo_account n) = 0" "acc_can_vote (demo_account n)"
  by (simp_all add: demo_account_def new_account_object_def STEEMIT_MAX_PROXY_RECURSION_DEPTH_def replicate4)

lemma demo_no_votes: "adjust_witness_votes n d demo_poll = Inr demo_poll"
  by (simp add: adjust_witness_votes_def voted_witnesses_def poll_defs t_get_def)

lemma demo_withdraw: "adjust_proxied_witness_votes ''bob'' [- 400, 0, 0, 0, 0] 0 demo_poll = Inr demo_poll"
  by (subst adjust_proxied_witness_votes.simps)
    (simp add: demo_bob demo_unproxied shared_delta_def demo_no_votes STEEMIT_MAX_PROXY_RECURSION_DEPTH_def safe64_def int64_ok_def
      safe_div_def cdiv_def del: rbind_Inr)

definition demo_proxied :: database where
  "demo_proxied = demo_poll\<lparr>db_accounts := [(''alice'', (demo_account ''alice'')\<lparr>acc_vesting_shares := mk_asset 600 VESTS_SYMBOL\<rparr>),
       (''bob'', (demo_account ''bob'')\<lparr>acc_vesting_shares := mk_asset 400 VESTS_SYMBOL, acc_proxy := ''alice''\<rparr>)]\<rparr>"

lemma demo_clear: "clear_witness_votes ''bob'' demo_poll = Inr demo_poll"
  by (simp add: clear_witness_votes_def has_hardfork_def modify_account_def demo_bob)
    (simp add: poll_defs t_modify_def t_get_def)

lemma demo_set: "set_proxy ''bob'' ''alice'' demo_poll = Inr demo_proxied"
  by (simp add: set_proxy_def modify_account_def demo_bob demo_proxied_def) (simp add: demo_poll_def t_modify_def)

lemma demo_back: "\<exists>db'. adjust_proxied_witness_votes ''bob'' [400, 0, 0, 0, 0] 0 demo_proxied = Inr db'"
proof -
  let ?v = "demo_proxied\<lparr>db_accounts := t_modify ''alice'' (\<lambda>_. (demo_account ''alice'')\<lparr>acc_vesting_shares := mk_asset 600 VESTS_SYMBOL,
     acc_proxied_vsf_votes := [400, 0, 0, 0]\<rparr>) (db_accounts demo_proxied)\<rparr>"
  have g: "get_account ''bob'' demo_proxied = Inr ((demo_account ''bob'')\<lparr>acc_vesting_shares := mk_asset 400 VESTS_SYMBOL, acc_proxy := ''alice''\<rparr>)"
    "get_account ''alice'' demo_proxied = Inr ((demo_account ''alice'')\<lparr>acc_vesting_shares := mk_asset 600 VESTS_SYMBOL\<rparr>)"
    "get_account ''alice'' ?v = Inr ((demo_account ''alice'')\<lparr>acc_vesting_shares := mk_asset 600 VESTS_SYMBOL, acc_proxied_vsf_votes := [400, 0, 0, 0]\<rparr>)"
    by (simp_all add: demo_proxied_def t_get_def t_modify_def)
  have "modify_account ''alice'' (\<lambda>p. rbind (add_proxied 0 [400, 0, 0, 0, 0] 4 (acc_proxied_vsf_votes p)) (\<lambda>v. Inr (p\<lparr>acc_proxied_vsf_votes := v\<rparr>))) demo_proxied = Inr ?v"
    by (simp add: modify_account_def g demo_unproxied add_proxied_numeral safe64_def int64_ok_def del: rbind_Inr)
  moreover have "adjust_witness_votes ''alice'' 400 ?v = Inr ?v"
    by (simp add: adjust_witness_votes_def voted_witnesses_def demo_proxied_def poll_defs t_get_def)
  then have "adjust_proxied_witness_votes ''alice'' [400, 0, 0, 0, 0] 1 ?v = Inr ?v"
    by (subst adjust_proxied_witness_votes.simps)
      (simp add: g demo_unproxied shared_delta_def STEEMIT_MAX_PROXY_RECURSION_DEPTH_def safe64_def int64_ok_def
      safe_div_def cdiv_def del: rbind_Inr)
  ultimately show ?thesis
    by (subst adjust_proxied_witness_votes.simps)
      (simp add: g demo_unproxied STEEMIT_MAX_PROXY_RECURSION_DEPTH_def del: rbind_Inr modify_account_Inr)
qed

lemma demo_proxy_result: "\<exists>db'. account_witness_proxy_apply demo_proxy demo_poll = Inr db'"
  using demo_back
  by (simp add: account_witness_proxy_apply_def demo_proxy_def demo_bob demo_unproxied demo_withdraw demo_clear demo_set
      follow_proxies.simps safe64_def int64_ok_def del: rbind_Inr)

theorem witness_votes_invariant_witness:
  "\<exists>db'. account_witness_vote_apply demo_approval demo_poll = Inr db'
    \<and> db_witness_votes db' = [((''alice'', ''bob''), 600)] \<and> voting_ok db'"
proof -
  obtain db' where "account_witness_vote_apply demo_approval demo_poll = Inr db'"
    "db_witness_votes db' = [((''alice'', ''bob''), 600)]" using demo_approval_result by blast
  then show ?thesis using witness_votes_invariant [OF demo_poll_ok, of demo_approval db'] by blast
qed

theorem accepted_proxy_route_witness:
  "\<exists>db' ns. account_witness_proxy_apply demo_proxy demo_poll = Inr db' \<and> proxy_route db' (''bob'' # ''alice'' # ns)"
proof -
  obtain db' where 1: "account_witness_proxy_apply demo_proxy demo_poll = Inr db'" using demo_proxy_result by blast
  have "awp_account demo_proxy = ''bob''" "awp_proxy demo_proxy = ''alice''" by (simp_all add: demo_proxy_def)
  then show ?thesis using 1 accepted_proxy_route [OF 1] by fastforce
qed

end
