(* ===== verification/Vesting.thy ===== *)
theory Vesting
  imports Voting
begin

text \<open>
  Vesting (\<^verbatim>\<open>libraries/chain/database.cpp\<close>: \<open>create_sbd\<close>, \<open>create_vesting\<close>,
  \<open>process_vesting_withdrawals\<close>; \<^verbatim>\<open>steem_evaluator.cpp\<close>: \<open>transfer_to_vesting\<close>, \<open>withdraw_vesting\<close>,
  \<open>set_withdraw_vesting_route\<close>; \<^verbatim>\<open>hf_actions.cpp\<close>: \<open>fix_vesting_withdrawals\<close>). Vesting shares are bought from
  the vesting fund at its price and paid out weekly, partly along the routes of the account. The
  account with object id 0 is the first row of the account table; the index searches of the code
  leave a route to it out. The lemmas show that buying and paying out conserve both currencies and
  never lower the price of a share, and that a payout takes no more than 100 percent along routes.
\<close>

definition STEEMIT_VESTING_WITHDRAW_INTERVALS_PRE_HF_16 :: int where "STEEMIT_VESTING_WITHDRAW_INTERVALS_PRE_HF_16 = 104"
definition STEEMIT_VESTING_WITHDRAW_INTERVALS_PRE_HF_23 :: int where "STEEMIT_VESTING_WITHDRAW_INTERVALS_PRE_HF_23 = 13"
definition STEEMIT_VESTING_WITHDRAW_INTERVALS_PRE_HF_26 :: int where "STEEMIT_VESTING_WITHDRAW_INTERVALS_PRE_HF_26 = 8"
definition STEEMIT_VESTING_WITHDRAW_INTERVALS :: int where "STEEMIT_VESTING_WITHDRAW_INTERVALS = 4"
definition STEEMIT_VESTING_WITHDRAW_INTERVAL_SECONDS :: int where "STEEMIT_VESTING_WITHDRAW_INTERVAL_SECONDS = 60 * 60 * 24 * 7"
definition STEEMIT_MAX_WITHDRAW_ROUTES :: nat where "STEEMIT_MAX_WITHDRAW_ROUTES = 10"

section \<open>Creating shares\<close>

definition add_vesting :: "account_name \<Rightarrow> asset \<Rightarrow> database \<Rightarrow> database result" where
  "add_vesting n x = modify_account n (\<lambda>a. rbind (asset_add (acc_vesting_shares a) x)
     (\<lambda>v. Inr (a\<lparr>acc_vesting_shares := v\<rparr>)))"

text \<open>\<open>x.amount += d\<close>.\<close>

definition add_amount :: "asset \<Rightarrow> int \<Rightarrow> asset result" where
  "add_amount x d = rbind (safe64 (amount x + d)) (\<lambda>y. Inr (mk_asset y (symbol x)))"

definition create_vesting :: "account_name \<Rightarrow> asset \<Rightarrow> database \<Rightarrow> database result" where
  "create_vesting n steem db =
     rbind (asset_mul_price steem (get_vesting_share_price (db_dgp db))) (\<lambda>new_vesting.
     rbind (add_vesting n new_vesting db) (\<lambda>db1.
     rbind (asset_add (dgp_total_vesting_fund_steem (db_dgp db1)) steem) (\<lambda>f.
     rbind (asset_add (dgp_total_vesting_shares (db_dgp db1)) new_vesting) (\<lambda>s.
     adjust_proxied_weight n (amount new_vesting) 0
       (db1\<lparr>db_dgp := (db_dgp db1)\<lparr>dgp_total_vesting_fund_steem := f, dgp_total_vesting_shares := s\<rparr>\<rparr>)))))"

definition create_sbd :: "account_name \<Rightarrow> asset \<Rightarrow> database \<Rightarrow> ((asset \<times> asset) \<times> database) result" where
  "create_sbd n steem db =
    (if amount steem = 0 then Inr ((mk_asset 0 SBD_SYMBOL, mk_asset 0 STEEM_SYMBOL), db)
     else if price_is_null (db_median_history db) then
       rbind (adjust_balance n steem db) (\<lambda>db1. Inr ((mk_asset 0 SBD_SYMBOL, steem), db1))
     else
       rbind (safe64 (int (dgp_sbd_print_rate (db_dgp db)) * amount steem)) (\<lambda>x.
       rbind (safe_div x STEEMIT_100_PERCENT) (\<lambda>to_sbd.
       rbind (safe64 (amount steem - to_sbd)) (\<lambda>to_steem.
       rbind (asset_mul_price (mk_asset to_sbd STEEM_SYMBOL) (db_median_history db)) (\<lambda>sbd.
       rbind (adjust_balance n sbd db) (\<lambda>db1.
       rbind (adjust_balance n (mk_asset to_steem STEEM_SYMBOL) db1) (\<lambda>db2.
       rbind (safe64 (- to_sbd)) (\<lambda>m.
       rbind (adjust_supply (mk_asset m STEEM_SYMBOL) False db2) (\<lambda>db3.
       rbind (adjust_supply sbd False db3) (\<lambda>db4.
       Inr ((sbd, mk_asset to_steem STEEM_SYMBOL), db4)))))))))))"

definition transfer_to_vesting_apply :: "transfer_to_vesting_operation \<Rightarrow> database \<Rightarrow> database result" where
  "transfer_to_vesting_apply o1 db =
     rbind (get_account (trv_from o1) db) (\<lambda>_.
     let dest = (if trv_to o1 \<noteq> [] then trv_to o1 else trv_from o1) in
     rbind (get_account dest db) (\<lambda>_.
     check_param ''amount'' (
       rbind (check_balance (trv_from o1) MAIN_BALANCE (trv_amount o1) db) (\<lambda>_.
       rbind (asset_neg (trv_amount o1)) (\<lambda>m.
       rbind (adjust_balance (trv_from o1) m db) (create_vesting dest (trv_amount o1)))))))"

section \<open>Asking for a withdrawal\<close>

definition vesting_withdraw_intervals :: "database \<Rightarrow> int" where
  "vesting_withdraw_intervals db =
    (if has_hardfork 26 db then STEEMIT_VESTING_WITHDRAW_INTERVALS
     else if has_hardfork 23 db then STEEMIT_VESTING_WITHDRAW_INTERVALS_PRE_HF_26
     else if has_hardfork 16 db then STEEMIT_VESTING_WITHDRAW_INTERVALS_PRE_HF_23
     else STEEMIT_VESTING_WITHDRAW_INTERVALS_PRE_HF_16)"

definition withdraw_rate :: "int \<Rightarrow> database \<Rightarrow> int" where
  "withdraw_rate shares db = (let r = cdiv shares (vesting_withdraw_intervals db) in if r = 0 then 1 else r)"

definition stop_withdraw :: "account_object \<Rightarrow> account_object" where
  "stop_withdraw a = a\<lparr>acc_vesting_withdraw_rate := mk_asset 0 VESTS_SYMBOL,
     acc_next_vesting_withdrawal := time_point_max, acc_to_withdraw := 0, acc_withdrawn := 0\<rparr>"

definition check_powerdown :: "withdraw_vesting_operation \<Rightarrow> account_object \<Rightarrow> database \<Rightarrow> unit result" where
  "check_powerdown o1 a db =
    (if \<not> acc_mined a \<and> has_hardfork 1 db then
       rbind (asset_mul_price (account_creation_fee (db_median_props db)) (get_vesting_share_price (db_dgp db))) (\<lambda>m.
       check_logic ''insufficient_fee_for_powerdown_registered_account''
         (amount (acc_vesting_shares a) > sint (word_of_int (amount m) * 10 :: 64 word)
          \<or> has_hardfork 16 db \<and> amount (wdv_vesting_shares o1) = 0))
     else Inr ())"

definition withdraw_vesting_apply :: "withdraw_vesting_operation \<Rightarrow> database \<Rightarrow> database result" where
  "withdraw_vesting_apply o1 db =
    (let n = wdv_account o1; shares = amount (wdv_vesting_shares o1);
         strict = (db_is_producing db \<or> has_hardfork 5 db) in
     rbind (get_account n db) (\<lambda>a.
     rbind (check_balance n VESTING (mk_asset 0 VESTS_SYMBOL) db) (\<lambda>_.
     rbind (check_balance n HAVING_VESTING (wdv_vesting_shares o1) db) (\<lambda>_.
     rbind (check_powerdown o1 a db) (\<lambda>_.
     if shares = 0 then
       rbind (if strict then check_logic ''operation_would_not_change_vesting_withdraw_rate''
           (amount (acc_vesting_withdraw_rate a) \<noteq> 0) else Inr ()) (\<lambda>_.
       modify_account n (\<lambda>a. Inr (stop_withdraw a)) db)
     else
       let rate = mk_asset (withdraw_rate shares db) VESTS_SYMBOL in
       rbind (if strict then check_logic ''operation_would_not_change_vesting_withdraw_rate''
           (acc_vesting_withdraw_rate a \<noteq> rate) else Inr ()) (\<lambda>_.
       modify_account n (\<lambda>a. Inr (a\<lparr>acc_vesting_withdraw_rate := rate,
         acc_next_vesting_withdrawal := head_block_time db + STEEMIT_VESTING_WITHDRAW_INTERVAL_SECONDS,
         acc_to_withdraw := shares, acc_withdrawn := 0\<rparr>)) db))))))"

section \<open>Routes\<close>

text \<open>The destinations of an account in the order of their ids, without the account of id 0.\<close>

definition routes_of :: "account_name \<Rightarrow> database \<Rightarrow> (account_name \<times> withdraw_vesting_route_object) list" where
  "routes_of n db = map (\<lambda>m. (m, the (t_get (n, m) (db_routes db))))
     (filter (\<lambda>m. t_get (n, m) (db_routes db) \<noteq> None) (tl (map fst (db_accounts db))))"

definition total_percent :: "account_name \<Rightarrow> database \<Rightarrow> nat" where
  "total_percent n db = sum_list (map (wro_percent \<circ> snd) (routes_of n db))"

definition set_withdraw_vesting_route_apply :: "set_withdraw_vesting_route_operation \<Rightarrow> database \<Rightarrow> database result" where
  "set_withdraw_vesting_route_apply o1 db =
    (let n = wvr_from_account o1; k = (n, wvr_to_account o1); percent = unat (wvr_percent o1);
         r = \<lparr>wro_percent = percent, wro_auto_vest = wvr_auto_vest o1\<rparr> in
     rbind (get_account n db) (\<lambda>a.
     rbind (get_account (wvr_to_account o1) db) (\<lambda>_.
     rbind (if t_get k (db_routes db) = None then
         rbind (check_logic ''cannot_create_zero_percent_destination'' (percent \<noteq> 0)) (\<lambda>_.
         rbind (check_logic ''reached_maxumum_number_of_routes'' (unat (acc_withdraw_routes a) < STEEMIT_MAX_WITHDRAW_ROUTES)) (\<lambda>_.
         modify_account n (\<lambda>a. Inr (a\<lparr>acc_withdraw_routes := acc_withdraw_routes a + 1\<rparr>))
           (db\<lparr>db_routes := t_create k r (db_routes db)\<rparr>)))
       else if percent = 0 then
         modify_account n (\<lambda>a. Inr (a\<lparr>acc_withdraw_routes := acc_withdraw_routes a - 1\<rparr>))
           (db\<lparr>db_routes := t_remove k (db_routes db)\<rparr>)
       else Inr (db\<lparr>db_routes := t_modify k (\<lambda>_. r) (db_routes db)\<rparr>)) (\<lambda>db1.
     rbind (check_logic ''more_100percent_allocated_to_destinations'' (int (total_percent n db1) \<le> STEEMIT_100_PERCENT)) (\<lambda>_.
     Inr db1)))))"

section \<open>Paying out\<close>

definition safe_mod :: "int \<Rightarrow> int \<Rightarrow> int result" where
  "safe_mod a b = (if b = 0 then Inl Divide_By_Zero_Exception else safe64 (cmod a b))"

text \<open>What an account is due: a rate, the rest, or, since hardfork 28, the rate and a last rest smaller than it.\<close>

definition due_shares :: "account_object \<Rightarrow> database \<Rightarrow> int result" where
  "due_shares a db =
    (let vests = amount (acc_vesting_shares a); rate = amount (acc_vesting_withdraw_rate a) in
     rbind (safe64 (acc_to_withdraw a - acc_withdrawn a)) (\<lambda>left.
     rbind (if left < rate then rbind (safe_mod (acc_to_withdraw a) rate) (\<lambda>m. safe64 (min vests m)) else safe64 (min vests rate)) (\<lambda>w.
     if w < 0 then Inr 0
     else if has_hardfork 28 db then
       rbind (safe64 (acc_withdrawn a + w)) (\<lambda>s.
       rbind (safe64 (acc_to_withdraw a - s)) (\<lambda>remainder.
       if remainder > 0 \<and> remainder < rate then safe64 (w + remainder) else Inr w))
     else Inr w)))"

definition route_share :: "int \<Rightarrow> nat \<Rightarrow> int" where
  "route_share w percent = to_int64 (mul_div_u128 w (int percent) STEEMIT_100_PERCENT)"

fun pay_as_vests :: "account_name \<Rightarrow> int \<Rightarrow> (account_name \<times> withdraw_vesting_route_object) list \<Rightarrow> int \<Rightarrow> database
    \<Rightarrow> (int \<times> database) result" where
  "pay_as_vests src w [] deposited db = Inr (deposited, db)"
| "pay_as_vests src w ((dest, r) # rs) deposited db =
    (if wro_auto_vest r then
       let d = route_share w (wro_percent r) in
       rbind (safe64 (deposited + d)) (\<lambda>deposited'.
       if d > 0 then
         rbind (modify_account dest (\<lambda>a. rbind (add_amount (acc_vesting_shares a) d) (\<lambda>v. Inr (a\<lparr>acc_vesting_shares := v\<rparr>))) db) (\<lambda>db1.
         rbind (adjust_proxied_weight dest d 0 db1) (\<lambda>db2.
         pay_as_vests src w rs deposited'
           (push_log (Fill_Vesting_Withdraw_Op src dest (mk_asset d VESTS_SYMBOL) (mk_asset d VESTS_SYMBOL)) db2)))
       else pay_as_vests src w rs deposited' db)
     else pay_as_vests src w rs deposited db)"

definition release_shares :: "asset \<Rightarrow> int \<Rightarrow> database \<Rightarrow> database result" where
  "release_shares steem d db =
     rbind (asset_sub (dgp_total_vesting_fund_steem (db_dgp db)) steem) (\<lambda>f.
     rbind (add_amount (dgp_total_vesting_shares (db_dgp db)) (- d)) (\<lambda>s.
     Inr (db\<lparr>db_dgp := (db_dgp db)\<lparr>dgp_total_vesting_fund_steem := f, dgp_total_vesting_shares := s\<rparr>\<rparr>)))"

definition credit_balance :: "account_name \<Rightarrow> asset \<Rightarrow> database \<Rightarrow> database result" where
  "credit_balance n x = modify_account n (\<lambda>a. rbind (asset_add (acc_balance a) x) (\<lambda>b. Inr (a\<lparr>acc_balance := b\<rparr>)))"

fun pay_as_steem :: "account_name \<Rightarrow> int \<Rightarrow> (account_name \<times> withdraw_vesting_route_object) list \<Rightarrow> int \<Rightarrow> asset \<Rightarrow> database
    \<Rightarrow> (int \<times> database) result" where
  "pay_as_steem src w [] deposited tot db = Inr (deposited, db)"
| "pay_as_steem src w ((dest, r) # rs) deposited tot db =
    (if wro_auto_vest r then pay_as_steem src w rs deposited tot db
     else
       rbind (get_account dest db) (\<lambda>_.
       let d = route_share w (wro_percent r) in
       rbind (safe64 (deposited + d)) (\<lambda>deposited'.
       rbind (asset_mul_price (mk_asset d VESTS_SYMBOL) (get_vesting_share_price (db_dgp db))) (\<lambda>c.
       rbind (asset_add tot c) (\<lambda>tot'.
       if d > 0 then
         rbind (credit_balance dest c db) (\<lambda>db1.
         rbind (release_shares c d db1) (\<lambda>db2.
         pay_as_steem src w rs deposited' tot'
           (push_log (Fill_Vesting_Withdraw_Op src dest (mk_asset d VESTS_SYMBOL) c) db2)))
       else pay_as_steem src w rs deposited' tot' db)))))"

text \<open>The account after a payment of \<open>w\<close> shares, and whether it is remembered for repair.\<close>

definition withdrawn_account :: "int \<Rightarrow> asset \<Rightarrow> database \<Rightarrow> account_object \<Rightarrow> account_object result" where
  "withdrawn_account w c db a =
     rbind (add_amount (acc_vesting_shares a) (- w)) (\<lambda>v.
     rbind (asset_add (acc_balance a) c) (\<lambda>b.
     rbind (safe64 (acc_withdrawn a + w)) (\<lambda>wd.
     let a1 = a\<lparr>acc_vesting_shares := v, acc_balance := b, acc_withdrawn := wd\<rparr> in
     Inr (if wd \<ge> acc_to_withdraw a \<or> amount v = 0 then
         let a2 = a1\<lparr>acc_vesting_withdraw_rate := mk_asset 0 (symbol (acc_vesting_withdraw_rate a)),
                    acc_next_vesting_withdrawal := time_point_max\<rparr> in
         if has_hardfork 19 db then a2\<lparr>acc_withdrawn := 0, acc_to_withdraw := 0\<rparr> else a2
       else a1\<lparr>acc_next_vesting_withdrawal := acc_next_vesting_withdrawal a + STEEMIT_VESTING_WITHDRAW_INTERVAL_SECONDS\<rparr>))))"

definition note_fix :: "account_name \<Rightarrow> database \<Rightarrow> database" where
  "note_fix n db = (case t_get n (db_accounts db) of None \<Rightarrow> db
     | Some a \<Rightarrow> if (acc_withdrawn a \<ge> acc_to_withdraw a \<or> amount (acc_vesting_shares a) = 0)
           \<and> \<not> has_hardfork 19 db \<and> acc_to_withdraw a \<noteq> 0 \<and> n \<notin> set (db_fix_me db)
         then db\<lparr>db_fix_me := db_fix_me db @ [n]\<rparr> else db)"

definition pay_withdrawal :: "account_name \<Rightarrow> database \<Rightarrow> database result" where
  "pay_withdrawal n db =
     rbind (get_account n db) (\<lambda>a.
     rbind (due_shares a db) (\<lambda>w.
     rbind (pay_as_vests n w (routes_of n db) 0 db) (\<lambda>(as_vests, db1).
     rbind (pay_as_steem n w (routes_of n db1) 0 (mk_asset 0 STEEM_SYMBOL) db1) (\<lambda>(as_steem, db2).
     rbind (safe64 (w - as_steem)) (\<lambda>x. rbind (safe64 (x - as_vests)) (\<lambda>y.
     let to_convert = max y 0 in
     rbind (asset_mul_price (mk_asset to_convert VESTS_SYMBOL) (get_vesting_share_price (db_dgp db2))) (\<lambda>c.
     rbind (modify_account n (withdrawn_account w c db2) db2) (\<lambda>db3.
     rbind (release_shares c to_convert (note_fix n db3)) (\<lambda>db4.
     if w > 0 then
       rbind (safe64 (- w)) (\<lambda>m.
       rbind (adjust_proxied_weight n m 0 db4) (\<lambda>db5.
       Inr (push_log (Fill_Vesting_Withdraw_Op n n (mk_asset w VESTS_SYMBOL) c) db5)))
     else Inr db4)))))))))"

section \<open>What a payment leaves alone\<close>

definition same_books :: "database \<Rightarrow> database \<Rightarrow> bool" where
  "same_books db db' \<longleftrightarrow> map fst (db_accounts db') = map fst (db_accounts db) \<and> db_routes db' = db_routes db
     \<and> head_block_time db' = head_block_time db \<and> db_hardfork db' = db_hardfork db"

lemma same_books_refl [simp]: "same_books db db"
  by (simp add: same_books_def)

lemma same_books_trans: "same_books a b \<Longrightarrow> same_books b c \<Longrightarrow> same_books a c"
  by (simp add: same_books_def)

lemma same_books_log [simp]: "same_books db (push_log e db') = same_books db db'"
  by (simp add: same_books_def push_log_def)

lemma same_books_modify: "modify_account n f db = Inr db' \<Longrightarrow> same_books db db'"
  by (auto simp: same_books_def)

lemma same_books_vote: "adjust_witness_vote a wit delta ovr db = Inr db' \<Longrightarrow> same_books db db'"
  by (erule adjust_witness_vote_cases) (auto simp: change_witness_def same_books_def)

lemma same_books_each: "adjust_each a delta wits db = Inr db' \<Longrightarrow> same_books db db'"
  by (induction wits arbitrary: db) (auto intro: same_books_trans dest: same_books_vote)

lemma same_books_weight:
  assumes "adjust_proxied_weight n delta depth db = Inr db'"
  shows "same_books db db'"
proof (rule adjust_proxied_weight_rel [OF assms, where R = same_books])
  show "same_books d d'" if "adjust_witness_votes m x d = Inr d'" for m x d d'
    using same_books_each that by (simp add: adjust_witness_votes_def)
  show "same_books d d'" if "modify_account m f d = Inr d'" for m f d d' using that by (rule same_books_modify)
qed (fact same_books_refl same_books_trans)+

lemma same_books_vests: "pay_as_vests src w rs dep db = Inr (d, db') \<Longrightarrow> same_books db db'"
proof (induction src w rs dep db rule: pay_as_vests.induct)
  case (2 src w dest r rs deposited db)
  show ?case
  proof (cases "wro_auto_vest r \<and> route_share w (wro_percent r) > 0")
    case True
    then obtain db1 db2 where 1: "modify_account dest (\<lambda>a. rbind (add_amount (acc_vesting_shares a) (route_share w (wro_percent r)))
          (\<lambda>v. Inr (a\<lparr>acc_vesting_shares := v\<rparr>))) db = Inr db1"
      and 2: "adjust_proxied_weight dest (route_share w (wro_percent r)) 0 db1 = Inr db2"
      and 3: "pay_as_vests src w rs (deposited + route_share w (wro_percent r))
           (push_log (Fill_Vesting_Withdraw_Op src dest (mk_asset (route_share w (wro_percent r)) VESTS_SYMBOL)
             (mk_asset (route_share w (wro_percent r)) VESTS_SYMBOL)) db2) = Inr (d, db')"
      and 4: "int64_ok (deposited + route_share w (wro_percent r))"
      using "2.prems" by (auto simp: Let_def simp del: modify_account_Inr)
    have "same_books (push_log (Fill_Vesting_Withdraw_Op src dest (mk_asset (route_share w (wro_percent r)) VESTS_SYMBOL)
             (mk_asset (route_share w (wro_percent r)) VESTS_SYMBOL)) db2) db'"
      using "2.IH"(1) [OF _ refl _ 3] True by simp
    then show ?thesis using same_books_modify [OF 1] same_books_weight [OF 2] by (simp add: same_books_def push_log_def)
  next
    case False
    then show ?thesis using 2 by (auto simp: Let_def split: if_splits)
  qed
qed simp

lemma same_books_steem: "pay_as_steem src w rs dep tot db = Inr (d, db') \<Longrightarrow> same_books db db'"
proof (induction src w rs dep tot db rule: pay_as_steem.induct)
  case (2 src w dest r rs deposited tot db)
  show ?case
  proof (cases "\<not> wro_auto_vest r \<and> route_share w (wro_percent r) > 0")
    case True
    let ?d = "route_share w (wro_percent r)"
    obtain c tot' db1 db2 where 1: "credit_balance dest c db = Inr db1" and 2: "release_shares c ?d db1 = Inr db2"
      and t: "asset_add tot c = Inr tot'"
      and 3: "pay_as_steem src w rs (deposited + ?d) tot'
           (push_log (Fill_Vesting_Withdraw_Op src dest (mk_asset ?d VESTS_SYMBOL) c) db2) = Inr (d, db')"
      and 4: "int64_ok (deposited + ?d)"
      and m: "asset_mul_price (mk_asset ?d VESTS_SYMBOL) (get_vesting_share_price (db_dgp db)) = Inr c" 
      using "2.prems" True by (auto simp: Let_def simp del: modify_account_Inr asset_add_Inr)
    have "same_books (push_log (Fill_Vesting_Withdraw_Op src dest (mk_asset ?d VESTS_SYMBOL) c) db2) db'"
      using "2.IH"(2) [OF _ refl _ 3] True by simp
    moreover have "same_books db db1" using 1 by (simp add: credit_balance_def same_books_modify del: modify_account_Inr)
    moreover have "same_books db1 db2" using 2 by (auto simp: release_shares_def same_books_def)
    ultimately show ?thesis by (simp add: same_books_def push_log_def)
  next
    case False
    then show ?thesis using 2 by (auto simp: Let_def split: if_splits)
  qed
qed simp

lemma same_books_note [simp]: "same_books db (note_fix n db)"
  by (simp add: note_fix_def same_books_def split: option.splits)

lemma same_books_release: "release_shares c d db = Inr db' \<Longrightarrow> same_books db db'"
  by (auto simp: release_shares_def same_books_def)

text \<open>The steps of one payment.\<close>

lemma pay_withdrawal_steps:
  assumes "pay_withdrawal n db = Inr db'"
  obtains a w as_vests db1 as_steem db2 c db3 db4 where "t_get n (db_accounts db) = Some a" "due_shares a db = Inr w"
    "pay_as_vests n w (routes_of n db) 0 db = Inr (as_vests, db1)"
    "pay_as_steem n w (routes_of n db1) 0 (mk_asset 0 STEEM_SYMBOL) db1 = Inr (as_steem, db2)"
    "asset_mul_price (mk_asset (max (w - as_steem - as_vests) 0) VESTS_SYMBOL) (get_vesting_share_price (db_dgp db2)) = Inr c"
    "modify_account n (withdrawn_account w c db2) db2 = Inr db3"
    "release_shares c (max (w - as_steem - as_vests) 0) (note_fix n db3) = Inr db4"
    "db' = db4 \<or> (\<exists>db5. adjust_proxied_weight n (- w) 0 db4 = Inr db5
       \<and> db' = push_log (Fill_Vesting_Withdraw_Op n n (mk_asset w VESTS_SYMBOL) c) db5)"
proof -
  obtain a w as_vests db1 as_steem db2 where 1: "t_get n (db_accounts db) = Some a" "due_shares a db = Inr w"
    "pay_as_vests n w (routes_of n db) 0 db = Inr (as_vests, db1)"
    "pay_as_steem n w (routes_of n db1) 0 (mk_asset 0 STEEM_SYMBOL) db1 = Inr (as_steem, db2)"
    and 2: "(let to_convert = max (w - as_steem - as_vests) 0 in
     rbind (asset_mul_price (mk_asset to_convert VESTS_SYMBOL) (get_vesting_share_price (db_dgp db2))) (\<lambda>c.
     rbind (modify_account n (withdrawn_account w c db2) db2) (\<lambda>db3.
     rbind (release_shares c to_convert (note_fix n db3)) (\<lambda>db4.
     if w > 0 then rbind (safe64 (- w)) (\<lambda>m. rbind (adjust_proxied_weight n m 0 db4) (\<lambda>db5.
       Inr (push_log (Fill_Vesting_Withdraw_Op n n (mk_asset w VESTS_SYMBOL) c) db5)))
     else Inr db4)))) = Inr db'"
    using assms unfolding pay_withdrawal_def
    by (clarsimp simp del: rbind_Inr modify_account_Inr dest!: iffD1 [OF rbind_Inr])
  from 2 obtain c db3 db4 where 3: "asset_mul_price (mk_asset (max (w - as_steem - as_vests) 0) VESTS_SYMBOL) (get_vesting_share_price (db_dgp db2)) = Inr c"
    "modify_account n (withdrawn_account w c db2) db2 = Inr db3"
    "release_shares c (max (w - as_steem - as_vests) 0) (note_fix n db3) = Inr db4"
    and 4: "db' = db4 \<or> (\<exists>db5. adjust_proxied_weight n (- w) 0 db4 = Inr db5
       \<and> db' = push_log (Fill_Vesting_Withdraw_Op n n (mk_asset w VESTS_SYMBOL) c) db5)"
    by (auto simp: Let_def simp del: modify_account_Inr split: if_splits)
  show ?thesis by (rule that [OF 1 3 4])
qed

lemma same_books_pay:
  assumes "pay_withdrawal n db = Inr db'"
  shows "same_books db db'"
proof (rule pay_withdrawal_steps [OF assms])
  fix a w as_vests db1 as_steem db2 c db3 db4
  assume 1: "pay_as_vests n w (routes_of n db) 0 db = Inr (as_vests, db1)"
    and 2: "pay_as_steem n w (routes_of n db1) 0 (mk_asset 0 STEEM_SYMBOL) db1 = Inr (as_steem, db2)"
    and 3: "modify_account n (withdrawn_account w c db2) db2 = Inr db3"
    and 4: "release_shares c (max (w - as_steem - as_vests) 0) (note_fix n db3) = Inr db4"
    and l: "db' = db4 \<or> (\<exists>db5. adjust_proxied_weight n (- w) 0 db4 = Inr db5
       \<and> db' = push_log (Fill_Vesting_Withdraw_Op n n (mk_asset w VESTS_SYMBOL) c) db5)"
  have "same_books db4 db'" using l same_books_weight by auto
  then show ?thesis
    using same_books_vests [OF 1] same_books_steem [OF 2] same_books_modify [OF 3] same_books_note [of db3 n] same_books_release [OF 4]
    by (simp add: same_books_def)
qed

section \<open>The loop over the accounts\<close>

type_synonym withdrawal_key = "int \<times> nat \<times> account_name"

fun key_less :: "withdrawal_key \<Rightarrow> withdrawal_key \<Rightarrow> bool" where
  "key_less (t, i, n) (t', i', n') \<longleftrightarrow> t < t' \<or> (t = t' \<and> i < i')"

definition withdrawal_keys :: "database \<Rightarrow> withdrawal_key list" where
  "withdrawal_keys db = map (\<lambda>(i, n, a). (acc_next_vesting_withdrawal a, i, n)) (enumerate 0 (db_accounts db))"

fun least_key :: "withdrawal_key list \<Rightarrow> withdrawal_key option" where
  "least_key [] = None"
| "least_key (k # ks) = (case least_key ks of None \<Rightarrow> Some k | Some k' \<Rightarrow> Some (if key_less k' k then k' else k))"

text \<open>The iterator moves on before the account is changed.\<close>

definition next_key :: "database \<Rightarrow> withdrawal_key \<Rightarrow> withdrawal_key option" where
  "next_key db k = least_key (filter (key_less k) (withdrawal_keys db))"

lemma least_key_mem: "least_key ks = Some k \<Longrightarrow> k \<in> set ks"
  by (induction ks arbitrary: k) (auto split: option.splits if_splits)

lemma next_key_later: "next_key db (t, i, n) = Some (t', i', n') \<Longrightarrow> (t < t' \<or> t = t' \<and> i < i') \<and> i' < length (db_accounts db)"
  unfolding next_key_def by (drule least_key_mem) (auto simp: withdrawal_keys_def in_set_enumerate_eq)

definition loop_measure :: "(withdrawal_key option \<times> database) \<Rightarrow> nat \<times> nat" where
  "loop_measure x = (case x of (None, db) \<Rightarrow> (0, 0)
     | (Some (t, i, n), db) \<Rightarrow> (Suc (nat (head_block_time db + 1 - t)), length (db_accounts db) - i))"

function pay_withdrawals :: "withdrawal_key option \<Rightarrow> database \<Rightarrow> database result" where
  "pay_withdrawals None db = Inr db"
| "pay_withdrawals (Some (t, i, n)) db =
    (if t > head_block_time db then Inr db
     else (case pay_withdrawal n db of Inl e \<Rightarrow> Inl e
       | Inr db1 \<Rightarrow> pay_withdrawals (next_key db (t, i, n)) db1))"
  by pat_completeness auto

termination
proof (relation "inv_image (less_than <*lex*> less_than) loop_measure", goal_cases)
  case 1
  then show ?case by (intro wf_inv_image wf_lex_prod wf_less_than)
next
  case (2 t i n db db1)
  have b: "length (db_accounts db1) = length (db_accounts db)" "head_block_time db1 = head_block_time db"
    using same_books_pay [OF 2(2)] by (auto simp: same_books_def dest: arg_cong [of _ _ length])
  show ?case
  proof (cases "next_key db (t, i, n)")
    case None
    then show ?thesis by (simp add: loop_measure_def)
  next
    case (Some k)
    obtain t' i' n' where k: "k = (t', i', n')" by (cases k)
    show ?thesis using next_key_later [OF Some [unfolded k]] 2(1) b by (auto simp: loop_measure_def Some k)
  qed
qed

declare pay_withdrawals.simps [simp del]

definition process_vesting_withdrawals :: "database \<Rightarrow> database result" where
  "process_vesting_withdrawals db = pay_withdrawals (least_key (withdrawal_keys db)) db"

definition fix_vesting_withdrawals :: "database \<Rightarrow> database" where
  "fix_vesting_withdrawals db =
    (let ns = take 500 (db_fix_me db); fixed = (\<lambda>n a. if n \<in> set ns \<and> acc_next_vesting_withdrawal a = time_point_max
        then a\<lparr>acc_withdrawn := 0, acc_to_withdraw := 0\<rparr> else a) in
     db\<lparr>db_accounts := map (\<lambda>(n, a). (n, fixed n a)) (db_accounts db), db_fix_me := drop 500 (db_fix_me db)\<rparr>)"

section \<open>Conservation\<close>

definition unvoted :: "account_object \<Rightarrow> account_object" where
  "unvoted a = a\<lparr>acc_proxied_vsf_votes := map (\<lambda>_. 0) (acc_proxied_vsf_votes a)\<rparr>"

definition unvoted_db :: "database \<Rightarrow> database" where
  "unvoted_db db = db\<lparr>db_accounts := map (\<lambda>(n, a). (n, unvoted a)) (db_accounts db), db_witnesses := [], db_witness_votes := []\<rparr>"

definition votes_only :: "database \<Rightarrow> database \<Rightarrow> bool" where
  "votes_only db db' \<longleftrightarrow> unvoted_db db' = unvoted_db db"

lemma unvoted_held [simp]: "acct_held s (unvoted a) = acct_held s a" "wf_account n (unvoted a) = wf_account n a"
  by (simp_all add: acct_held_def unvoted_def wf_account_def)

lemma unvoted_tables [simp]: "t_total (acct_held s) (map (\<lambda>(n, a). (n, unvoted a)) t) = t_total (acct_held s) t"
  "t_all wf_account (map (\<lambda>(n, a). (n, unvoted a)) t) = t_all wf_account t"
  "t_wf (map (\<lambda>(n, a). (n, unvoted a)) t) = t_wf t"
  by (auto simp: t_total_def t_all_def t_wf_def comp_def case_prod_unfold)

lemma unvoted_ledger: "wf_db (unvoted_db db) = wf_db db" "gap s (unvoted_db db) = gap s db"
  "t_wf (db_accounts (unvoted_db db)) = t_wf (db_accounts db)"
  by (simp_all add: unvoted_db_def wf_db_def gap_def held_def issued_def)

lemma votes_only_ledger: "votes_only db db' \<Longrightarrow> wf_db db' = wf_db db \<and> gap s db' = gap s db \<and> t_wf (db_accounts db') = t_wf (db_accounts db)"
  by (metis unvoted_ledger votes_only_def)

lemma votes_only_dgp: "votes_only db db' \<Longrightarrow> db_dgp db' = db_dgp db"
  unfolding votes_only_def by (drule arg_cong [of _ _ db_dgp]) (simp add: unvoted_db_def)

lemma votes_only_vote: "adjust_witness_vote a wit delta ovr db = Inr db' \<Longrightarrow> votes_only db db'"
  by (erule adjust_witness_vote_cases) (auto simp: change_witness_def votes_only_def unvoted_db_def)

lemma votes_only_each: "adjust_each a delta wits db = Inr db' \<Longrightarrow> votes_only db db'"
proof (induction wits arbitrary: db)
  case (Cons wit wits)
  then obtain db1 where "adjust_witness_vote a wit delta False db = Inr db1" "adjust_each a delta wits db1 = Inr db'" by auto
  then show ?case using Cons.IH votes_only_vote by (simp add: votes_only_def)
qed (simp add: votes_only_def)

lemma votes_only_modify:
  assumes "modify_account m f d = Inr d'" "t_wf (db_accounts d)"
    "\<And>p p'. f p = Inr p' \<Longrightarrow> \<exists>v. length v = length (acc_proxied_vsf_votes p) \<and> p' = p\<lparr>acc_proxied_vsf_votes := v\<rparr>"
  shows "votes_only d d'"
proof -
  obtain p p' where p: "t_get m (db_accounts d) = Some p" "f p = Inr p'"
    and d': "d' = d\<lparr>db_accounts := t_modify m (\<lambda>_. p') (db_accounts d)\<rparr>" using assms(1) by auto
  obtain v where v: "length v = length (acc_proxied_vsf_votes p)" "p' = p\<lparr>acc_proxied_vsf_votes := v\<rparr>" using assms(3) [OF p(2)] by blast
  have "map (\<lambda>_. 0 :: int) v = map (\<lambda>_. 0) (acc_proxied_vsf_votes p)" using v(1) by (simp add: map_replicate_const)
  then have u: "unvoted p' = unvoted p" by (simp add: unvoted_def v(2))
  have "a = p" if "(m, a) \<in> set (db_accounts d)" for a
    using that p(1) assms(2) by (simp add: t_wf_def t_get_def)
  then have "map (\<lambda>(n, a). (n, unvoted a)) (t_modify m (\<lambda>_. p') (db_accounts d)) = map (\<lambda>(n, a). (n, unvoted a)) (db_accounts d)"
    using u by (auto simp: t_modify_def)
  then show ?thesis by (simp add: votes_only_def unvoted_db_def d')
qed

lemma votes_only_weight:
  assumes "adjust_proxied_weight n delta depth db = Inr db'" "t_wf (db_accounts db)"
  shows "votes_only db db'"
proof -
  have "t_wf (db_accounts db) \<longrightarrow> votes_only db db'"
  proof (rule adjust_proxied_weight_rel [OF assms(1), where R = "\<lambda>d d'. t_wf (db_accounts d) \<longrightarrow> votes_only d d'"])
    show "t_wf (db_accounts d) \<longrightarrow> votes_only d d" for d by (simp add: votes_only_def)
    show "t_wf (db_accounts d1) \<longrightarrow> votes_only d1 d3" if "t_wf (db_accounts d1) \<longrightarrow> votes_only d1 d2"
      "t_wf (db_accounts d2) \<longrightarrow> votes_only d2 d3" for d1 d2 d3
      using that votes_only_ledger [of d1 d2] by (auto simp: votes_only_def)
    show "t_wf (db_accounts d) \<longrightarrow> votes_only d d'" if "adjust_witness_votes m x d = Inr d'" for m x d d'
      using votes_only_each that by (simp add: adjust_witness_votes_def)
    show "t_wf (db_accounts d) \<longrightarrow> votes_only d d'" if "modify_account m f d = Inr d'"
      "\<And>p p'. f p = Inr p' \<Longrightarrow> \<exists>v. length v = length (acc_proxied_vsf_votes p) \<and> p' = p\<lparr>acc_proxied_vsf_votes := v\<rparr>" for m f d d'
      using votes_only_modify that by blast
  qed
  then show ?thesis using assms(2) by blast
qed

lemma weight_ledger:
  assumes "adjust_proxied_weight n delta depth db = Inr db'" "wf_db db"
  shows "wf_db db'" "gap s db' = gap s db"
  using votes_only_ledger [OF votes_only_weight [OF assms(1)]] assms(2) by (auto simp: wf_db_def)

lemma modify_ledger:
  assumes "modify_account n f db = Inr db'" "wf_db db"
    and "\<And>a a'. wf_account n a \<Longrightarrow> f a = Inr a' \<Longrightarrow> wf_account n a' \<and> acct_held s a' = acct_held s a + x"
  shows "wf_db db'" "gap s db' = gap s db - x"
proof -
  obtain a a' where a: "t_get n (db_accounts db) = Some a" "f a = Inr a'" and db': "db' = set_account n a' db"
    using assms(1) by (auto simp: set_account_def)
  have w: "wf_account n a' \<and> acct_held s a' = acct_held s a + x" by (rule assms(3) [OF wf_account_at [OF assms(2) a(1)] a(2)])
  show "wf_db db'" using w by (simp add: db' wf_set_account assms(2))
  show "gap s db' = gap s db - x" using w by (simp add: db' gap_set_account [OF assms(2) a(1)])
qed

lemma wf_dgp_vesting: "wf_dgp p \<Longrightarrow> wf_dgp (p\<lparr>dgp_total_vesting_fund_steem := f, dgp_total_vesting_shares := v\<rparr>)
    \<longleftrightarrow> symbol f = STEEM_SYMBOL \<and> symbol v = VESTS_SYMBOL"
  by (auto simp: wf_dgp_def)

lemma release_ledger:
  assumes "release_shares c d db = Inr db'" "wf_db db"
  shows "wf_db db'" "gap s db' = gap s db - asset_in s (mk_asset d VESTS_SYMBOL) + asset_in s c"
  using assms wf_dgp_at [OF assms(2)]
  by (auto simp: release_shares_def add_amount_def gap_dgp dgp_held_def asset_in_def wf_dgp_vesting wf_dgp_def [of "db_dgp db"]
      intro!: wf_set_dgp)

lemma credit_ledger:
  assumes "credit_balance n c db = Inr db'" "wf_db db"
  shows "wf_db db'" "gap s db' = gap s db - asset_in s c" "symbol c = STEEM_SYMBOL"
proof -
  have m: "modify_account n (\<lambda>a. rbind (asset_add (acc_balance a) c) (\<lambda>b. Inr (a\<lparr>acc_balance := b\<rparr>))) db = Inr db'"
    using assms(1) by (simp add: credit_balance_def del: modify_account_Inr)
  have sym: "symbol c = STEEM_SYMBOL" using m wf_account_at [OF assms(2)] by (fastforce simp: wf_account_symbols)
  have "wf_account n a' \<and> acct_held s a' = acct_held s a + asset_in s c"
    if "wf_account n a" "rbind (asset_add (acc_balance a) c) (\<lambda>b. Inr (a\<lparr>acc_balance := b\<rparr>)) = Inr a'" for a a'
    using that by (auto simp: wf_account_symbols asset_in_plus asset_in_amount)
  from modify_ledger [OF m assms(2) this] sym show "wf_db db'" "gap s db' = gap s db - asset_in s c" "symbol c = STEEM_SYMBOL"
    by blast+
qed

lemma add_shares_ledger:
  assumes "modify_account n (\<lambda>a. rbind (add_amount (acc_vesting_shares a) d) (\<lambda>v. Inr (a\<lparr>acc_vesting_shares := v\<rparr>))) db = Inr db'"
    "wf_db db"
  shows "wf_db db'" "gap s db' = gap s db - asset_in s (mk_asset d VESTS_SYMBOL)"
proof -
  have "wf_account n a' \<and> acct_held s a' = acct_held s a + asset_in s (mk_asset d VESTS_SYMBOL)"
    if "wf_account n a" "rbind (add_amount (acc_vesting_shares a) d) (\<lambda>v. Inr (a\<lparr>acc_vesting_shares := v\<rparr>)) = Inr a'" for a a'
    using that by (auto simp: wf_account_symbols add_amount_def asset_in_plus)
  from modify_ledger [OF assms(1,2) this] show "wf_db db'" "gap s db' = gap s db - asset_in s (mk_asset d VESTS_SYMBOL)" by blast+
qed

lemma route_share_floor:
  assumes "0 \<le> w" "w < 2 ^ 63" "p \<le> 10000"
  shows "route_share w p = w * int p div 10000" "0 \<le> route_share w p"
proof -
  have "w * int p div 10000 \<le> w * 10000 div 10000" using assms by (intro zdiv_mono1 mult_left_mono) auto
  then have "w * int p div STEEMIT_100_PERCENT < 2 ^ 63" using assms(2) by (simp add: STEEMIT_100_PERCENT_def)
  then show "route_share w p = w * int p div 10000" unfolding route_share_def
    using to_int64_mul_div [of w "int p" STEEMIT_100_PERCENT] assms by (simp add: STEEMIT_100_PERCENT_def)
  then show "0 \<le> route_share w p" using assms by (simp add: pos_imp_zdiv_nonneg_iff)
qed

definition share_sum :: "int \<Rightarrow> (account_name \<times> withdraw_vesting_route_object) list \<Rightarrow> int" where
  "share_sum w rs = sum_list (map (\<lambda>r. route_share w (wro_percent (snd r))) rs)"

lemma pay_as_vests_ledger:
  "pay_as_vests src w rs dep db = Inr (d, db') \<Longrightarrow> wf_db db \<Longrightarrow> 0 \<le> w \<Longrightarrow> w < 2 ^ 63
    \<Longrightarrow> \<forall>r \<in> set rs. wro_percent (snd r) \<le> 10000
    \<Longrightarrow> wf_db db' \<and> gap s db' = gap s db - asset_in s (mk_asset (d - dep) VESTS_SYMBOL)
      \<and> d = dep + share_sum w (filter (\<lambda>r. wro_auto_vest (snd r)) rs)"
proof (induction src w rs dep db rule: pay_as_vests.induct)
  case (2 src w dest r rs deposited db)
  let ?d = "route_share w (wro_percent r)"
  have d0: "0 \<le> ?d" using route_share_floor "2.prems" by simp
  show ?case
  proof (cases "wro_auto_vest r \<and> ?d > 0")
    case True
    then obtain db1 db2 where 1: "modify_account dest (\<lambda>a. rbind (add_amount (acc_vesting_shares a) ?d)
          (\<lambda>v. Inr (a\<lparr>acc_vesting_shares := v\<rparr>))) db = Inr db1"
      and 2: "adjust_proxied_weight dest ?d 0 db1 = Inr db2"
      and 3: "pay_as_vests src w rs (deposited + ?d)
           (push_log (Fill_Vesting_Withdraw_Op src dest (mk_asset ?d VESTS_SYMBOL) (mk_asset ?d VESTS_SYMBOL)) db2) = Inr (d, db')"
      and 4: "int64_ok (deposited + ?d)"
      using "2.prems" by (auto simp: Let_def simp del: modify_account_Inr)
    note L1 = add_shares_ledger [OF 1 "2.prems"(2)]
    note L2 = weight_ledger [OF 2 L1(1)]
    from "2.IH"(1) [OF _ refl _ 3] True L2 "2.prems"
    have "wf_db db' \<and> gap s db' = gap s db2 - asset_in s (mk_asset (d - (deposited + ?d)) VESTS_SYMBOL)
      \<and> d = deposited + ?d + share_sum w (filter (\<lambda>r. wro_auto_vest (snd r)) rs)" by simp
    then show ?thesis using True L1(2) [of s] L2(2) [of s] by (auto simp: share_sum_def asset_in_def)
  next
    case False
    then show ?thesis using 2 d0 by (auto simp: Let_def share_sum_def split: if_splits)
  qed
qed (simp add: share_sum_def asset_in_def)

lemma pay_as_steem_ledger:
  "pay_as_steem src w rs dep tot db = Inr (d, db') \<Longrightarrow> wf_db db \<Longrightarrow> 0 \<le> w \<Longrightarrow> w < 2 ^ 63
    \<Longrightarrow> \<forall>r \<in> set rs. wro_percent (snd r) \<le> 10000
    \<Longrightarrow> wf_db db' \<and> gap s db' = gap s db - asset_in s (mk_asset (d - dep) VESTS_SYMBOL)
      \<and> d = dep + share_sum w (filter (\<lambda>r. \<not> wro_auto_vest (snd r)) rs)"
proof (induction src w rs dep tot db rule: pay_as_steem.induct)
  case (2 src w dest r rs deposited tot db)
  let ?d = "route_share w (wro_percent r)"
  have d0: "0 \<le> ?d" using route_share_floor "2.prems" by simp
  show ?case
  proof (cases "\<not> wro_auto_vest r \<and> ?d > 0")
    case True
    then obtain c total' db1 db2 where 1: "credit_balance dest c db = Inr db1" and 2: "release_shares c ?d db1 = Inr db2"
      and 3: "pay_as_steem src w rs (deposited + ?d) total'
           (push_log (Fill_Vesting_Withdraw_Op src dest (mk_asset ?d VESTS_SYMBOL) c) db2) = Inr (d, db')"
      using "2.prems" by (auto simp: Let_def simp del: modify_account_Inr asset_add_Inr)
    note L1 = credit_ledger [OF 1 "2.prems"(2)]
    note L2 = release_ledger [OF 2 L1(1)]
    from "2.IH"(2) [OF _ refl _ 3] True L2 "2.prems"
    have "wf_db db' \<and> gap s db' = gap s db2 - asset_in s (mk_asset (d - (deposited + ?d)) VESTS_SYMBOL)
      \<and> d = deposited + ?d + share_sum w (filter (\<lambda>r. \<not> wro_auto_vest (snd r)) rs)" by simp
    then show ?thesis using True L1(2) [of s] L2(2) [of s] by (auto simp: share_sum_def asset_in_def)
  next
    case False
    then show ?thesis using 2 d0 by (auto simp: Let_def share_sum_def split: if_splits)
  qed
qed (simp add: share_sum_def asset_in_def)

definition routes_ok :: "database \<Rightarrow> bool" where
  "routes_ok db \<longleftrightarrow> (\<forall>n. total_percent n db \<le> 10000)"

lemma share_sum_split: "share_sum w rs = share_sum w (filter (\<lambda>r. wro_auto_vest (snd r)) rs)
    + share_sum w (filter (\<lambda>r. \<not> wro_auto_vest (snd r)) rs)"
  by (induction rs) (auto simp: share_sum_def)

lemma percent_le: "r \<in> set (routes_of n db) \<Longrightarrow> wro_percent (snd r) \<le> total_percent n db"
  unfolding total_percent_def by (rule member_le_sum_list) auto

lemma share_sum_le:
  assumes "0 \<le> w" "w < 2 ^ 63" "total_percent n db \<le> 10000"
  shows "share_sum w (routes_of n db) \<le> w"
proof -
  have "share_sum w rs * 10000 \<le> w * int (sum_list (map (wro_percent \<circ> snd) rs))"
    if "\<forall>r \<in> set rs. wro_percent (snd r) \<le> 10000" for rs
    using that
  proof (induction rs)
    case (Cons r rs)
    have "route_share w (wro_percent (snd r)) * 10000 \<le> w * int (wro_percent (snd r))"
      using route_share_floor(1) [OF assms(1,2)] Cons.prems by (simp add: minus_mod_eq_div_mult [symmetric])
    then show ?case using Cons by (simp add: share_sum_def distrib_left distrib_right)
  qed (simp add: share_sum_def)
  moreover have "\<forall>r \<in> set (routes_of n db). wro_percent (snd r) \<le> 10000"
    using percent_le assms(3) order_trans by blast
  ultimately have "share_sum w (routes_of n db) * 10000 \<le> w * int (total_percent n db)"
    by (simp add: total_percent_def)
  also have "\<dots> \<le> w * 10000" using assms(1,3) by (intro mult_left_mono) auto
  finally show ?thesis by simp
qed

lemma due_shares_range:
  assumes "due_shares a db = Inr w"
  shows "0 \<le> w \<and> w < 2 ^ 63"
proof -
  let ?rate = "amount (acc_vesting_withdraw_rate a)"
  obtain w0 where 0: "int64_ok w0" and r: "(if w0 < 0 then Inr 0
     else if has_hardfork 28 db then
       rbind (safe64 (acc_withdrawn a + w0)) (\<lambda>s.
       rbind (safe64 (acc_to_withdraw a - s)) (\<lambda>remainder.
       if remainder > 0 \<and> remainder < ?rate then safe64 (w0 + remainder) else Inr w0))
     else Inr w0) = Inr w"
    using assms unfolding due_shares_def Let_def
    by (clarsimp simp del: rbind_Inr dest!: iffD1 [OF rbind_Inr] split del: if_split) (auto simp: safe64_Inr split: if_splits)
  show ?thesis
  proof (cases "w0 < 0")
    case False
    then show ?thesis using 0 r by (auto simp: int64_ok_def split: if_splits)
  qed (use r in simp)
qed

lemma acct_held_vesting [simp]: "acct_held s (a\<lparr>acc_withdrawn := x\<rparr>) = acct_held s a"
  "acct_held s (a\<lparr>acc_to_withdraw := x\<rparr>) = acct_held s a"
  "acct_held s (a\<lparr>acc_vesting_withdraw_rate := y\<rparr>) = acct_held s a"
  "acct_held s (a\<lparr>acc_next_vesting_withdrawal := z\<rparr>) = acct_held s a"
  by (simp_all add: acct_held_def)

lemma wf_account_vesting [simp]: "wf_account n (a\<lparr>acc_withdrawn := x\<rparr>) \<longleftrightarrow> wf_account n a"
  "wf_account n (a\<lparr>acc_to_withdraw := x\<rparr>) \<longleftrightarrow> wf_account n a"
  "wf_account n a \<Longrightarrow> wf_account n (a\<lparr>acc_vesting_withdraw_rate := y\<rparr>) \<longleftrightarrow> symbol y = VESTS_SYMBOL"
  "wf_account n (a\<lparr>acc_next_vesting_withdrawal := z\<rparr>) \<longleftrightarrow> wf_account n a"
  by (simp_all add: wf_account_def)

lemma wf_account_rate: "wf_account n a \<Longrightarrow> symbol (acc_vesting_withdraw_rate a) = VESTS_SYMBOL"
  by (simp add: wf_account_def)

lemma withdrawn_account_ledger:
  assumes "withdrawn_account w c db0 a = Inr a'" "wf_account n a" "symbol c = STEEM_SYMBOL"
  shows "wf_account n a' \<and> acct_held s a' = acct_held s a + (asset_in s c - asset_in s (mk_asset w VESTS_SYMBOL))"
proof -
  note sym = wf_account_symbols [OF assms(2)]
  define a1 where "a1 = a\<lparr>acc_vesting_shares := mk_asset (amount (acc_vesting_shares a) - w) VESTS_SYMBOL,
    acc_balance := mk_asset (amount (acc_balance a) + amount c) STEEM_SYMBOL, acc_withdrawn := acc_withdrawn a + w\<rparr>"
  have w1: "wf_account n a1" unfolding a1_def using assms(2) by simp
  have h1: "acct_held s a1 = acct_held s a + (asset_in s c - asset_in s (mk_asset w VESTS_SYMBOL))"
    unfolding a1_def using sym assms(3) by (simp add: asset_in_def)
  have "a' = (if acc_withdrawn a + w \<ge> acc_to_withdraw a \<or> amount (acc_vesting_shares a) - w = 0 then
         let a2 = a1\<lparr>acc_vesting_withdraw_rate := mk_asset 0 VESTS_SYMBOL, acc_next_vesting_withdrawal := time_point_max\<rparr> in
         if has_hardfork 19 db0 then a2\<lparr>acc_withdrawn := 0, acc_to_withdraw := 0\<rparr> else a2
       else a1\<lparr>acc_next_vesting_withdrawal := acc_next_vesting_withdrawal a + STEEMIT_VESTING_WITHDRAW_INTERVAL_SECONDS\<rparr>)"
    using assms(1) sym wf_account_rate [OF assms(2)]
    by (simp only: withdrawn_account_def add_amount_def rbind_Inr Let_def asset_add_Inr safe64_Inr) (auto simp: a1_def)
  then show ?thesis using w1 h1 by (simp add: Let_def)
qed

lemma symbol_name_of: "symbol y = STEEM_SYMBOL \<Longrightarrow> symbol_name y = Inr ''GOLOS''" "symbol y = VESTS_SYMBOL \<Longrightarrow> symbol_name y = Inr ''GESTS''"
  using symbol_name_core symbol_name_symbol [of y "mk_asset 0 STEEM_SYMBOL"] symbol_name_symbol [of y "mk_asset 0 VESTS_SYMBOL"]
  by simp_all

lemma mul_price_symbol:
  assumes "asset_mul_price (mk_asset x VESTS_SYMBOL) (get_vesting_share_price p) = Inr c" "wf_dgp p"
  shows "symbol c = STEEM_SYMBOL"
proof -
  have "symbol (dgp_total_vesting_shares p) = VESTS_SYMBOL" "symbol (dgp_total_vesting_fund_steem p) = STEEM_SYMBOL"
    using assms(2) by (simp_all add: wf_dgp_def)
  then show ?thesis using assms(1) symbol_name_of [of "dgp_total_vesting_shares p"] symbol_name_of [of "dgp_total_vesting_fund_steem p"]
    by (auto simp: asset_mul_price_def get_vesting_share_price_def split: if_splits)
qed

lemma note_fix_ledger [simp]: "wf_db (note_fix n db) = wf_db db" "gap s (note_fix n db) = gap s db"
  by (simp_all add: note_fix_def wf_db_def gap_def held_def issued_def split: option.splits)

lemma pay_withdrawal_conserves:
  assumes "pay_withdrawal n db = Inr db'" "wf_db db" "total_percent n db \<le> 10000"
  shows "conserves db db'"
proof (rule pay_withdrawal_steps [OF assms(1)])
  fix a w as_vests db1 as_steem db2 c db3 db4
  assume a: "t_get n (db_accounts db) = Some a" and w: "due_shares a db = Inr w"
    and 1: "pay_as_vests n w (routes_of n db) 0 db = Inr (as_vests, db1)"
    and 2: "pay_as_steem n w (routes_of n db1) 0 (mk_asset 0 STEEM_SYMBOL) db1 = Inr (as_steem, db2)"
    and c: "asset_mul_price (mk_asset (max (w - as_steem - as_vests) 0) VESTS_SYMBOL) (get_vesting_share_price (db_dgp db2)) = Inr c"
    and 3: "modify_account n (withdrawn_account w c db2) db2 = Inr db3"
    and 4: "release_shares c (max (w - as_steem - as_vests) 0) (note_fix n db3) = Inr db4"
    and l: "db' = db4 \<or> (\<exists>db5. adjust_proxied_weight n (- w) 0 db4 = Inr db5
       \<and> db' = push_log (Fill_Vesting_Withdraw_Op n n (mk_asset w VESTS_SYMBOL) c) db5)"
  have w0: "0 \<le> w" "w < 2 ^ 63" using due_shares_range [OF w] by simp_all
  have p: "\<forall>r \<in> set (routes_of n db). wro_percent (snd r) \<le> 10000" using percent_le assms(3) order_trans by blast
  have r1: "routes_of n db1 = routes_of n db" using same_books_vests [OF 1] by (simp add: same_books_def routes_of_def)
  note L1 = pay_as_vests_ledger [OF 1 assms(2) w0 p]
  note L2 = pay_as_steem_ledger [OF 2 _ w0 p [folded r1]]
  have wf2: "wf_db db2" and sums: "as_vests + as_steem = share_sum w (routes_of n db)"
    using L1 L2 share_sum_split [of w "routes_of n db"] by (simp_all add: r1)
  have k: "max (w - as_steem - as_vests) 0 = w - as_steem - as_vests"
    using share_sum_le [OF w0 assms(3)] sums by simp
  have sc: "symbol c = STEEM_SYMBOL" using mul_price_symbol [OF c wf_dgp_at [OF wf2]] .
  note L3 = modify_ledger [OF 3 wf2, where x = "asset_in _ c - asset_in _ (mk_asset w VESTS_SYMBOL)"]
  have wf3: "wf_db db3" using L3(1) withdrawn_account_ledger [OF _ _ sc] by blast
  have g3: "gap s db3 = gap s db2 - (asset_in s c - asset_in s (mk_asset w VESTS_SYMBOL))" for s
    using L3(2) [of s] withdrawn_account_ledger [OF _ _ sc] by blast
  note L4 = release_ledger [OF 4, unfolded note_fix_ledger, OF wf3]
  have g4: "gap s db4 = gap s db" for s
    using L1 [of s] L2 [of s] g3 [of s] L4(2) [of s] k by (auto simp: asset_in_def split: if_splits)
  show "conserves db db'"
    using l
  proof
    assume "db' = db4"
    then show ?thesis using L4(1) g4 by (simp add: conserves_def)
  next
    assume "\<exists>db5. adjust_proxied_weight n (- w) 0 db4 = Inr db5
       \<and> db' = push_log (Fill_Vesting_Withdraw_Op n n (mk_asset w VESTS_SYMBOL) c) db5"
    then show ?thesis using weight_ledger [OF _ L4(1)] g4 by (auto simp: conserves_def)
  qed
qed

lemma routes_ok_same: "same_books db db' \<Longrightarrow> routes_ok db' = routes_ok db"
  by (simp add: routes_ok_def total_percent_def routes_of_def same_books_def)

lemma pay_withdrawals_conserves:
  "pay_withdrawals k db = Inr db' \<Longrightarrow> wf_db db \<Longrightarrow> routes_ok db \<Longrightarrow> conserves db db' \<and> same_books db db'"
proof (induction k db rule: pay_withdrawals.induct)
  case (1 db)
  then show ?case by (simp add: pay_withdrawals.simps conserves_refl)
next
  case (2 t i n db)
  show ?case
  proof (cases "t > head_block_time db")
    case True
    then show ?thesis using 2 by (simp add: pay_withdrawals.simps conserves_refl)
  next
    case False
    then obtain db1 where 1: "pay_withdrawal n db = Inr db1" and r: "pay_withdrawals (next_key db (t, i, n)) db1 = Inr db'"
      using "2.prems"(1) by (simp add: pay_withdrawals.simps split: sum.splits)
    have c: "conserves db db1" using pay_withdrawal_conserves [OF 1 "2.prems"(2)] "2.prems"(3) by (simp add: routes_ok_def)
    note b = same_books_pay [OF 1]
    have "conserves db1 db' \<and> same_books db1 db'"
      using "2.IH" [OF False 1 r] c b "2.prems"(3) by (simp add: conserves_def routes_ok_same)
    then show ?thesis using c b conserves_trans same_books_trans by blast
  qed
qed

lemma create_vesting_ledger:
  assumes "create_vesting n steem db = Inr db'" "wf_db db"
  shows "wf_db db'" "gap s db' = gap s db - asset_in s steem" "same_books db db'"
proof -
  obtain nv db1 f v where 1: "add_vesting n nv db = Inr db1"
    and f: "asset_add (dgp_total_vesting_fund_steem (db_dgp db1)) steem = Inr f"
    and v: "asset_add (dgp_total_vesting_shares (db_dgp db1)) nv = Inr v"
    and w: "adjust_proxied_weight n (amount nv) 0
       (db1\<lparr>db_dgp := (db_dgp db1)\<lparr>dgp_total_vesting_fund_steem := f, dgp_total_vesting_shares := v\<rparr>\<rparr>) = Inr db'"
    using assms(1) unfolding create_vesting_def
    by (auto simp del: rbind_Inr asset_add_Inr dest!: iffD1 [OF rbind_Inr])
  let ?d = "db1\<lparr>db_dgp := (db_dgp db1)\<lparr>dgp_total_vesting_fund_steem := f, dgp_total_vesting_shares := v\<rparr>\<rparr>"
  have m: "modify_account n (\<lambda>a. rbind (asset_add (acc_vesting_shares a) nv) (\<lambda>v. Inr (a\<lparr>acc_vesting_shares := v\<rparr>))) db = Inr db1"
    using 1 by (simp add: add_vesting_def del: modify_account_Inr)
  have "wf_account n a' \<and> acct_held s a' = acct_held s a + asset_in s nv"
    if "wf_account n a" "rbind (asset_add (acc_vesting_shares a) nv) (\<lambda>v. Inr (a\<lparr>acc_vesting_shares := v\<rparr>)) = Inr a'" for a a' s
    using that by (auto simp: wf_account_symbols asset_in_plus asset_in_amount)
  note L1 = modify_ledger [OF m assms(2) this]
  have sym: "symbol f = STEEM_SYMBOL" "symbol v = VESTS_SYMBOL" "symbol steem = STEEM_SYMBOL" "symbol nv = VESTS_SYMBOL"
    using f v wf_dgp_at [OF L1(1)] by (auto simp: wf_dgp_def)
  have wfd: "wf_db ?d" using L1(1) wf_dgp_at [OF L1(1)] sym by (auto intro: wf_set_dgp simp: wf_dgp_vesting)
  have "gap s ?d = gap s db1 + asset_in s nv - asset_in s steem" for s
    using f v sym by (auto simp: gap_dgp dgp_held_def asset_in_def)
  then show "gap s db' = gap s db - asset_in s steem" using weight_ledger(2) [OF w wfd] L1(2) [of s] by simp
  show "wf_db db'" by (rule weight_ledger(1) [OF w wfd])
  show "same_books db db'" using same_books_weight [OF w] same_books_modify [OF m] by (simp add: same_books_def)
qed

lemma create_sbd_ledger:
  assumes "create_sbd n steem db = Inr (r, db')" "wf_db db" "symbol steem = STEEM_SYMBOL"
  shows "wf_db db' \<and> gap s db' = gap s db - asset_in s steem"
proof (cases "amount steem = 0 \<or> price_is_null (db_median_history db)")
  case True
  then show ?thesis using assms adjust_balance_ledger [of n steem db db' s]
    by (auto simp: create_sbd_def asset_in_def split: if_splits)
next
  case False
  then obtain x sbd db1 db2 db3 where 1: "adjust_balance n sbd db = Inr db1"
    and 2: "adjust_balance n (mk_asset (amount steem - x) STEEM_SYMBOL) db1 = Inr db2"
    and 3: "adjust_supply (mk_asset (- x) STEEM_SYMBOL) False db2 = Inr db3" and 4: "adjust_supply sbd False db3 = Inr db'"
    using assms(1) by (auto simp: create_sbd_def simp del: rbind_Inr dest!: iffD1 [OF rbind_Inr])
  note L1 = adjust_balance_ledger [OF 1 assms(2), of s]
  note L2 = adjust_balance_ledger [OF 2, of s]
  note L3 = adjust_supply_ledger [OF 3, of s]
  note L4 = adjust_supply_ledger [OF 4, of s]
  show ?thesis using L1 L2 L3 L4 assms(3) by (auto simp: asset_in_def)
qed

lemma transfer_to_vesting_conserves:
  assumes "transfer_to_vesting_apply o1 db = Inr db'" "wf_db db"
  shows "conserves db db'"
proof -
  obtain m db1 where m: "asset_neg (trv_amount o1) = Inr m" and 1: "adjust_balance (trv_from o1) m db = Inr db1"
    and 2: "create_vesting (if trv_to o1 \<noteq> [] then trv_to o1 else trv_from o1) (trv_amount o1) db1 = Inr db'"
    using assms(1) unfolding transfer_to_vesting_apply_def Let_def
    by (auto simp del: rbind_Inr asset_neg_Inr dest!: iffD1 [OF rbind_Inr])
  note L1 = main.debit_gap [OF m 1 assms(2)]
  then show ?thesis using create_vesting_ledger [OF 2] by (auto simp: conserves_def)
qed

lemma unpaid_modify:
  assumes "modify_account n f db = Inr db'" "wf_db db"
    "\<And>a a'. wf_account n a \<Longrightarrow> f a = Inr a' \<Longrightarrow> wf_account n a' \<and> (\<forall>s. acct_held s a' = acct_held s a)"
  shows "conserves db db'"
  using modify_ledger [OF assms(1,2), where x = 0] assms(3) by (auto simp: conserves_def)

lemma withdraw_vesting_conserves:
  assumes "withdraw_vesting_apply o1 db = Inr db'" "wf_db db"
  shows "conserves db db' \<and> same_books db db'"
proof -
  obtain f where f: "modify_account (wdv_account o1) f db = Inr db'"
    "\<And>a a'. wf_account (wdv_account o1) a \<Longrightarrow> f a = Inr a' \<Longrightarrow> wf_account (wdv_account o1) a' \<and> (\<forall>s. acct_held s a' = acct_held s a)"
  proof (cases "amount (wdv_vesting_shares o1) = 0")
    case True
    then have "modify_account (wdv_account o1) (\<lambda>a. Inr (stop_withdraw a)) db = Inr db'"
      using assms(1) by (auto simp: withdraw_vesting_apply_def Let_def simp del: modify_account_Inr)
    moreover have "wf_account (wdv_account o1) a' \<and> (\<forall>s. acct_held s a' = acct_held s a)"
      if "wf_account (wdv_account o1) a" "Inr (stop_withdraw a) = (Inr a' :: account_object result)" for a a'
      using that by (auto simp: stop_withdraw_def)
    ultimately show ?thesis by (rule that)
  next
    case False
    let ?f = "\<lambda>a. Inr (a\<lparr>acc_vesting_withdraw_rate := mk_asset (withdraw_rate (amount (wdv_vesting_shares o1)) db) VESTS_SYMBOL,
         acc_next_vesting_withdrawal := head_block_time db + STEEMIT_VESTING_WITHDRAW_INTERVAL_SECONDS,
         acc_to_withdraw := amount (wdv_vesting_shares o1), acc_withdrawn := 0\<rparr>) :: account_object result"
    have "modify_account (wdv_account o1) ?f db = Inr db'"
      using assms(1) False by (auto simp: withdraw_vesting_apply_def Let_def simp del: modify_account_Inr)
    moreover have "wf_account (wdv_account o1) a' \<and> (\<forall>s. acct_held s a' = acct_held s a)"
      if "wf_account (wdv_account o1) a" "?f a = Inr a'" for a a' using that by auto
    ultimately show ?thesis by (rule that)
  qed
  then show ?thesis using unpaid_modify [OF f(1) assms(2) f(2)] same_books_modify [OF f(1)] by blast
qed

section \<open>Routes and the price\<close>

lemma set_route_conserves:
  assumes "set_withdraw_vesting_route_apply o1 db = Inr db'" "wf_db db" "routes_ok db"
  shows "conserves db db' \<and> routes_ok db'"
proof -
  let ?n = "wvr_from_account o1" and ?k = "(wvr_from_account o1, wvr_to_account o1)"
  obtain R g where tot: "total_percent ?n db' \<le> 10000"
    and db': "db' = db\<lparr>db_routes := R\<rparr> \<or> modify_account ?n (\<lambda>a. Inr (a\<lparr>acc_withdraw_routes := g (acc_withdraw_routes a)\<rparr>)) (db\<lparr>db_routes := R\<rparr>) = Inr db'"
    and R: "\<And>k. k \<noteq> ?k \<Longrightarrow> t_get k R = t_get k (db_routes db)"
  proof -
    let ?r = "\<lparr>wro_percent = unat (wvr_percent o1), wro_auto_vest = wvr_auto_vest o1\<rparr>"
    have tot: "total_percent ?n db' \<le> 10000"
      using assms(1) by (auto simp: set_withdraw_vesting_route_apply_def Let_def STEEMIT_100_PERCENT_def simp del: modify_account_Inr)
    consider (new) "t_get ?k (db_routes db) = None"
        "modify_account ?n (\<lambda>a. Inr (a\<lparr>acc_withdraw_routes := acc_withdraw_routes a + 1\<rparr>)) (db\<lparr>db_routes := t_create ?k ?r (db_routes db)\<rparr>) = Inr db'"
      | (remove) "modify_account ?n (\<lambda>a. Inr (a\<lparr>acc_withdraw_routes := acc_withdraw_routes a - 1\<rparr>)) (db\<lparr>db_routes := t_remove ?k (db_routes db)\<rparr>) = Inr db'"
      | (change) "db' = db\<lparr>db_routes := t_modify ?k (\<lambda>_. ?r) (db_routes db)\<rparr>"
      using assms(1) by (auto simp: set_withdraw_vesting_route_apply_def Let_def simp del: modify_account_Inr split: if_splits)
    then show ?thesis
    proof cases
      case new
      show ?thesis by (rule that [OF tot disjI2, of "\<lambda>x. x + 1" "t_create ?k ?r (db_routes db)"])
        (use new in \<open>auto simp: tbl.get_create simp del: modify_account_Inr\<close>)
    next
      case remove
      show ?thesis by (rule that [OF tot disjI2, of "\<lambda>x. x - 1" "t_remove ?k (db_routes db)"])
        (use remove in \<open>auto simp: tbl.get_remove simp del: modify_account_Inr\<close>)
    next
      case change
      show ?thesis by (rule that [OF tot disjI1, of "t_modify ?k (\<lambda>_. ?r) (db_routes db)"])
        (use change in \<open>auto simp: tbl.get_modify\<close>)
    qed
  qed
  have c: "conserves db (db\<lparr>db_routes := R\<rparr>)" using assms(2) by (simp add: conserves_def wf_db_def gap_def held_def issued_def)
  have names: "map fst (db_accounts db') = map fst (db_accounts db)" "db_routes db' = R"
    using db' by auto
  have "total_percent n db' \<le> 10000" for n
  proof (cases "n = ?n")
    case False
    then have "routes_of n db' = routes_of n db" by (simp add: routes_of_def names R)
    then show ?thesis using assms(3) by (simp add: total_percent_def routes_ok_def)
  qed (simp add: tot)
  then have "routes_ok db'" by (simp add: routes_ok_def)
  moreover have "conserves db db'"
    using db'
  proof
    assume "modify_account ?n (\<lambda>a. Inr (a\<lparr>acc_withdraw_routes := g (acc_withdraw_routes a)\<rparr>)) (db\<lparr>db_routes := R\<rparr>) = Inr db'"
    then have "conserves (db\<lparr>db_routes := R\<rparr>) db'"
      by (rule unpaid_modify) (use c in \<open>auto simp: conserves_def wf_account_def acct_held_def\<close>)
    with c show ?thesis by (rule conserves_trans)
  qed (simp add: c)
  ultimately show ?thesis by simp
qed

lemma fix_vesting_conserves: "wf_db db \<Longrightarrow> conserves db (fix_vesting_withdrawals db) \<and> same_books db (fix_vesting_withdrawals db)"
proof -
  assume wf: "wf_db db"
  let ?f = "\<lambda>n a. if n \<in> set (take 500 (db_fix_me db)) \<and> acc_next_vesting_withdrawal a = time_point_max
        then a\<lparr>acc_withdrawn := 0, acc_to_withdraw := 0\<rparr> else a"
  let ?t = "map (\<lambda>(n, a). (n, ?f n a)) (db_accounts db)"
  have "t_total (acct_held s) ?t = t_total (acct_held s) (db_accounts db)" for s
    by (auto simp: t_total_def intro!: arg_cong [of _ _ sum_list])
  moreover have "t_all wf_account ?t" using wf by (auto simp: wf_db_def t_all_def)
  moreover have names: "map fst ?t = map fst (db_accounts db)" by (simp add: comp_def case_prod_unfold)
  then have "t_wf ?t" unfolding t_wf_def names using wf by (simp add: wf_db_def t_wf_def)
  ultimately show ?thesis using wf names
    by (simp add: fix_vesting_withdrawals_def Let_def conserves_def wf_db_def gap_def held_def issued_def same_books_def)
qed

text \<open>C36. Paying out vesting shares conserves every asset: when no account has routed more than 100
  percent (which \<open>set_withdraw_vesting_route\<close> keeps), the weekly loop, whatever the routes, moves
  exactly the shares it takes and the GOLOS it converts them to, and nothing else appears or
  disappears.\<close>

theorem vesting_payout_conserves:
  assumes "set_withdraw_vesting_route_apply o1 db = Inr db1" "process_vesting_withdrawals db1 = Inr db2"
    and "wf_db db" "routes_ok db"
  shows "routes_ok db2 \<and> wf_db db2 \<and> (\<forall>s. gap s db2 = gap s db)"
proof -
  have 1: "conserves db db1 \<and> routes_ok db1" by (rule set_route_conserves [OF assms(1,3,4)])
  then have "conserves db1 db2 \<and> same_books db1 db2"
    using pay_withdrawals_conserves assms(2) by (simp add: process_vesting_withdrawals_def conserves_def)
  then show ?thesis using 1 routes_ok_same by (auto simp: conserves_def)
qed

lemma sint_le_uint64: "sint (v :: 64 word) \<le> uint v"
proof -
  have "take_bit 64 (uint v) = uint v" using uint_lt2p [of v] by (simp add: take_bit_int_eq_self)
  then show ?thesis by (simp add: sint_uint signed_take_bit_eq_take_bit_minus)
qed

lemma to_int64_le: "to_int64 w \<le> uint w"
proof -
  have "uint (ucast w :: 64 word) \<le> uint w" by (simp add: unsigned_ucast_eq take_bit_int_less_eq_self_iff)
  then show ?thesis using sint_le_uint64 [of "ucast w"] by (simp add: to_int64_def)
qed

text \<open>C37. Buying shares never makes a share worth less: the price is rounded in favour of the fund, so
  the GOLOS in the fund per share does not fall.\<close>

theorem create_vesting_price:
  assumes "create_vesting n steem db = Inr db'" "wf_db db" "0 \<le> amount steem" "amount steem < 2 ^ 63"
    and "0 < amount (dgp_total_vesting_fund_steem (db_dgp db))" "amount (dgp_total_vesting_fund_steem (db_dgp db)) < 2 ^ 63"
    and "0 < amount (dgp_total_vesting_shares (db_dgp db))" "amount (dgp_total_vesting_shares (db_dgp db)) < 2 ^ 63"
  shows "amount (dgp_total_vesting_fund_steem (db_dgp db)) * amount (dgp_total_vesting_shares (db_dgp db'))
    \<le> amount (dgp_total_vesting_fund_steem (db_dgp db')) * amount (dgp_total_vesting_shares (db_dgp db))"
proof -
  let ?C = "amount (dgp_total_vesting_fund_steem (db_dgp db))" and ?V = "amount (dgp_total_vesting_shares (db_dgp db))"
  obtain nv db1 f v where nv: "asset_mul_price steem (get_vesting_share_price (db_dgp db)) = Inr nv" and 1: "add_vesting n nv db = Inr db1"
    and f: "asset_add (dgp_total_vesting_fund_steem (db_dgp db1)) steem = Inr f"
    and v: "asset_add (dgp_total_vesting_shares (db_dgp db1)) nv = Inr v"
    and w: "adjust_proxied_weight n (amount nv) 0
       (db1\<lparr>db_dgp := (db_dgp db1)\<lparr>dgp_total_vesting_fund_steem := f, dgp_total_vesting_shares := v\<rparr>\<rparr>) = Inr db'"
    using assms(1) unfolding create_vesting_def
    by (auto simp del: rbind_Inr asset_add_Inr dest!: iffD1 [OF rbind_Inr])
  have d1: "db_dgp db1 = db_dgp db" "map fst (db_accounts db1) = map fst (db_accounts db)" using 1 by (auto simp: add_vesting_def)
  have "t_wf (db_accounts db1)" using assms(2) d1(2) by (simp add: wf_db_def t_wf_def)
  then have "votes_only (db1\<lparr>db_dgp := (db_dgp db1)\<lparr>dgp_total_vesting_fund_steem := f, dgp_total_vesting_shares := v\<rparr>\<rparr>) db'"
    using votes_only_weight [OF w] by simp
  then have dgp: "db_dgp db' = (db_dgp db)\<lparr>dgp_total_vesting_fund_steem := f, dgp_total_vesting_shares := v\<rparr>"
    using d1(1) votes_only_dgp by fastforce
  have "symbol (dgp_total_vesting_shares (db_dgp db)) = VESTS_SYMBOL" "symbol (dgp_total_vesting_fund_steem (db_dgp db)) = STEEM_SYMBOL"
    using wf_dgp_at [OF assms(2)] by (simp_all add: wf_dgp_def)
  moreover from this have "symbol steem = STEEM_SYMBOL" using f d1 by simp
  ultimately have "amount nv = to_int64 (mul_div_u128 (amount steem) ?V ?C)"
    using nv assms(5,7) symbol_name_of [of steem] symbol_name_of [of "dgp_total_vesting_shares (db_dgp db)"]
      symbol_name_of [of "dgp_total_vesting_fund_steem (db_dgp db)"]
    by (auto simp: asset_mul_price_def get_vesting_share_price_def u128_amount_def)
  also have "\<dots> \<le> amount steem * ?V div ?C"
    using to_int64_le [of "mul_div_u128 (amount steem) ?V ?C"] uint_mul_div_u128 [of "amount steem" ?V ?C] assms by simp
  finally have "?C * amount nv \<le> ?C * (amount steem * ?V div ?C)" using assms(5) by (intro mult_left_mono) auto
  also have "\<dots> \<le> amount steem * ?V" by (simp add: minus_mod_eq_mult_div [symmetric] assms(5))
  finally have "?C * (?V + amount nv) \<le> (?C + amount steem) * ?V" by (simp add: algebra_simps)
  moreover have "amount f = ?C + amount steem" "amount v = ?V + amount nv" using f v d1(1) by auto
  ultimately show ?thesis by (simp add: dgp)
qed

section \<open>A week on a small chain\<close>

definition demo_payout :: database where
  "demo_payout = demo_poll\<lparr>db_dgp := demo_dgp\<lparr>dgp_total_vesting_shares := mk_asset 1000 VESTS_SYMBOL,
       dgp_total_vesting_fund_steem := mk_asset 2000 STEEM_SYMBOL, dgp_current_supply := mk_asset 3000 STEEM_SYMBOL\<rparr>,
     db_accounts := [(''alice'', (demo_account ''alice'')\<lparr>acc_vesting_shares := mk_asset 600 VESTS_SYMBOL,
         acc_vesting_withdraw_rate := mk_asset 100 VESTS_SYMBOL, acc_to_withdraw := 400, acc_next_vesting_withdrawal := 1000000\<rparr>),
       (''bob'', (demo_account ''bob'')\<lparr>acc_vesting_shares := mk_asset 400 VESTS_SYMBOL\<rparr>)]\<rparr>"

definition demo_route :: set_withdraw_vesting_route_operation where
  "demo_route = \<lparr>wvr_from_account = ''alice'', wvr_to_account = ''bob'', wvr_percent = 5000, wvr_auto_vest = False\<rparr>"

definition demo_routed :: database where
  "demo_routed = demo_payout\<lparr>db_routes := [((''alice'', ''bob''), \<lparr>wro_percent = 5000, wro_auto_vest = False\<rparr>)],
     db_accounts := t_modify ''alice'' (\<lambda>a. a\<lparr>acc_withdraw_routes := 1\<rparr>) (db_accounts demo_payout)\<rparr>"

lemma demo_payout_ok: "wf_db demo_payout" "routes_ok demo_payout"
   apply (simp add: demo_payout_def poll_defs wf_db_def wf_account_def wf_dgp_def t_wf_def t_all_def replicate4 STEEMIT_MAX_PROXY_RECURSION_DEPTH_def)
  by (simp add: routes_ok_def total_percent_def routes_of_def demo_payout_def poll_defs t_get_def)

lemma demo_route_set: "set_withdraw_vesting_route_apply demo_route demo_payout = Inr demo_routed"
  by (simp add: set_withdraw_vesting_route_apply_def demo_route_def demo_routed_def demo_payout_def modify_account_def get_account_def
      t_get_def t_create_def t_modify_def total_percent_def routes_of_def poll_defs Let_def STEEMIT_MAX_WITHDRAW_ROUTES_def STEEMIT_100_PERCENT_def
      del: rbind_Inr)

lemma demo_alice: "\<exists>a. get_account ''alice'' demo_routed = Inr a \<and> due_shares a demo_routed = Inr 100"
  by (simp add: demo_routed_def demo_payout_def t_modify_def t_get_def due_shares_def Let_def poll_defs safe64_def int64_ok_def has_hardfork_def get_account_def del: rbind_Inr get_account_Inr)

lemma demo_routes: "routes_of ''alice'' demo_routed = [(''bob'', \<lparr>wro_percent = 5000, wro_auto_vest = False\<rparr>)]"
  by (simp add: routes_of_def demo_routed_def demo_payout_def t_modify_def t_get_def)

lemma unvoted_weight:
  assumes "get_account n db = Inr a" "acc_proxy a = []" "acc_witnesses_voted_for a = 0" "db_witness_votes db = []" "int64_ok d"
  shows "adjust_proxied_weight n d 0 db = Inr db"
  using assms by (subst adjust_proxied_weight.simps)
    (simp add: shared_delta_def safe_div_def cdiv_def safe64_def sgn_mult_abs adjust_witness_votes_def voted_witnesses_def t_get_def del: get_account_Inr)

lemma demo_routed_accounts:
  "get_account ''alice'' demo_routed = Inr ((demo_account ''alice'')\<lparr>acc_vesting_shares := mk_asset 600 VESTS_SYMBOL,
     acc_vesting_withdraw_rate := mk_asset 100 VESTS_SYMBOL, acc_to_withdraw := 400, acc_next_vesting_withdrawal := 1000000, acc_withdraw_routes := 1\<rparr>)"
  "get_account ''bob'' demo_routed = Inr ((demo_account ''bob'')\<lparr>acc_vesting_shares := mk_asset 400 VESTS_SYMBOL\<rparr>)"
  by (simp_all add: demo_routed_def demo_payout_def t_get_def t_modify_def get_account_def new_account_object_def demo_account_def)

definition demo_paid_bob :: database where
  "demo_paid_bob = demo_routed\<lparr>db_accounts := t_modify ''bob'' (\<lambda>_. (demo_account ''bob'')\<lparr>acc_vesting_shares := mk_asset 400 VESTS_SYMBOL,
       acc_balance := mk_asset 600 STEEM_SYMBOL\<rparr>) (db_accounts demo_routed),
     db_dgp := (db_dgp demo_routed)\<lparr>dgp_total_vesting_fund_steem := mk_asset 1900 STEEM_SYMBOL,
       dgp_total_vesting_shares := mk_asset 950 VESTS_SYMBOL\<rparr>,
     db_log := db_log demo_routed @ [Fill_Vesting_Withdraw_Op ''alice'' ''bob'' (mk_asset 50 VESTS_SYMBOL) (mk_asset 100 STEEM_SYMBOL)]\<rparr>"

definition demo_paid :: database where
  "demo_paid = demo_paid_bob\<lparr>db_accounts := t_modify ''alice'' (\<lambda>_. (demo_account ''alice'')\<lparr>
       acc_vesting_withdraw_rate := mk_asset 100 VESTS_SYMBOL, acc_to_withdraw := 400, acc_withdraw_routes := 1,
       acc_vesting_shares := mk_asset 500 VESTS_SYMBOL, acc_balance := mk_asset 600 STEEM_SYMBOL, acc_withdrawn := 100,
       acc_next_vesting_withdrawal := 1604800\<rparr>) (db_accounts demo_paid_bob),
     db_dgp := (db_dgp demo_paid_bob)\<lparr>dgp_total_vesting_fund_steem := mk_asset 1800 STEEM_SYMBOL,
       dgp_total_vesting_shares := mk_asset 900 VESTS_SYMBOL\<rparr>\<rparr>"

lemma demo_share: "route_share 100 5000 = 50"
  by (simp add: route_share_def mul_div_u128_def to_int64_def STEEMIT_100_PERCENT_def)

lemma demo_share_price: "asset_mul_price (mk_asset 50 VESTS_SYMBOL) (get_vesting_share_price (db_dgp demo_routed)) = Inr (mk_asset 100 STEEM_SYMBOL)"
  by (simp add: demo_routed_def demo_payout_def chain_eval get_vesting_share_price_def asset_mul_price_def mul_div_u128_def u128_amount_def to_int64_def)

lemma demo_share_price_bob: "asset_mul_price (mk_asset 50 VESTS_SYMBOL) (get_vesting_share_price (db_dgp demo_paid_bob)) = Inr (mk_asset 100 STEEM_SYMBOL)"
  by (simp add: demo_paid_bob_def demo_routed_def demo_payout_def chain_eval get_vesting_share_price_def asset_mul_price_def mul_div_u128_def u128_amount_def to_int64_def)

lemma demo_fund: "db_dgp demo_routed = demo_dgp\<lparr>dgp_total_vesting_shares := mk_asset 1000 VESTS_SYMBOL,
     dgp_total_vesting_fund_steem := mk_asset 2000 STEEM_SYMBOL, dgp_current_supply := mk_asset 3000 STEEM_SYMBOL\<rparr>"
  by (simp add: demo_routed_def demo_payout_def)

lemma demo_pay_bob: "pay_as_steem ''alice'' 100 (routes_of ''alice'' demo_routed) 0 (mk_asset 0 STEEM_SYMBOL) demo_routed = Inr (50, demo_paid_bob)"
  by (simp add: demo_routes demo_share demo_share_price [unfolded demo_fund] demo_fund credit_balance_def release_shares_def add_amount_def safe64_def int64_ok_def modify_account_def
      Let_def demo_routed_accounts asset_add_def asset_sub_def demo_account_def demo_paid_bob_def push_log_def del: rbind_Inr)

lemma demo_paid_bob_alice: "get_account ''alice'' demo_paid_bob = get_account ''alice'' demo_routed" "db_hardfork demo_paid_bob = 30"
  "db_dgp demo_paid_bob = demo_dgp\<lparr>dgp_current_supply := mk_asset 3000 STEEM_SYMBOL,
       dgp_total_vesting_fund_steem := mk_asset 1900 STEEM_SYMBOL, dgp_total_vesting_shares := mk_asset 950 VESTS_SYMBOL\<rparr>"
  by (simp_all add: demo_paid_bob_def get_account_def tbl.get_modify demo_fund) (simp add: demo_routed_def demo_payout_def poll_defs)

lemma demo_pay_alice: "modify_account ''alice'' (withdrawn_account 100 (mk_asset 100 STEEM_SYMBOL) demo_paid_bob) demo_paid_bob
    = Inr (demo_paid\<lparr>db_dgp := db_dgp demo_paid_bob\<rparr>)"
  by (simp add: modify_account_def demo_paid_bob_alice demo_routed_accounts withdrawn_account_def add_amount_def safe64_def int64_ok_def
      asset_add_def demo_account_def new_account_object_def STEEMIT_VESTING_WITHDRAW_INTERVAL_SECONDS_def demo_paid_def Let_def del: rbind_Inr)


lemma demo_paid_alice: "get_account ''alice'' demo_paid = Inr ((demo_account ''alice'')\<lparr>
       acc_vesting_withdraw_rate := mk_asset 100 VESTS_SYMBOL, acc_to_withdraw := 400, acc_withdraw_routes := 1,
       acc_vesting_shares := mk_asset 500 VESTS_SYMBOL, acc_balance := mk_asset 600 STEEM_SYMBOL, acc_withdrawn := 100,
       acc_next_vesting_withdrawal := 1604800\<rparr>)" "db_witness_votes demo_paid = []"
  using demo_paid_bob_alice(1) demo_routed_accounts(1)
  by (simp_all add: demo_paid_def get_account_def tbl.get_modify split: option.splits)
    (simp add: demo_paid_bob_def demo_routed_def demo_payout_def poll_defs)

lemma demo_pays: "\<exists>e. pay_withdrawal ''alice'' demo_routed = Inr (push_log e demo_paid)"
proof -
  obtain a where a: "get_account ''alice'' demo_routed = Inr a" "due_shares a demo_routed = Inr 100" using demo_alice by blast
  have v: "pay_as_vests ''alice'' 100 (routes_of ''alice'' demo_routed) 0 demo_routed = Inr (0, demo_routed)"
    by (simp add: demo_routes)
  let ?d = "demo_paid\<lparr>db_dgp := db_dgp demo_paid_bob\<rparr>"
  have n: "note_fix ''alice'' ?d = ?d" using demo_paid_alice(1) by (simp add: note_fix_def)
  have r: "release_shares (mk_asset 100 STEEM_SYMBOL) 50 ?d = Inr demo_paid"
    by (simp add: release_shares_def demo_paid_bob_alice asset_sub_def add_amount_def safe64_def int64_ok_def demo_paid_def)
  have w: "adjust_proxied_weight ''alice'' (- 100) 0 demo_paid = Inr demo_paid"
    by (rule unvoted_weight [OF demo_paid_alice(1)]) (simp_all add: demo_unproxied demo_paid_alice(2) int64_ok_def)
  show ?thesis
    by (simp add: pay_withdrawal_def a v demo_pay_bob demo_share_price_bob demo_pay_alice n r w safe64_def int64_ok_def Let_def
        del: rbind_Inr get_account_Inr modify_account_Inr) blast
qed

lemma demo_keys: "withdrawal_keys demo_routed = [(1000000, 0, ''alice''), (2 ^ 32 - 1, 1, ''bob'')]"
  by (simp add: withdrawal_keys_def demo_routed_def demo_payout_def t_modify_def demo_account_def new_account_object_def time_point_max_def)

lemma demo_times: "head_block_time demo_routed = 1000000" "head_block_time demo_paid = 1000000"
  by (simp_all add: demo_paid_def demo_paid_bob_def demo_fund demo_dgp_def push_log_def)

lemma demo_loop: "\<exists>db2. process_vesting_withdrawals demo_routed = Inr db2 \<and> db_dgp db2 = db_dgp demo_paid"
proof -
  obtain e where e: "pay_withdrawal ''alice'' demo_routed = Inr (push_log e demo_paid)" using demo_pays by blast
  then show ?thesis
    by (simp add: process_vesting_withdrawals_def demo_keys next_key_def pay_withdrawals.simps demo_times push_log_def)
qed

theorem vesting_payout_conserves_witness:
  "\<exists>db2. process_vesting_withdrawals demo_routed = Inr db2 \<and> wf_db db2
    \<and> amount (dgp_total_vesting_shares (db_dgp db2)) = 900 \<and> gap STEEM_SYMBOL db2 = 0"
proof -
  obtain db2 where 1: "process_vesting_withdrawals demo_routed = Inr db2" "db_dgp db2 = db_dgp demo_paid" using demo_loop by blast
  have "gap STEEM_SYMBOL demo_payout = 0"
    by (simp add: demo_payout_def poll_defs gap_def issued_def held_def t_total_def acct_held_def dgp_held_def asset_in_def)
  then show ?thesis
    using vesting_payout_conserves [OF demo_route_set 1(1) demo_payout_ok] 1 by (simp add: demo_paid_def)
qed

lemma demo_buy: "\<exists>db'. create_vesting ''bob'' (mk_asset 30 STEEM_SYMBOL) demo_payout = Inr db' \<and> dgp_total_vesting_shares (db_dgp db') = mk_asset 1015 VESTS_SYMBOL"
proof -
  let ?b = "(demo_account ''bob'')\<lparr>acc_vesting_shares := mk_asset 415 VESTS_SYMBOL\<rparr>"
  let ?d = "demo_payout\<lparr>db_accounts := t_modify ''bob'' (\<lambda>_. ?b) (db_accounts demo_payout),
    db_dgp := (db_dgp demo_payout)\<lparr>dgp_total_vesting_fund_steem := mk_asset 2030 STEEM_SYMBOL, dgp_total_vesting_shares := mk_asset 1015 VESTS_SYMBOL\<rparr>\<rparr>"
  have g: "get_account ''bob'' demo_payout = Inr ((demo_account ''bob'')\<lparr>acc_vesting_shares := mk_asset 400 VESTS_SYMBOL\<rparr>)"
    by (simp add: demo_payout_def t_get_def)
  have "get_account ''bob'' ?d = Inr ?b" using g by (simp add: tbl.get_modify)
  then have w: "adjust_proxied_weight ''bob'' 15 0 ?d = Inr ?d"
    by (rule unvoted_weight) (simp_all add: demo_unproxied int64_ok_def, simp add: demo_payout_def poll_defs)
  have dg: "dgp_total_vesting_fund_steem (db_dgp demo_payout) = mk_asset 2000 STEEM_SYMBOL"
    "dgp_total_vesting_shares (db_dgp demo_payout) = mk_asset 1000 VESTS_SYMBOL" by (simp_all add: demo_payout_def)
  have p: "asset_mul_price (mk_asset 30 STEEM_SYMBOL) (get_vesting_share_price (db_dgp demo_payout)) = Inr (mk_asset 15 VESTS_SYMBOL)"
    by (simp add: demo_payout_def chain_eval get_vesting_share_price_def asset_mul_price_def mul_div_u128_def u128_amount_def to_int64_def)
  have "add_vesting ''bob'' (mk_asset 15 VESTS_SYMBOL) demo_payout = Inr (demo_payout\<lparr>db_accounts := t_modify ''bob'' (\<lambda>_. ?b) (db_accounts demo_payout)\<rparr>)"
    by (simp add: add_vesting_def modify_account_def g asset_add_def safe64_def int64_ok_def del: rbind_Inr get_account_Inr)
  then have "create_vesting ''bob'' (mk_asset 30 STEEM_SYMBOL) demo_payout = Inr ?d"
    using w dg by (simp add: create_vesting_def p asset_add_def int64_ok_def del: rbind_Inr get_account_Inr modify_account_Inr)
  then show ?thesis by simp
qed

theorem create_vesting_price_witness:
  "\<exists>db'. create_vesting ''bob'' (mk_asset 30 STEEM_SYMBOL) demo_payout = Inr db'
    \<and> 2000 * amount (dgp_total_vesting_shares (db_dgp db')) \<le> amount (dgp_total_vesting_fund_steem (db_dgp db')) * 1000"
proof -
  obtain db' where 1: "create_vesting ''bob'' (mk_asset 30 STEEM_SYMBOL) demo_payout = Inr db'" using demo_buy by blast
  then show ?thesis using create_vesting_price [OF 1 demo_payout_ok(1)] by (simp add: demo_payout_def)
qed

end
