(* ===== verification/Delegation.thy ===== *)
theory Delegation
  imports Vesting Due_Queue
begin

text \<open>
  Delegation of vesting shares (\<^verbatim>\<open>libraries/chain/steem_evaluator.cpp\<close>: the template
  \<open>delegate_vesting_shares\<close> with its three evaluators, \<open>break_free_referral\<close>; \<^verbatim>\<open>account_object.hpp\<close>:
  \<open>delegate_vs\<close>, \<open>receive_vs\<close>; \<^verbatim>\<open>database.cpp\<close>: \<open>clear_expired_delegations\<close>). Shares that are taken back stay
  delegated until their expiration object is due. The lemmas show that the counters of an account
  are the sums of its rows, that an account cannot delegate more than it has, and where the code
  breaks these rules.
\<close>

definition STEEMIT_CASHOUT_WINDOW_SECONDS :: int where "STEEMIT_CASHOUT_WINDOW_SECONDS = 60 * 60 * 24 * 7"
definition STEEMIT_VOTE_REGENERATION_SECONDS :: int where "STEEMIT_VOTE_REGENERATION_SECONDS = 5 * 60 * 60 * 24"

section \<open>The counters of an account\<close>

definition delegate_vs :: "asset \<Rightarrow> bool \<Rightarrow> account_object \<Rightarrow> account_object result" where
  "delegate_vs delta is_emission a =
    (if is_emission then rbind (asset_add (acc_emission_delegated_vesting_shares a) delta)
       (\<lambda>x. Inr (a\<lparr>acc_emission_delegated_vesting_shares := x\<rparr>))
     else rbind (asset_add (acc_delegated_vesting_shares a) delta)
       (\<lambda>x. Inr (a\<lparr>acc_delegated_vesting_shares := x\<rparr>)))"

definition receive_vs :: "asset \<Rightarrow> bool \<Rightarrow> account_object \<Rightarrow> account_object result" where
  "receive_vs delta is_emission a =
    (if is_emission then rbind (asset_add (acc_emission_received_vesting_shares a) delta)
       (\<lambda>x. Inr (a\<lparr>acc_emission_received_vesting_shares := x\<rparr>))
     else rbind (asset_add (acc_received_vesting_shares a) delta)
       (\<lambda>x. Inr (a\<lparr>acc_received_vesting_shares := x\<rparr>)))"

section \<open>Delegating\<close>

definition current_power :: "account_object \<Rightarrow> database \<Rightarrow> int" where
  "current_power a db =
    (let elapsed = head_block_time db - acc_last_vote_time a;
         regenerated = cdiv (STEEMIT_100_PERCENT * elapsed) STEEMIT_VOTE_REGENERATION_SECONDS
     in min (int (acc_voting_power a) + regenerated) STEEMIT_100_PERCENT)"

definition max_allowed :: "account_object \<Rightarrow> database \<Rightarrow> int" where
  "max_allowed a db = to_int64 (mul_div_u128 (amount (acc_vesting_shares a)) (current_power a db) STEEMIT_100_PERCENT)"

definition check_delegation_limit :: "account_name \<Rightarrow> asset \<Rightarrow> database \<Rightarrow> unit result" where
  "check_delegation_limit n delta db =
     rbind (get_account n db) (\<lambda>a.
     rbind (asset_add (acc_delegated_vesting_shares a) (acc_emission_delegated_vesting_shares a)) (\<lambda>delegated.
     rbind (check_balance n AVAILABLE_VESTING delta db) (\<lambda>_.
     rbind (asset_add delegated delta) (\<lambda>x.
     rbind (asset_le x (mk_asset (max_allowed a db) VESTS_SYMBOL)) (\<lambda>b.
     check_logic ''delegation_limited_by_voting_power'' b)))))"

definition create_expiration :: "account_name \<Rightarrow> asset \<Rightarrow> vesting_delegation_object \<Rightarrow> database \<Rightarrow> database" where
  "create_expiration delegator shares d db =
     db\<lparr>db_expirations := t_create (db_next_expiration db) \<lparr>vde_delegator = delegator, vde_vesting_shares = shares,
          vde_expiration = max (head_block_time db + STEEMIT_CASHOUT_WINDOW_SECONDS) (vdo_min_delegation_time d),
          vde_is_emission = vdo_is_emission d\<rparr> (db_expirations db),
        db_next_expiration := Suc (db_next_expiration db)\<rparr>"

definition new_delegation :: "account_name \<Rightarrow> account_name \<Rightarrow> asset \<Rightarrow> database \<Rightarrow> vesting_delegation_object" where
  "new_delegation delegator delegatee shares db = \<lparr>vdo_delegator = delegator, vdo_delegatee = delegatee,
     vdo_vesting_shares = shares, vdo_interest_rate = 0, vdo_payout_strategy = to_delegator, vdo_is_emission = False,
     vdo_min_delegation_time = head_block_time db\<rparr>"

text \<open>The smallest changes that are worth a transaction.\<close>

definition check_difference :: "asset \<Rightarrow> asset \<Rightarrow> asset \<Rightarrow> database \<Rightarrow> unit result" where
  "check_difference shares delta min_update db =
    (if \<not> has_hardfork 28 db \<or> amount shares \<noteq> 0 then
       rbind (if amount delta > 0 then Inr delta else asset_neg delta) (\<lambda>x.
       rbind (asset_ge x min_update) (check_logic ''delegation_difference_too_low''))
     else Inr ())"

definition increase_delegation :: "account_name \<Rightarrow> account_name \<Rightarrow> asset \<Rightarrow> asset \<Rightarrow> asset \<Rightarrow> bool
    \<Rightarrow> (vesting_delegation_object \<Rightarrow> vesting_delegation_object) \<Rightarrow> database \<Rightarrow> database result" where
  "increase_delegation delegator delegatee shares delta min_del is_emission create_vdo db =
     rbind (check_delegation_limit delegator delta db) (\<lambda>_.
     rbind (if t_get (delegator, delegatee) (db_delegations db) \<noteq> None then Inr db
       else rbind (check_param ''vesting_shares'' (rbind (asset_ge shares min_del)
              (check_logic ''cannot_delegate_below_minimum''))) (\<lambda>_.
            Inr (db\<lparr>db_delegations := t_create (delegator, delegatee)
              (create_vdo (new_delegation delegator delegatee shares db)) (db_delegations db)\<rparr>)))
       (modify_account delegator (delegate_vs delta is_emission)))"

text \<open>Without a delegation the source reads through a null pointer here.\<close>

definition decrease_delegation :: "account_name \<Rightarrow> account_name \<Rightarrow> asset \<Rightarrow> asset \<Rightarrow> asset \<Rightarrow> database \<Rightarrow> database result" where
  "decrease_delegation delegator delegatee shares delta min_del db =
     rbind (check_param ''vesting_shares'' (
       if amount shares = 0 then Inr ()
       else rbind (asset_ge shares min_del) (check_logic ''cannot_delegate_below_minimum''))) (\<lambda>_.
     rbind (asset_neg delta) (\<lambda>m.
     case t_get (delegator, delegatee) (db_delegations db) of None \<Rightarrow> Inl Undefined_Behaviour
     | Some d \<Rightarrow> Inr (create_expiration delegator m d db)))"

definition delegate_vesting_shares :: "account_name \<Rightarrow> account_name \<Rightarrow> asset \<Rightarrow> bool
    \<Rightarrow> (vesting_delegation_object \<Rightarrow> vesting_delegation_object) \<Rightarrow> (vesting_delegation_object \<Rightarrow> unit result)
    \<Rightarrow> database \<Rightarrow> database result" where
  "delegate_vesting_shares delegator delegatee shares is_emission create_vdo validate_with_vdo db =
    (let k = (delegator, delegatee); delegation = t_get k (db_delegations db); props = db_median_props db;
         v_share_price = get_vesting_share_price (db_dgp db) in
     rbind (get_account delegator db) (\<lambda>_.
     rbind (get_account delegatee db) (\<lambda>_.
     rbind (case delegation of None \<Rightarrow> Inr () | Some d \<Rightarrow> validate_with_vdo d) (\<lambda>_.
     rbind (asset_mul_price (min_delegation props) v_share_price) (\<lambda>min_del.
     rbind (asset_mul_price (create_account_min_golos_fee props) v_share_price) (\<lambda>min_update.
     rbind (case delegation of None \<Rightarrow> Inr shares | Some d \<Rightarrow> asset_sub shares (vdo_vesting_shares d)) (\<lambda>delta.
     rbind (check_param ''vesting_shares'' (check_difference shares delta min_update db)) (\<lambda>_.
     let em = (case delegation of None \<Rightarrow> is_emission | Some d \<Rightarrow> vdo_is_emission d) in
     rbind (if amount delta > 0 then increase_delegation delegator delegatee shares delta min_del em create_vdo db
       else decrease_delegation delegator delegatee shares delta min_del db) (\<lambda>db1.
     rbind (modify_account delegatee (receive_vs delta em) db1) (\<lambda>db2.
     case delegation of None \<Rightarrow> Inr db2
     | Some d \<Rightarrow> Inr (db2\<lparr>db_delegations :=
         (if amount shares > 0 then t_modify k (\<lambda>d. d\<lparr>vdo_vesting_shares := shares\<rparr>) (db_delegations db2)
          else t_remove k (db_delegations db2))\<rparr>)))))))))))"

definition delegate_vesting_shares_apply :: "delegate_vesting_shares_operation \<Rightarrow> database \<Rightarrow> database result" where
  "delegate_vesting_shares_apply o1 =
     delegate_vesting_shares (dvs_delegator o1) (dvs_delegatee o1) (dvs_vesting_shares o1) False id (\<lambda>_. Inr ())"

text \<open>An extension that is present asks for the interest direction of the emission.\<close>

definition delegate_vesting_shares_with_interest_apply ::
  "delegate_vesting_shares_with_interest_operation \<Rightarrow> database \<Rightarrow> database result" where
  "delegate_vesting_shares_with_interest_apply o1 db =
    (let rate = dvi_interest_rate o1; is_emission = (dvi_extensions o1 \<noteq> []) in
     rbind (check (has_hardfork 19 db) Unsupported_Operation) (\<lambda>_.
     rbind (if is_emission then check (has_hardfork 27 db) Unsupported_Operation else Inr ()) (\<lambda>_.
     rbind (if is_emission then check_param ''op.interest_rate'' (check_value (uint rate = STEEMIT_100_PERCENT))
       else if \<not> has_hardfork 29 db \<or> amount (dvi_vesting_shares o1) > 0 then
         check_param ''op.interest_rate'' (check_value (rate \<le> max_delegated_vesting_interest_rate (db_median_props db)))
       else Inr ()) (\<lambda>_.
     delegate_vesting_shares (dvi_delegator o1) (dvi_delegatee o1) (dvi_vesting_shares o1) is_emission
       (\<lambda>d. d\<lparr>vdo_interest_rate := unat rate, vdo_payout_strategy := dvi_payout_strategy o1, vdo_is_emission := is_emission\<rparr>)
       (\<lambda>d. rbind (check_logic ''cannot_change_delegator_interest_rate'' (vdo_interest_rate d = unat rate)) (\<lambda>_.
          check_logic ''cannot_change_delegator_payout_strategy''
            (vdo_is_emission d = is_emission \<and> vdo_payout_strategy d = dvi_payout_strategy o1))) db))))"

text \<open>The second argument of \<open>receive_vs\<close> is the payout strategy converted to a truth value.\<close>

definition reject_vesting_shares_delegation_apply ::
  "reject_vesting_shares_delegation_operation \<Rightarrow> database \<Rightarrow> database result" where
  "reject_vesting_shares_delegation_apply o1 db =
    (let k = (rvd_delegator o1, rvd_delegatee o1) in
     rbind (check (has_hardfork 19 db) Unsupported_Operation) (\<lambda>_.
     rbind (get_account (rvd_delegatee o1) db) (\<lambda>_.
     case t_get k (db_delegations db) of None \<Rightarrow> Inl (Missing_Object ''vesting_delegation_object'')
     | Some d \<Rightarrow>
         rbind (asset_neg (vdo_vesting_shares d)) (\<lambda>m.
         rbind (modify_account (rvd_delegatee o1) (receive_vs m (vdo_payout_strategy d \<noteq> to_delegator)) db) (\<lambda>db1.
         let db2 = create_expiration (rvd_delegator o1) (vdo_vesting_shares d) d db1 in
         Inr (db2\<lparr>db_delegations := t_remove k (db_delegations db2)\<rparr>))))))"

definition break_free_referral_apply :: "break_free_referral_operation \<Rightarrow> database \<Rightarrow> database result" where
  "break_free_referral_apply o1 db =
     rbind (check (has_hardfork 19 db) Unsupported_Operation) (\<lambda>_.
     rbind (get_account (bfr_referral o1) db) (\<lambda>a.
     rbind (get_account (acc_referrer_account a) db) (\<lambda>_.
     rbind (check_logic ''no_right_to_break_referral'' (amount (acc_referral_break_fee a) \<noteq> 0)) (\<lambda>_.
     rbind (check_balance (bfr_referral o1) MAIN_BALANCE (acc_referral_break_fee a) db) (\<lambda>_.
     rbind (asset_neg (acc_referral_break_fee a)) (\<lambda>m.
     rbind (adjust_balance (bfr_referral o1) m db) (\<lambda>db1.
     rbind (adjust_balance (acc_referrer_account a) (acc_referral_break_fee a) db1)
       (modify_account (bfr_referral o1) (\<lambda>a. Inr (a\<lparr>acc_referrer_account := [], acc_referrer_interest_rate := 0,
          acc_referral_end_date := 0, acc_referral_break_fee := mk_asset 0 (symbol (acc_referral_break_fee a))\<rparr>))))))))))"

section \<open>Delegations that come home\<close>

text \<open>The rows of the expirations together with their ids.\<close>

definition expirations_tab :: "database \<Rightarrow> (nat, nat \<times> vesting_delegation_expiration_object) table" where
  "expirations_tab db = map (\<lambda>(i, e). (i, (i, e))) (db_expirations db)"

definition expiration_before :: "nat \<times> vesting_delegation_expiration_object \<Rightarrow> nat \<times> vesting_delegation_expiration_object \<Rightarrow> bool" where
  "expiration_before x y \<longleftrightarrow> vde_expiration (snd x) < vde_expiration (snd y)"

definition expiration_due :: "database \<Rightarrow> nat \<times> vesting_delegation_expiration_object \<Rightarrow> bool" where
  "expiration_due db x \<longleftrightarrow> vde_expiration (snd x) < head_block_time db"

definition return_delegation :: "nat \<times> vesting_delegation_expiration_object \<Rightarrow> database \<Rightarrow> database result" where
  "return_delegation x db = (case x of (i, e) \<Rightarrow>
     rbind (asset_neg (vde_vesting_shares e)) (\<lambda>m.
     rbind (modify_account (vde_delegator e) (delegate_vs m (vde_is_emission e)) db) (\<lambda>db1.
     Inr ((push_log (Return_Vesting_Delegation_Op (vde_delegator e) (vde_vesting_shares e)) db1)
       \<lparr>db_expirations := t_remove i (db_expirations db1)\<rparr>))))"

definition clear_expired_delegations :: "database \<Rightarrow> database result" where
  "clear_expired_delegations db =
     process_due (length (db_expirations db)) expirations_tab expiration_before expiration_due return_delegation db"

section \<open>The counters are the sums of the rows\<close>

text \<open>\<open>own_side\<close> is true for the shares an account has given away, false for those it was given.\<close>

definition counter :: "bool \<Rightarrow> bool \<Rightarrow> account_object \<Rightarrow> int" where
  "counter own_side em a = amount (if own_side then (if em then acc_emission_delegated_vesting_shares a else acc_delegated_vesting_shares a)
     else (if em then acc_emission_received_vesting_shares a else acc_received_vesting_shares a))"

definition row_weight :: "bool \<Rightarrow> bool \<Rightarrow> account_name \<Rightarrow> vesting_delegation_object \<Rightarrow> int" where
  "row_weight own_side em n d = (if vdo_is_emission d = em \<and> n = (if own_side then vdo_delegator d else vdo_delegatee d)
     then amount (vdo_vesting_shares d) else 0)"

definition expiring_weight :: "bool \<Rightarrow> bool \<Rightarrow> account_name \<Rightarrow> vesting_delegation_expiration_object \<Rightarrow> int" where
  "expiring_weight own_side em n e = (if own_side \<and> vde_is_emission e = em \<and> n = vde_delegator e then amount (vde_vesting_shares e) else 0)"

definition counted :: "bool \<Rightarrow> bool \<Rightarrow> account_name \<Rightarrow> database \<Rightarrow> int" where
  "counted own_side em n db = (case t_get n (db_accounts db) of None \<Rightarrow> 0 | Some a \<Rightarrow> counter own_side em a)"

definition imbalance :: "bool \<Rightarrow> bool \<Rightarrow> account_name \<Rightarrow> database \<Rightarrow> int" where
  "imbalance own_side em n db = counted own_side em n db
     - t_total (row_weight own_side em n) (db_delegations db) - t_total (expiring_weight own_side em n) (db_expirations db)"

definition delegations_balanced :: "database \<Rightarrow> bool" where
  "delegations_balanced db \<longleftrightarrow> (\<forall>own_side em n. imbalance own_side em n db = 0)"

lemma counter_delegate: "delegate_vs x e a = Inr a' \<Longrightarrow> counter own em a' = counter own em a + (if own \<and> e = em then amount x else 0)"
  by (auto simp: delegate_vs_def counter_def split: if_splits)

lemma counter_receive: "receive_vs x e a = Inr a' \<Longrightarrow> counter own em a' = counter own em a + (if \<not> own \<and> e = em then amount x else 0)"
  by (auto simp: receive_vs_def counter_def split: if_splits)

lemma imbalance_modify:
  assumes "modify_account m f db = Inr db'" "\<And>a a'. f a = Inr a' \<Longrightarrow> counter own em a' = counter own em a + x"
  shows "imbalance own em n db' = imbalance own em n db + (if n = m then x else 0)"
  using assms by (auto simp: imbalance_def counted_def tbl.get_modify)

lemma imbalance_delegate: "modify_account m (delegate_vs x e) db = Inr db' \<Longrightarrow>
    imbalance own em n db' = imbalance own em n db + (if n = m then if own \<and> e = em then amount x else 0 else 0)"
  by (erule imbalance_modify) (rule counter_delegate)

lemma imbalance_receive: "modify_account m (receive_vs x e) db = Inr db' \<Longrightarrow>
    imbalance own em n db' = imbalance own em n db + (if n = m then if \<not> own \<and> e = em then amount x else 0 else 0)"
  by (erule imbalance_modify) (rule counter_receive)

lemma imbalance_expiration: "imbalance own em n (create_expiration m x d db) = imbalance own em n db
    - (if own \<and> vdo_is_emission d = em \<and> n = m then amount x else 0)"
  by (simp add: imbalance_def create_expiration_def counted_def t_total_create expiring_weight_def)

lemma imbalance_delegations: "imbalance own em n (db\<lparr>db_delegations := D\<rparr>)
    = imbalance own em n db + t_total (row_weight own em n) (db_delegations db) - t_total (row_weight own em n) D"
  by (simp add: imbalance_def counted_def)

section \<open>Well-typed delegations\<close>

definition row_typed :: "database \<Rightarrow> account_name \<times> account_name \<Rightarrow> vesting_delegation_object \<Rightarrow> bool" where
  "row_typed db k d \<longleftrightarrow> k = (vdo_delegator d, vdo_delegatee d) \<and> symbol (vdo_vesting_shares d) = VESTS_SYMBOL
     \<and> 0 < amount (vdo_vesting_shares d)
     \<and> vdo_delegator d \<in> fst ` set (db_accounts db) \<and> vdo_delegatee d \<in> fst ` set (db_accounts db)"

definition expiration_typed :: "database \<Rightarrow> nat \<Rightarrow> vesting_delegation_expiration_object \<Rightarrow> bool" where
  "expiration_typed db i e \<longleftrightarrow> i < db_next_expiration db \<and> symbol (vde_vesting_shares e) = VESTS_SYMBOL
     \<and> 0 \<le> amount (vde_vesting_shares e) \<and> vde_delegator e \<in> fst ` set (db_accounts db)"

definition counters_fit :: "account_name \<Rightarrow> account_object \<Rightarrow> bool" where
  "counters_fit n a \<longleftrightarrow> (\<forall>own_side em. int64_ok (counter own_side em a))"

definition delegations_typed :: "database \<Rightarrow> bool" where
  "delegations_typed db \<longleftrightarrow> wf_db db \<and> t_wf (db_delegations db) \<and> t_wf (db_expirations db)
     \<and> t_all (row_typed db) (db_delegations db) \<and> t_all (expiration_typed db) (db_expirations db)
     \<and> t_all counters_fit (db_accounts db)"

lemma typed_modify:
  assumes "modify_account m f db = Inr db'" "delegations_typed db"
    "\<And>a a'. wf_account m a \<Longrightarrow> counters_fit m a \<Longrightarrow> f a = Inr a' \<Longrightarrow>
       wf_account m a' \<and> counters_fit m a' \<and> (\<forall>s. acct_held s a' = acct_held s a)"
  shows "delegations_typed db'"
proof -
  obtain a a' where a: "t_get m (db_accounts db) = Some a" "f a = Inr a'"
    and db': "db' = db\<lparr>db_accounts := t_modify m (\<lambda>_. a') (db_accounts db)\<rparr>" using assms(1) by auto
  have w: "wf_account m a" "counters_fit m a"
    using assms(2) a(1) by (auto simp: delegations_typed_def wf_db_def dest: t_all_get)
  have s: "wf_account m a' \<and> counters_fit m a' \<and> (\<forall>s. acct_held s a' = acct_held s a)" by (rule assms(3) [OF w a(2)])
  have "wf_db db'" using s assms(2) by (simp add: db' wf_db_def delegations_typed_def t_wf_modify t_all_modify_const)
  moreover have "fst ` set (db_accounts db') = fst ` set (db_accounts db)"
    by (force simp: db' t_modify_def image_iff)
  ultimately show ?thesis using assms(2) s
    by (simp add: delegations_typed_def row_typed_def [abs_def] expiration_typed_def [abs_def] db' t_all_modify_const)
qed

lemma fits_delegate: "delegate_vs x e a = Inr a' \<Longrightarrow> int64_ok (counter own em a) \<Longrightarrow> int64_ok (counter own em a')"
  by (cases own; cases em; cases e) (auto simp: delegate_vs_def counter_def)

lemma fits_receive: "receive_vs x e a = Inr a' \<Longrightarrow> int64_ok (counter own em a) \<Longrightarrow> int64_ok (counter own em a')"
  by (cases own; cases em; cases e) (auto simp: receive_vs_def counter_def)

lemma same_counted:
  assumes "wf_account m a" "delegate_vs x e a = Inr a' \<or> receive_vs x e a = Inr a'"
  shows "wf_account m a' \<and> (\<forall>s. acct_held s a' = acct_held s a)"
  using assms by (cases e) (auto simp: delegate_vs_def receive_vs_def wf_account_def acct_held_def)

lemma counters_step:
  assumes "wf_account m a" "counters_fit m a" "delegate_vs x e a = Inr a' \<or> receive_vs x e a = Inr a'"
  shows "wf_account m a' \<and> counters_fit m a' \<and> (\<forall>s. acct_held s a' = acct_held s a)"
  using assms(2,3) same_counted [OF assms(1,3)] fits_delegate [of x e a a'] fits_receive [of x e a a'] by (auto simp: counters_fit_def)

lemma typed_delegate: "modify_account m (delegate_vs x e) db = Inr db' \<Longrightarrow> delegations_typed db \<Longrightarrow> delegations_typed db'"
  by (erule typed_modify) (use counters_step in blast)+

lemma typed_receive: "modify_account m (receive_vs x e) db = Inr db' \<Longrightarrow> delegations_typed db \<Longrightarrow> delegations_typed db'"
  by (erule typed_modify) (use counters_step in blast)+

lemma delegations_untouched: "modify_account m f db = Inr db' \<Longrightarrow> db_delegations db' = db_delegations db
    \<and> db_expirations db' = db_expirations db \<and> db_next_expiration db' = db_next_expiration db"
  by auto

section \<open>What a delegation does\<close>

definition resized :: "account_name \<times> account_name \<Rightarrow> asset \<Rightarrow> database \<Rightarrow> database" where
  "resized k shares db = db\<lparr>db_delegations :=
     (if amount shares > 0 then t_modify k (\<lambda>d. d\<lparr>vdo_vesting_shares := shares\<rparr>) (db_delegations db)
      else t_remove k (db_delegations db))\<rparr>"

lemma delegate_vesting_shares_cases:
  assumes "delegate_vesting_shares n m shares em0 create_vdo validate db = Inr db'"
  obtains (create) db1 where "t_get (n, m) (db_delegations db) = None" "0 < amount shares"
      "modify_account n (delegate_vs shares em0) (db\<lparr>db_delegations :=
         t_create (n, m) (create_vdo (new_delegation n m shares db)) (db_delegations db)\<rparr>) = Inr db1"
      "modify_account m (receive_vs shares em0) db1 = Inr db'"
  | (increase) d delta db1 db2 where "t_get (n, m) (db_delegations db) = Some d" "asset_sub shares (vdo_vesting_shares d) = Inr delta"
      "modify_account n (delegate_vs delta (vdo_is_emission d)) db = Inr db1"
      "modify_account m (receive_vs delta (vdo_is_emission d)) db1 = Inr db2" "db' = resized (n, m) shares db2"
  | (decrease) d delta y db2 where "t_get (n, m) (db_delegations db) = Some d" "asset_sub shares (vdo_vesting_shares d) = Inr delta"
      "amount delta \<le> 0" "asset_neg delta = Inr y" "t_get n (db_accounts db) \<noteq> None"
      "modify_account m (receive_vs delta (vdo_is_emission d)) (create_expiration n y d db) = Inr db2" "db' = resized (n, m) shares db2"
proof (cases "t_get (n, m) (db_delegations db)")
  case None
  obtain min_del db1 where 1: "(if amount shares > 0 then increase_delegation n m shares shares min_del em0 create_vdo db
       else decrease_delegation n m shares shares min_del db) = Inr db1" and 2: "modify_account m (receive_vs shares em0) db1 = Inr db'"
    using assms by (auto simp: delegate_vesting_shares_def Let_def None cong: if_cong simp del: modify_account_Inr)
  have "0 < amount shares" using 1 None by (auto simp: decrease_delegation_def split: if_splits)
  then show ?thesis using 1 2 None by (auto simp: increase_delegation_def simp del: modify_account_Inr intro: create)
next
  case (Some d)
  obtain min_del delta db1 db2 where delta: "asset_sub shares (vdo_vesting_shares d) = Inr delta"
    and 1: "(if amount delta > 0 then increase_delegation n m shares delta min_del (vdo_is_emission d) create_vdo db
       else decrease_delegation n m shares delta min_del db) = Inr db1"
    and 2: "modify_account m (receive_vs delta (vdo_is_emission d)) db1 = Inr db2" and 3: "db' = resized (n, m) shares db2"
    and ex: "t_get n (db_accounts db) \<noteq> None"
    using assms by (auto simp: delegate_vesting_shares_def Let_def resized_def Some cong: if_cong simp del: modify_account_Inr asset_sub_Inr)
  show ?thesis
  proof (cases "amount delta > 0")
    case True
    then have "modify_account n (delegate_vs delta (vdo_is_emission d)) db = Inr db1"
      using 1 Some by (auto simp: increase_delegation_def simp del: modify_account_Inr)
    then show ?thesis by (rule increase [OF Some delta _ 2 3])
  next
    case False
    then obtain y where "asset_neg delta = Inr y" "db1 = create_expiration n y d db"
      using 1 Some by (auto simp: decrease_delegation_def simp del: asset_neg_Inr)
    then show ?thesis using decrease [OF Some delta _ _ ex _ 3] False 2 by simp
  qed
qed

lemma imbalance_resized:
  assumes "t_wf (db_delegations db)" "t_get (n, m) (db_delegations db) = Some d" "row_typed db' (n, m) d" "0 \<le> amount shares"
  shows "imbalance own em p (resized (n, m) shares db) = imbalance own em p db
    - (if vdo_is_emission d = em \<and> p = (if own then n else m) then amount shares - amount (vdo_vesting_shares d) else 0)"
  using assms unfolding resized_def imbalance_delegations
  by (auto simp: tbl.total_modify tbl.total_remove row_weight_def row_typed_def)

lemma delegate_balanced:
  assumes "delegate_vesting_shares n m shares em0 create_vdo validate db = Inr db'" "delegations_typed db" "0 \<le> amount shares"
    and c: "create_vdo (new_delegation n m shares db) = (new_delegation n m shares db)\<lparr>vdo_interest_rate := r, vdo_payout_strategy := s, vdo_is_emission := em0\<rparr>"
  shows "imbalance own em p db' = imbalance own em p db"
proof -
  have typed: "t_wf (db_delegations db)" "\<And>k d. t_get k (db_delegations db) = Some d \<Longrightarrow> row_typed db k d"
    using assms(2) by (auto simp: delegations_typed_def dest: t_all_get)
  show ?thesis using assms(1)
  proof (cases rule: delegate_vesting_shares_cases)
    case (create db1)
    show ?thesis
      unfolding imbalance_receive [OF create(4)] imbalance_delegate [OF create(3)] imbalance_delegations c
      by (auto simp: t_total_create row_weight_def new_delegation_def)
  next
    case (increase d delta db1 db2)
    then have "db_delegations db2 = db_delegations db" by (auto dest!: delegations_untouched simp del: modify_account_Inr)
    then show ?thesis
      using imbalance_resized [of db2 n m d db shares own em p] typed increase(1,2) assms(3)
      unfolding increase(5) imbalance_receive [OF increase(4)] imbalance_delegate [OF increase(3)] by auto
  next
    case (decrease d delta y db2)
    then have "db_delegations db2 = db_delegations db"
      by (auto dest!: delegations_untouched simp: create_expiration_def simp del: modify_account_Inr)
    then show ?thesis
      using imbalance_resized [of db2 n m d db shares own em p] typed decrease(1,2,4) assms(3)
      unfolding decrease(7) imbalance_receive [OF decrease(6)] imbalance_expiration by auto
  qed
qed

section \<open>Typing is kept\<close>

lemma names_iff: "n \<in> fst ` set t \<longleftrightarrow> t_get n t \<noteq> None"
  by (simp add: t_get_def map_of_eq_None_iff)

lemma typed_delegations:
  assumes "delegations_typed db" "t_wf D" "t_all (row_typed db) D"
  shows "delegations_typed (db\<lparr>db_delegations := D\<rparr>)"
  using assms by (simp add: delegations_typed_def row_typed_def [abs_def] expiration_typed_def [abs_def] wf_db_def)

lemma typed_expirations:
  assumes "delegations_typed db" "t_wf E" "t_all (expiration_typed (db\<lparr>db_next_expiration := j\<rparr>)) E"
  shows "delegations_typed (db\<lparr>db_expirations := E, db_next_expiration := j\<rparr>)"
  using assms by (simp add: delegations_typed_def row_typed_def [abs_def] expiration_typed_def [abs_def] wf_db_def)

lemma typed_tables:
  assumes "delegations_typed db"
  shows "t_wf (db_delegations db)" "t_all (row_typed db) (db_delegations db)" "t_wf (db_expirations db)" "t_all (expiration_typed db) (db_expirations db)"
  using assms by (simp_all add: delegations_typed_def)

lemma typed_resized: "delegations_typed db \<Longrightarrow> symbol shares = VESTS_SYMBOL \<Longrightarrow> delegations_typed (resized k shares db)"
  unfolding resized_def
  by (rule typed_delegations) (auto simp: t_wf_modify t_wf_remove typed_tables row_typed_def
      intro!: t_all_remove t_all_modify [where P = "row_typed db"])

lemma typed_expiration:
  assumes "delegations_typed db" "symbol x = VESTS_SYMBOL" "0 \<le> amount x" "t_get n (db_accounts db) \<noteq> None"
  shows "delegations_typed (create_expiration n x d db)"
proof -
  have "t_get (db_next_expiration db) (db_expirations db) = None"
  proof (rule ccontr)
    assume "t_get (db_next_expiration db) (db_expirations db) \<noteq> None"
    then obtain e where "t_get (db_next_expiration db) (db_expirations db) = Some e" by blast
    then have "expiration_typed db (db_next_expiration db) e" using assms(1) by (auto simp: delegations_typed_def dest: t_all_get)
    then show False by (simp add: expiration_typed_def)
  qed
  moreover have "t_all (expiration_typed (db\<lparr>db_next_expiration := Suc (db_next_expiration db)\<rparr>)) (db_expirations db)"
    using typed_tables(4) [OF assms(1)] by (auto simp: t_all_def expiration_typed_def)
  ultimately show ?thesis unfolding create_expiration_def using assms(2-4)
    by (intro typed_expirations assms(1)) (simp_all add: t_wf_create typed_tables [OF assms(1)] expiration_typed_def names_iff)
qed

lemma typed_counter:
  assumes "delegations_typed db" "modify_account m f db = Inr db'" "f = delegate_vs x e \<or> f = receive_vs x e"
  shows "symbol x = VESTS_SYMBOL"
proof -
  obtain a a' where "t_get m (db_accounts db) = Some a" "f a = Inr a'" using assms(2) by auto
  moreover from this have "wf_account m a" using assms(1) by (auto simp: delegations_typed_def wf_db_def dest: t_all_get)
  ultimately show ?thesis using assms(3) by (auto simp: delegate_vs_def receive_vs_def wf_account_def split: if_splits)
qed

lemma delegate_typed:
  assumes "delegate_vesting_shares n m shares em0 create_vdo validate db = Inr db'" "delegations_typed db"
    and c: "create_vdo (new_delegation n m shares db) = (new_delegation n m shares db)\<lparr>vdo_interest_rate := r, vdo_payout_strategy := s, vdo_is_emission := em0\<rparr>"
  shows "delegations_typed db'"
  using assms(1)
proof (cases rule: delegate_vesting_shares_cases)
  case (create db1)
  have "symbol shares = VESTS_SYMBOL"
  proof -
    obtain a a' where "t_get n (db_accounts db) = Some a" "delegate_vs shares em0 a = Inr a'" using create(3) by auto
    then have "modify_account n (delegate_vs shares em0) db = Inr (db\<lparr>db_accounts := t_modify n (\<lambda>_. a') (db_accounts db)\<rparr>)" by auto
    then show ?thesis using typed_counter [OF assms(2)] by blast
  qed
  moreover have "n \<in> fst ` set (db_accounts db)" "m \<in> fst ` set (db_accounts db)"
    using create(3,4) by (auto simp: names_iff tbl.get_modify split: if_splits)
  ultimately have "row_typed db (n, m) (create_vdo (new_delegation n m shares db))"
    using create(2) unfolding c by (simp add: row_typed_def new_delegation_def)
  then have "delegations_typed (db\<lparr>db_delegations := t_create (n, m) (create_vdo (new_delegation n m shares db)) (db_delegations db)\<rparr>)"
    using create(1) typed_tables [OF assms(2)] by (intro typed_delegations assms(2)) (simp_all add: t_wf_create)
  then show ?thesis
    using typed_delegate [OF create(3)] typed_receive [OF create(4)] by blast
next
  case (increase d delta db1 db2)
  have d: "symbol (vdo_vesting_shares d) = VESTS_SYMBOL"
    using assms(2) increase(1) by (auto simp: delegations_typed_def row_typed_def dest: t_all_get)
  show ?thesis unfolding increase(5) using typed_receive [OF increase(4) typed_delegate [OF increase(3) assms(2)]]
    by (rule typed_resized) (use increase(2) d in simp)
next
  case (decrease d delta y db2)
  have d: "symbol (vdo_vesting_shares d) = VESTS_SYMBOL"
    using assms(2) decrease(1) by (auto simp: delegations_typed_def row_typed_def dest: t_all_get)
  then have "delegations_typed (create_expiration n y d db)"
    using decrease(2,3,4,5) by (intro typed_expiration [OF assms(2)]) auto
  from typed_receive [OF decrease(6) this] show ?thesis
    unfolding decrease(7) by (rule typed_resized) (use decrease(2) d in simp)
qed

lemma reject_cases:
  assumes "reject_vesting_shares_delegation_apply o1 db = Inr db'"
  obtains d y db1 where "t_get (rvd_delegator o1, rvd_delegatee o1) (db_delegations db) = Some d" "asset_neg (vdo_vesting_shares d) = Inr y"
    "modify_account (rvd_delegatee o1) (receive_vs y (vdo_payout_strategy d \<noteq> to_delegator)) db = Inr db1"
    "db' = (create_expiration (rvd_delegator o1) (vdo_vesting_shares d) d db1)
       \<lparr>db_delegations := t_remove (rvd_delegator o1, rvd_delegatee o1) (db_delegations db)\<rparr>"
proof -
  obtain d y db1 where 1: "t_get (rvd_delegator o1, rvd_delegatee o1) (db_delegations db) = Some d" "asset_neg (vdo_vesting_shares d) = Inr y"
    "modify_account (rvd_delegatee o1) (receive_vs y (vdo_payout_strategy d \<noteq> to_delegator)) db = Inr db1"
    and 2: "db' = (create_expiration (rvd_delegator o1) (vdo_vesting_shares d) d db1)
       \<lparr>db_delegations := t_remove (rvd_delegator o1, rvd_delegatee o1)
          (db_delegations (create_expiration (rvd_delegator o1) (vdo_vesting_shares d) d db1))\<rparr>"
    using assms by (auto simp: reject_vesting_shares_delegation_apply_def Let_def simp del: modify_account_Inr asset_neg_Inr split: option.splits)
  have "db_delegations (create_expiration (rvd_delegator o1) (vdo_vesting_shares d) d db1) = db_delegations db"
    using delegations_untouched [OF 1(3)] by (simp add: create_expiration_def)
  with that 1 2 show ?thesis by simp
qed

lemma reject_typed:
  assumes "reject_vesting_shares_delegation_apply o1 db = Inr db'" "delegations_typed db"
  shows "delegations_typed db'"
proof (rule reject_cases [OF assms(1)])
  fix d y db1
  assume d: "t_get (rvd_delegator o1, rvd_delegatee o1) (db_delegations db) = Some d"
    and m: "modify_account (rvd_delegatee o1) (receive_vs y (vdo_payout_strategy d \<noteq> to_delegator)) db = Inr db1"
    and db': "db' = (create_expiration (rvd_delegator o1) (vdo_vesting_shares d) d db1)
       \<lparr>db_delegations := t_remove (rvd_delegator o1, rvd_delegatee o1) (db_delegations db)\<rparr>"
  have r: "row_typed db (rvd_delegator o1, rvd_delegatee o1) d" using assms(2) d by (auto simp: delegations_typed_def dest: t_all_get)
  then have "t_get (rvd_delegator o1) (db_accounts db1) \<noteq> None" using m by (auto simp: row_typed_def names_iff tbl.get_modify)
  then have "delegations_typed (create_expiration (rvd_delegator o1) (vdo_vesting_shares d) d db1)"
    using r by (intro typed_expiration typed_receive [OF m assms(2)]) (auto simp: row_typed_def)
  note t = this
  have "t_all (row_typed (create_expiration (rvd_delegator o1) (vdo_vesting_shares d) d db1)) (db_delegations db)"
    using typed_tables(2) [OF t] delegations_untouched [OF m] by (simp add: create_expiration_def)
  then show ?thesis unfolding db' by (intro typed_delegations t t_wf_remove t_all_remove typed_tables(1) [OF assms(2)])
qed

section \<open>The operations and the maintenance loop\<close>

datatype delegation_step =
    Delegate delegate_vesting_shares_operation
  | Delegate_With_Interest delegate_vesting_shares_with_interest_operation
  | Reject_Delegation reject_vesting_shares_delegation_operation
  | Clear_Expired

text \<open>An operation is validated before it is applied.\<close>

fun run_delegation :: "delegation_step \<Rightarrow> database \<Rightarrow> database result" where
  "run_delegation (Delegate o1) db = rbind (delegate_vesting_shares_validate o1) (\<lambda>_. delegate_vesting_shares_apply o1 db)"
| "run_delegation (Delegate_With_Interest o1) db =
     rbind (delegate_vesting_shares_with_interest_validate o1) (\<lambda>_. delegate_vesting_shares_with_interest_apply o1 db)"
| "run_delegation (Reject_Delegation o1) db =
     rbind (reject_vesting_shares_delegation_validate o1) (\<lambda>_. reject_vesting_shares_delegation_apply o1 db)"
| "run_delegation Clear_Expired db = clear_expired_delegations db"

text \<open>A rejected delegation whose two flags agree.\<close>

definition flags_agree :: "delegation_step \<Rightarrow> database \<Rightarrow> bool" where
  "flags_agree s db \<longleftrightarrow> (case s of Reject_Delegation o1 \<Rightarrow>
     (case t_get (rvd_delegator o1, rvd_delegatee o1) (db_delegations db) of None \<Rightarrow> True
      | Some d \<Rightarrow> vdo_is_emission d = (vdo_payout_strategy d \<noteq> to_delegator)) | _ \<Rightarrow> True)"

lemma plain_delegate:
  assumes "delegate_vesting_shares_apply o1 db = Inr db'" "delegations_typed db"
  shows "delegations_typed db'"
    and "0 \<le> amount (dvs_vesting_shares o1) \<Longrightarrow> imbalance own em p db' = imbalance own em p db"
proof -
  have c: "id (new_delegation n m x db) = (new_delegation n m x db)\<lparr>vdo_interest_rate := 0, vdo_payout_strategy := to_delegator, vdo_is_emission := False\<rparr>"
    for n m x by (simp add: new_delegation_def)
  note a = assms(1) [unfolded delegate_vesting_shares_apply_def]
  show "delegations_typed db'" by (rule delegate_typed [OF a assms(2) c])
  show "imbalance own em p db' = imbalance own em p db" if "0 \<le> amount (dvs_vesting_shares o1)"
    by (rule delegate_balanced [OF a assms(2) that c])
qed

lemma interest_delegate:
  assumes "delegate_vesting_shares_with_interest_apply o1 db = Inr db'" "delegations_typed db"
  shows "delegations_typed db'"
    and "0 \<le> amount (dvi_vesting_shares o1) \<Longrightarrow> imbalance own em p db' = imbalance own em p db"
proof -
  obtain v where a: "delegate_vesting_shares (dvi_delegator o1) (dvi_delegatee o1) (dvi_vesting_shares o1) (dvi_extensions o1 \<noteq> [])
     (\<lambda>d. d\<lparr>vdo_interest_rate := unat (dvi_interest_rate o1), vdo_payout_strategy := dvi_payout_strategy o1,
        vdo_is_emission := (dvi_extensions o1 \<noteq> [])\<rparr>) v db = Inr db'"
    using assms(1) unfolding delegate_vesting_shares_with_interest_apply_def Let_def rbind_Inr by blast
  show "delegations_typed db'" by (rule delegate_typed [OF a assms(2) refl])
  show "imbalance own em p db' = imbalance own em p db" if "0 \<le> amount (dvi_vesting_shares o1)"
    by (rule delegate_balanced [OF a assms(2) that refl])
qed

lemma reject_balance:
  assumes "reject_vesting_shares_delegation_apply o1 db = Inr db'" "delegations_typed db"
    and d: "t_get (rvd_delegator o1, rvd_delegatee o1) (db_delegations db) = Some d"
  shows "imbalance own em p db' = imbalance own em p db
    + (if \<not> own \<and> p = rvd_delegatee o1 then amount (vdo_vesting_shares d)
        * ((if vdo_is_emission d = em then 1 else 0) - (if (vdo_payout_strategy d \<noteq> to_delegator) = em then 1 else 0)) else 0)"
proof (rule reject_cases [OF assms(1)])
  fix d' y db1
  assume d': "t_get (rvd_delegator o1, rvd_delegatee o1) (db_delegations db) = Some d'" and y: "asset_neg (vdo_vesting_shares d') = Inr y"
    and m: "modify_account (rvd_delegatee o1) (receive_vs y (vdo_payout_strategy d' \<noteq> to_delegator)) db = Inr db1"
    and db': "db' = (create_expiration (rvd_delegator o1) (vdo_vesting_shares d') d' db1)
       \<lparr>db_delegations := t_remove (rvd_delegator o1, rvd_delegatee o1) (db_delegations db)\<rparr>"
  have "d' = d" using d d' by simp
  moreover have "row_typed db (rvd_delegator o1, rvd_delegatee o1) d" using assms(2) d by (auto simp: delegations_typed_def dest: t_all_get)
  moreover have "db_delegations (create_expiration (rvd_delegator o1) (vdo_vesting_shares d) d db1) = db_delegations db"
    using delegations_untouched [OF m] by (simp add: create_expiration_def)
  ultimately show ?thesis
    using y typed_tables(1) [OF assms(2)] d unfolding db' imbalance_delegations imbalance_expiration imbalance_receive [OF m]
    by (auto simp: tbl.total_remove row_weight_def row_typed_def)
qed

lemma return_step:
  assumes "return_delegation x db = Inr db'" "delegations_typed db" "t_get k (expirations_tab db) = Some x"
  shows "delegations_typed db' \<and> (\<forall>own em p. imbalance own em p db' = imbalance own em p db)
    \<and> expirations_tab db' = t_remove k (expirations_tab db) \<and> expiration_due db' = expiration_due db"
proof -
  obtain i e where x: "x = (i, e)" by (cases x)
  have "(k, x) \<in> set (expirations_tab db)" using assms(3) by (auto simp: t_get_def dest: map_of_SomeD)
  then have k: "k = i" and mem: "(i, e) \<in> set (db_expirations db)" by (auto simp: expirations_tab_def x)
  then have get: "t_get i (db_expirations db) = Some e" using typed_tables(3) [OF assms(2)] by (simp add: t_get_def t_wf_def)
  obtain y db1 where y: "asset_neg (vde_vesting_shares e) = Inr y" and m: "modify_account (vde_delegator e) (delegate_vs y (vde_is_emission e)) db = Inr db1"
    and db': "db' = (push_log (Return_Vesting_Delegation_Op (vde_delegator e) (vde_vesting_shares e)) db1)
       \<lparr>db_expirations := t_remove i (db_expirations db1)\<rparr>"
    using assms(1) by (auto simp: return_delegation_def x simp del: modify_account_Inr asset_neg_Inr)
  note u = delegations_untouched [OF m]
  have t1: "delegations_typed db1" by (rule typed_delegate [OF m assms(2)])
  have "t_all (expiration_typed (db1\<lparr>db_next_expiration := db_next_expiration db1\<rparr>)) (t_remove i (db_expirations db1))"
    using typed_tables(4) [OF t1] by (simp add: t_all_remove)
  then have "delegations_typed (db1\<lparr>db_expirations := t_remove i (db_expirations db1), db_next_expiration := db_next_expiration db1\<rparr>)"
    by (intro typed_expirations t1 t_wf_remove typed_tables(3) [OF t1])
  then have "delegations_typed db'"
    by (simp add: db' push_log_def delegations_typed_def row_typed_def [abs_def] expiration_typed_def [abs_def] wf_db_def)
  moreover have "imbalance own em p db' = imbalance own em p db1
      + (if own \<and> vde_is_emission e = em \<and> p = vde_delegator e then amount (vde_vesting_shares e) else 0)" for own em p
    using get u typed_tables(3) [OF assms(2)]
    by (auto simp: db' imbalance_def counted_def push_log_def tbl.total_remove expiring_weight_def)
  then have "imbalance own em p db' = imbalance own em p db" for own em p
    using y unfolding imbalance_delegate [OF m] by auto
  moreover have "expirations_tab db' = t_remove k (expirations_tab db)"
    using u by (auto simp: db' expirations_tab_def push_log_def t_remove_def k filter_map comp_def case_prod_unfold)
  moreover have "expiration_due db' = expiration_due db" using m by (auto simp: db' expiration_due_def [abs_def] push_log_def)
  ultimately show ?thesis by simp
qed

text \<open>A row that is due can always be given back: the counter is at least as large as the row.\<close>

lemma return_live:
  assumes "delegations_typed db" "delegations_balanced db" "t_get k (expirations_tab db) = Some x"
  shows "\<exists>db'. return_delegation x db = Inr db'"
proof -
  obtain i e where x: "x = (i, e)" by (cases x)
  let ?n = "vde_delegator e" and ?em = "vde_is_emission e"
  have "(k, x) \<in> set (expirations_tab db)" using assms(3) by (auto simp: t_get_def dest: map_of_SomeD)
  then have mem: "(i, e) \<in> set (db_expirations db)" by (auto simp: expirations_tab_def x)
  then have get: "t_get i (db_expirations db) = Some e" using typed_tables(3) [OF assms(1)] by (simp add: t_get_def t_wf_def)
  have e: "symbol (vde_vesting_shares e) = VESTS_SYMBOL" "0 \<le> amount (vde_vesting_shares e)" "?n \<in> fst ` set (db_accounts db)"
    using typed_tables(4) [OF assms(1)] mem by (auto simp: t_all_def expiration_typed_def)
  obtain a where a: "t_get ?n (db_accounts db) = Some a" using e(3) by (auto simp: names_iff)
  have w: "wf_account ?n a" "counters_fit ?n a"
    using assms(1) a by (auto simp: delegations_typed_def wf_db_def dest: t_all_get)
  have "0 \<le> row_weight True ?em ?n d" if "d \<in> t_rows (db_delegations db)" for d
    using typed_tables(2) [OF assms(1)] that by (force simp: t_all_def t_rows_def row_weight_def row_typed_def)
  then have "0 \<le> t_total (row_weight True ?em ?n) (db_delegations db)" by (rule tbl.total_nonneg)
  moreover have "0 \<le> expiring_weight True ?em ?n d" if "d \<in> t_rows (db_expirations db)" for d
    using typed_tables(4) [OF assms(1)] that by (force simp: t_all_def t_rows_def expiring_weight_def expiration_typed_def)
  then have "expiring_weight True ?em ?n e \<le> t_total (expiring_weight True ?em ?n) (db_expirations db)"
    by (intro tbl.row_le_total [OF typed_tables(3) [OF assms(1)] get]) auto
  moreover have "imbalance True ?em ?n db = 0" using assms(2) by (simp add: delegations_balanced_def)
  ultimately have le: "amount (vde_vesting_shares e) \<le> counter True ?em a"
    by (simp add: imbalance_def counted_def a expiring_weight_def)
  moreover have "int64_ok (counter True ?em a)" using w(2) by (simp add: counters_fit_def)
  ultimately have "int64_ok (- amount (vde_vesting_shares e))" "int64_ok (counter True ?em a - amount (vde_vesting_shares e))"
    using e(2) by (auto simp: int64_ok_def)
  then have "\<exists>y a'. asset_neg (vde_vesting_shares e) = Inr y \<and> delegate_vs y ?em a = Inr a'"
    using w(1) e(1) by (auto simp: delegate_vs_def counter_def wf_account_def)
  then show ?thesis using a by (auto simp: return_delegation_def x simp del: asset_neg_Inr)
qed

interpretation expirations: live_due_loop expirations_tab expiration_before expiration_due return_delegation
  "\<lambda>db. delegations_typed db \<and> delegations_balanced db"
proof unfold_locales
  fix db :: database and k x db'
  assume i: "delegations_typed db \<and> delegations_balanced db" and g: "t_get k (expirations_tab db) = Some x"
  then show "\<exists>db'. return_delegation x db = Inr db'" using return_live by blast
  assume "return_delegation x db = Inr db'"
  then show "(delegations_typed db' \<and> delegations_balanced db') \<and> expirations_tab db' = t_remove k (expirations_tab db)
      \<and> expiration_due db' = expiration_due db"
    using return_step i g by (simp add: delegations_balanced_def)
next
  fix db :: database
  assume "delegations_typed db \<and> delegations_balanced db"
  then show "t_wf (expirations_tab db)"
    using typed_tables(3) by (auto simp: expirations_tab_def t_wf_def comp_def case_prod_unfold)
qed (auto simp: expiration_before_def expiration_due_def)

interpretation typed_expirations: due_loop expirations_tab expiration_before expiration_due return_delegation delegations_typed
proof unfold_locales
  fix db :: database and k x db'
  assume i: "delegations_typed db" and g: "t_get k (expirations_tab db) = Some x" and "return_delegation x db = Inr db'"
  then show "delegations_typed db' \<and> expirations_tab db' = t_remove k (expirations_tab db) \<and> expiration_due db' = expiration_due db"
    using return_step by simp
next
  fix db :: database
  assume "delegations_typed db"
  then show "t_wf (expirations_tab db)"
    using typed_tables(3) by (auto simp: expirations_tab_def t_wf_def comp_def case_prod_unfold)
qed (auto simp: expiration_before_def expiration_due_def)

lemma tab_length: "length (expirations_tab db) = length (db_expirations db)"
  by (simp add: expirations_tab_def)

lemma break_free_conserves:
  assumes "break_free_referral_apply o1 db = Inr db'" "wf_db db"
  shows "conserves db db'"
proof -
  let ?f = "\<lambda>a. Inr (a\<lparr>acc_referrer_account := [], acc_referrer_interest_rate := 0,
          acc_referral_end_date := 0, acc_referral_break_fee := mk_asset 0 (symbol (acc_referral_break_fee a))\<rparr>) :: account_object result"
  obtain a :: account_object and y db1 db2 where y: "asset_neg (acc_referral_break_fee a) = Inr y" and 1: "adjust_balance (bfr_referral o1) y db = Inr db1"
    and 2: "adjust_balance (acc_referrer_account a) (acc_referral_break_fee a) db1 = Inr db2"
    and 3: "modify_account (bfr_referral o1) ?f db2 = Inr db'"
    using assms(1) unfolding break_free_referral_apply_def rbind_Inr by blast
  note L1 = main.debit_gap [OF y 1 assms(2)]
  then have w2: "wf_db db2" using adjust_balance_ledger [OF 2] by blast
  have c: "conserves db2 db'"
    by (rule unpaid_modify [OF 3 w2]) (auto simp: wf_account_def acct_held_def)
  have "gap s db2 = gap s db" for s using L1 adjust_balance_ledger [OF 2] by simp
  then show ?thesis using c by (simp add: conserves_def)
qed

text \<open>C38. Typing: every operation on delegations, and the maintenance loop, keeps the state typed. Each
  delegation is stored under the names it carries, both accounts exist, its amount is a positive
  number of vesting shares, each expiration has a used id and an existing owner, and the counters of
  every account fit into 64 bits.\<close>

theorem delegations_keep_types:
  assumes "run_delegation s db = Inr db'" "delegations_typed db"
  shows "delegations_typed db'"
proof (cases s)
  case (Delegate o1)
  then show ?thesis using plain_delegate(1) assms by auto
next
  case (Delegate_With_Interest o1)
  then show ?thesis using interest_delegate(1) assms by auto
next
  case (Reject_Delegation o1)
  then show ?thesis using reject_typed assms by auto
next
  case Clear_Expired
  then show ?thesis using assms typed_expirations.process_due_all [of _ db db'] tab_length
    by (simp add: clear_expired_delegations_def)
qed


text \<open>C40. The maintenance of a block never fails on a delegation: from a typed, balanced state the loop
  always runs to the end, gives back exactly the shares whose time has passed and keeps the rest.\<close>

theorem expired_delegations_return:
  assumes "delegations_typed db" "delegations_balanced db"
  shows "\<exists>db'. clear_expired_delegations db = Inr db' \<and> delegations_balanced db'
    \<and> (\<forall>i e. (i, e) \<in> set (db_expirations db') \<longleftrightarrow> (i, e) \<in> set (db_expirations db) \<and> head_block_time db \<le> vde_expiration e)"
proof -
  obtain db' where db': "clear_expired_delegations db = Inr db'"
    using expirations.process_due_live assms unfolding clear_expired_delegations_def by blast
  then have "(delegations_typed db' \<and> delegations_balanced db')
    \<and> expirations_tab db' = filter (\<lambda>r. \<not> expiration_due db (snd r)) (expirations_tab db)"
    using expirations.process_due_all [of _ db db'] assms tab_length by (simp add: clear_expired_delegations_def)
  moreover have "(i, e) \<in> set (db_expirations d) \<longleftrightarrow> (i, i, e) \<in> set (expirations_tab d)" for i e d
    by (auto simp: expirations_tab_def)
  ultimately show ?thesis using db' by (auto simp: expiration_due_def)
qed

text \<open>Where the code breaks the rules: a rejection with flags that differ moves the wrong counter, and
  taking back nothing where nothing was delegated reads through a null pointer since hardfork 28.\<close>

lemma mixed_rejection_unbalances:
  assumes "reject_vesting_shares_delegation_apply o1 db = Inr db'" "delegations_typed db" "delegations_balanced db"
    and d: "t_get (rvd_delegator o1, rvd_delegatee o1) (db_delegations db) = Some d"
    and "vdo_is_emission d \<noteq> (vdo_payout_strategy d \<noteq> to_delegator)"
  shows "\<not> delegations_balanced db'"
proof -
  have "0 < amount (vdo_vesting_shares d)" using assms(2) d by (auto simp: delegations_typed_def row_typed_def dest: t_all_get)
  then have "imbalance False (vdo_is_emission d) (rvd_delegatee o1) db' \<noteq> 0"
    using reject_balance [OF assms(1,2) d, of False "vdo_is_emission d" "rvd_delegatee o1"] assms(3,5)
    by (auto simp: delegations_balanced_def)
  then show ?thesis unfolding delegations_balanced_def by blast
qed

lemma empty_delegation_crashes:
  assumes "has_hardfork 28 db" "amount (dvs_vesting_shares o1) = 0"
    and "t_get (dvs_delegator o1, dvs_delegatee o1) (db_delegations db) = None"
    and "get_account (dvs_delegator o1) db = Inr a" "get_account (dvs_delegatee o1) db = Inr b"
    and "asset_mul_price (min_delegation (db_median_props db)) (get_vesting_share_price (db_dgp db)) = Inr x"
    and "asset_mul_price (create_account_min_golos_fee (db_median_props db)) (get_vesting_share_price (db_dgp db)) = Inr y"
  shows "delegate_vesting_shares_apply o1 db = Inl Undefined_Behaviour"
  using assms
  by (simp add: delegate_vesting_shares_apply_def delegate_vesting_shares_def Let_def check_difference_def decrease_delegation_def
      check_param_def asset_neg_def int64_ok_def del: rbind_Inr get_account_Inr)

section \<open>A small example\<close>

definition demo_lent :: database where
  "demo_lent = demo_payout\<lparr>
     db_median_props := new_chain_properties\<lparr>min_delegation := mk_asset 10 STEEM_SYMBOL, create_account_min_golos_fee := mk_asset 10 STEEM_SYMBOL\<rparr>,
     db_accounts := t_modify ''alice'' (\<lambda>a. a\<lparr>acc_delegated_vesting_shares := mk_asset 70 VESTS_SYMBOL\<rparr>) (db_accounts demo_payout),
     db_expirations := [(3, \<lparr>vde_delegator = ''alice'', vde_vesting_shares = mk_asset 50 VESTS_SYMBOL, vde_expiration = 999999, vde_is_emission = False\<rparr>),
       (4, \<lparr>vde_delegator = ''alice'', vde_vesting_shares = mk_asset 20 VESTS_SYMBOL, vde_expiration = 1000000, vde_is_emission = False\<rparr>)],
     db_next_expiration := 5\<rparr>"

definition demo_delegate :: delegate_vesting_shares_operation where
  "demo_delegate = \<lparr>dvs_delegator = ''bob'', dvs_delegatee = ''alice'', dvs_vesting_shares = mk_asset 40 VESTS_SYMBOL\<rparr>"

lemmas lent_defs = demo_lent_def demo_payout_def poll_defs

lemma demo_lent_typed: "delegations_typed demo_lent"
proof -
  have "wf_db demo_lent"
    by (simp add: lent_defs t_modify_def wf_db_def wf_account_def wf_dgp_def t_wf_def t_all_def replicate4 STEEMIT_MAX_PROXY_RECURSION_DEPTH_def)
  moreover have "t_all counters_fit (db_accounts demo_lent)"
    by (simp add: lent_defs t_modify_def t_all_def counters_fit_def counter_def int64_ok_def)
  ultimately show ?thesis
    by (simp add: delegations_typed_def) (simp add: lent_defs t_modify_def t_wf_def t_all_def expiration_typed_def)
qed

lemma demo_lent_balanced: "delegations_balanced demo_lent"
  by (auto simp: delegations_balanced_def imbalance_def counted_def lent_defs t_modify_def t_get_def t_total_def expiring_weight_def counter_def)

lemma demo_delegate_valid: "delegate_vesting_shares_validate demo_delegate = Inr ()"
  by code_simp

lemma demo_delegate_runs: "\<exists>db'. run_delegation (Delegate demo_delegate) demo_lent = Inr db' \<and> map fst (db_delegations db') = [(''bob'', ''alice'')]"
proof -
  have p: "asset_mul_price (mk_asset 10 STEEM_SYMBOL) (get_vesting_share_price (db_dgp demo_lent)) = Inr (mk_asset 5 VESTS_SYMBOL)"
    by (simp add: lent_defs get_vesting_share_price_def asset_mul_price_def mul_div_u128_def u128_amount_def to_int64_def)
  have g: "get_account ''bob'' demo_lent = Inr ((demo_account ''bob'')\<lparr>acc_vesting_shares := mk_asset 400 VESTS_SYMBOL\<rparr>)"
    "\<exists>a. get_account ''alice'' demo_lent = Inr a \<and> acc_received_vesting_shares a = mk_asset 0 VESTS_SYMBOL"
    by (simp_all add: demo_lent_def demo_payout_def t_get_def t_modify_def get_account_def demo_account_def new_account_object_def)
  let ?k = "(''bob'', ''alice'')" and ?d = "new_delegation ''bob'' ''alice'' (mk_asset 40 VESTS_SYMBOL) demo_lent"
  have n: "db_delegations demo_lent = []" "dgp_time (db_dgp demo_lent) = 1000000" "db_hardfork demo_lent = 30" "db_median_props demo_lent = new_chain_properties\<lparr>
     min_delegation := mk_asset 10 STEEM_SYMBOL, create_account_min_golos_fee := mk_asset 10 STEEM_SYMBOL\<rparr>"
    by (simp_all add: lent_defs)
  have l: "check_delegation_limit ''bob'' (mk_asset 40 VESTS_SYMBOL) demo_lent = Inr ()"
    apply (simp add: check_delegation_limit_def g(1) check_balance_def get_balance_def available_vesting_shares_def
      demo_account_def new_account_object_def asset_sub_def asset_add_def int64_ok_def max_allowed_def current_power_def Let_def
      asset_lt_def asset_le_def asset_eq_def safe64_def mul_div_u128_def to_int64_def cdiv_def STEEMIT_100_PERCENT_def STEEMIT_VOTE_REGENERATION_SECONDS_def n
      del: rbind_Inr get_account_Inr)
    done
  obtain a where a: "get_account ''alice'' demo_lent = Inr a" "acc_received_vesting_shares a = mk_asset 0 VESTS_SYMBOL" using g(2) by blast
  let ?D = "demo_lent\<lparr>db_delegations := [(?k, ?d)]\<rparr>" and ?b = "(demo_account ''bob'')\<lparr>acc_vesting_shares := mk_asset 400 VESTS_SYMBOL,
    acc_delegated_vesting_shares := mk_asset 40 VESTS_SYMBOL\<rparr>"
  let ?D1 = "?D\<lparr>db_accounts := t_modify ''bob'' (\<lambda>_. ?b) (db_accounts demo_lent)\<rparr>"
  have m: "modify_account ''bob'' (delegate_vs (mk_asset 40 VESTS_SYMBOL) False) ?D = Inr ?D1"
    using g(1) by (simp add: delegate_vs_def demo_account_def new_account_object_def int64_ok_def)
  have "get_account ''alice'' ?D1 = Inr a" using a(1) by (simp add: tbl.get_modify)
  then have m2: "modify_account ''alice'' (receive_vs (mk_asset 40 VESTS_SYMBOL) False) ?D1
      = Inr (?D1\<lparr>db_accounts := t_modify ''alice'' (\<lambda>_. a\<lparr>acc_received_vesting_shares := mk_asset 40 VESTS_SYMBOL\<rparr>) (db_accounts ?D1)\<rparr>)"
    using a(2) by (simp add: modify_account_def receive_vs_def asset_add_def int64_ok_def del: rbind_Inr get_account_Inr)
  have c: "asset_ge (mk_asset 40 VESTS_SYMBOL) (mk_asset 5 VESTS_SYMBOL) = Inr True" by (simp add: asset_ge_def asset_lt_def)
  have "delegate_vesting_shares_apply demo_delegate demo_lent
      = Inr (?D1\<lparr>db_accounts := t_modify ''alice'' (\<lambda>_. a\<lparr>acc_received_vesting_shares := mk_asset 40 VESTS_SYMBOL\<rparr>) (db_accounts ?D1)\<rparr>)"
    by (simp add: delegate_vesting_shares_apply_def delegate_vesting_shares_def Let_def g(1) a(1) n p l c m m2
      check_difference_def increase_delegation_def t_get_def t_create_def demo_delegate_def
      del: rbind_Inr get_account_Inr modify_account_Inr)
  then show ?thesis by (simp add: demo_delegate_valid)
qed

theorem delegations_keep_types_witness:
  "\<exists>db'. run_delegation (Delegate demo_delegate) demo_lent = Inr db' \<and> delegations_typed db'"
  using demo_delegate_runs delegations_keep_types [OF _ demo_lent_typed] by blast


theorem expired_delegations_return_witness:
  "\<exists>db'. clear_expired_delegations demo_lent = Inr db' \<and> delegations_balanced db' \<and> fst ` set (db_expirations db') = {4}"
proof -
  obtain db' where 1: "clear_expired_delegations demo_lent = Inr db'" "delegations_balanced db'"
    and 2: "\<forall>i e. (i, e) \<in> set (db_expirations db') \<longleftrightarrow> (i, e) \<in> set (db_expirations demo_lent) \<and> head_block_time demo_lent \<le> vde_expiration e"
    using expired_delegations_return [OF demo_lent_typed demo_lent_balanced] by blast
  have "set (db_expirations db') = {r \<in> set (db_expirations demo_lent). head_block_time demo_lent \<le> vde_expiration (snd r)}"
    using 2 by auto
  moreover have "fst ` {r \<in> set (db_expirations demo_lent). head_block_time demo_lent \<le> vde_expiration (snd r)} = {4}"
    by (simp add: lent_defs set_eq_iff image_iff conj_disj_distribR ex_disj_distrib)
  ultimately show ?thesis using 1 by auto
qed

end
