(* ===== verification/Sign_State.thy ===== *)
theory Sign_State
  imports Authority
begin

text \<open>
  Signature checking: \<^verbatim>\<open>libraries/protocol/sign_state.cpp\<close> and \<open>verify_authority\<close> of
  \<^verbatim>\<open>transaction.cpp\<close>. The state records which provided signatures were used and which accounts
  count as approved; the weights of an authority are added in a 32-bit counter. The recursion
  through accounts is bounded by \<open>max_recursion\<close>, so the model recurses on the number of levels
  left and needs no other fuel.

  The specification is \<open>endorsed K P get\<close>, the least set of accounts that contains the approvals
  \<open>P\<close> and every account whose authority is met by the keys \<open>K\<close> and endorsed accounts, and its
  bounded version \<open>endorsed_within\<close>. The code accepts everything that is endorsed within the
  recursion limit and nothing that is not endorsed (an account approved once stays approved, so
  what it accepts can exceed the limit but never the set of endorsed accounts).
\<close>

section \<open>The state and its operations\<close>


record sign_state =
  ss_provided :: "(public_key \<times> bool) list"
  ss_unused :: "public_key list"
  ss_used :: "public_key list"
  ss_approved_by :: "(account_name \<times> bool) list"
  ss_unused_approvals :: "account_name list"

text \<open>
  \<open>get_active\<close> is the authority getter the state was built with and \<open>avail\<close> the available keys; both
  are constant for the life of a state.
\<close>

definition signed_by :: "public_key list \<Rightarrow> public_key \<Rightarrow> sign_state \<Rightarrow> bool \<times> sign_state" where
  "signed_by avail k s = (case t_get k (ss_provided s) of
     None \<Rightarrow> if k \<in> set avail then (True, s\<lparr>ss_provided := flat_map_set k True (ss_provided s)\<rparr>)
             else (False, s)
   | Some _ \<Rightarrow> (True, s\<lparr>ss_provided := t_modify k (\<lambda>_. True) (ss_provided s)\<rparr>))"

fun check_keys :: "public_key list \<Rightarrow> 32 word \<Rightarrow> (public_key \<times> 16 word) list \<Rightarrow> 32 word \<Rightarrow> sign_state
    \<Rightarrow> bool \<times> 32 word \<times> sign_state" where
  "check_keys avail thr [] tot s = (False, tot, s)"
| "check_keys avail thr ((k, w) # ks) tot s =
    (let (sgn, s') = signed_by avail k s in
     if sgn then
       let tot' = tot + ucast w in
       if thr \<le> tot' then (True, tot', s') else check_keys avail thr ks tot' s'
     else check_keys avail thr ks tot s')"

fun check_accounts :: "(authority_data \<Rightarrow> sign_state \<Rightarrow> bool \<times> sign_state) option
    \<Rightarrow> (account_name \<Rightarrow> authority_data) \<Rightarrow> 32 word \<Rightarrow> (account_name \<times> 16 word) list \<Rightarrow> 32 word
    \<Rightarrow> sign_state \<Rightarrow> bool \<times> 32 word \<times> sign_state" where
  "check_accounts deeper get_active thr [] tot s = (False, tot, s)"
| "check_accounts deeper get_active thr ((a, w) # as) tot s =
    (if t_get a (ss_approved_by s) = None then
       (case deeper of
          None \<Rightarrow> check_accounts deeper get_active thr as tot s
        | Some chk \<Rightarrow>
            let (ok, s') = chk (get_active a) s in
            if ok then
              let s'' = s'\<lparr>ss_approved_by := flat_map_set a True (ss_approved_by s')\<rparr>;
                  tot' = tot + ucast w in
              if thr \<le> tot' then (True, tot', s'')
              else check_accounts deeper get_active thr as tot' s''
            else check_accounts deeper get_active thr as tot s')
     else
       let tot' = tot + ucast w in
       if thr \<le> tot' then (True, tot', s) else check_accounts deeper get_active thr as tot' s)"

definition check_authority_with :: "(authority_data \<Rightarrow> sign_state \<Rightarrow> bool \<times> sign_state) option
    \<Rightarrow> (account_name \<Rightarrow> authority_data) \<Rightarrow> public_key list \<Rightarrow> authority_data \<Rightarrow> sign_state \<Rightarrow> bool \<times> sign_state" where
  "check_authority_with deeper get_active avail auth s =
    (let (done1, tot, s1) = check_keys avail (weight_threshold auth) (key_auths auth) 0 s in
     if done1 then (True, s1)
     else let (done2, tot', s2) =
            check_accounts deeper get_active (weight_threshold auth) (account_auths auth) tot s1 in
       if done2 then (True, s2) else (weight_threshold auth \<le> tot', s2))"

text \<open>The first argument is how many levels remain: \<open>max_recursion - depth\<close>.\<close>

primrec check_authority :: "nat \<Rightarrow> (account_name \<Rightarrow> authority_data) \<Rightarrow> public_key list
    \<Rightarrow> authority_data \<Rightarrow> sign_state \<Rightarrow> bool \<times> sign_state" where
  "check_authority 0 get_active avail = check_authority_with None get_active avail"
| "check_authority (Suc n) get_active avail =
     check_authority_with (Some (check_authority n get_active avail)) get_active avail"

definition check_authority_account :: "nat \<Rightarrow> (account_name \<Rightarrow> authority_data) \<Rightarrow> public_key list
    \<Rightarrow> account_name \<Rightarrow> sign_state \<Rightarrow> bool \<times> sign_state" where
  "check_authority_account depth get_active avail n s =
    (if t_get n (ss_approved_by s) \<noteq> None
     then (True, s\<lparr>ss_approved_by := t_modify n (\<lambda>_. True) (ss_approved_by s)\<rparr>)
     else check_authority depth get_active avail (get_active n) s)"

definition remove_unused_signatures :: "sign_state \<Rightarrow> bool \<times> sign_state" where
  "remove_unused_signatures s =
    (let unused = map fst (filter (\<lambda>(k, u). \<not> u) (ss_provided s));
         used = map fst (filter (\<lambda>(k, u). u) (ss_provided s))
     in (unused \<noteq> [], s\<lparr>ss_used := used, ss_unused := unused,
          ss_provided := foldl (\<lambda>m k. t_remove k m) (ss_provided s) unused\<rparr>))"

definition filter_unused_approvals :: "sign_state \<Rightarrow> bool \<times> sign_state" where
  "filter_unused_approvals s =
    (let unused = map fst (filter (\<lambda>(k, u). \<not> u) (ss_approved_by s))
     in (unused \<noteq> [], s\<lparr>ss_unused_approvals := unused\<rparr>))"

definition new_sign_state :: "public_key list \<Rightarrow> sign_state" where
  "new_sign_state sigs = \<lparr>ss_provided = foldl (\<lambda>m k. flat_map_set k False m) [] sigs,
     ss_unused = [], ss_used = [], ss_approved_by = [(''temp'', True)], ss_unused_approvals = []\<rparr>"

section \<open>Verification of a transaction\<close>

definition or_check :: "('s \<Rightarrow> bool \<times> 's) \<Rightarrow> ('s \<Rightarrow> bool \<times> 's) \<Rightarrow> 's \<Rightarrow> bool \<times> 's" where
  "or_check f g s = (let (ok, s') = f s in if ok then (True, s') else g s')"

fun check_each :: "('a \<Rightarrow> 's \<Rightarrow> bool \<times> 's) \<Rightarrow> 'a list \<Rightarrow> 's \<Rightarrow> 'a list \<times> 's" where
  "check_each chk [] s = ([], s)"
| "check_each chk (x # xs) s =
    (let (ok, s1) = chk x s; (missing, s2) = check_each chk xs s1
     in (if ok then missing else x # missing, s2))"

definition assert_unused_approvals :: "sign_state \<Rightarrow> unit result" where
  "assert_unused_approvals s =
    (let (unused, s1) = remove_unused_signatures s in
     rbind (check (\<not> unused) Tx_Irrelevant_Sig) (\<lambda>_.
     let (unused2, s2) = filter_unused_approvals s1 in check (\<not> unused2) Tx_Irrelevant_Approval))"

definition add_approvals :: "account_name list \<Rightarrow> sign_state \<Rightarrow> sign_state" where
  "add_approvals ids s = s\<lparr>ss_approved_by := foldl (\<lambda>m k. flat_map_set k False m) (ss_approved_by s) ids\<rparr>"

definition check_owner :: "nat \<Rightarrow> (account_name \<Rightarrow> authority_data) \<Rightarrow> (account_name \<Rightarrow> authority_data)
    \<Rightarrow> account_name list \<Rightarrow> account_name \<Rightarrow> sign_state \<Rightarrow> bool \<times> sign_state" where
  "check_owner depth get_active get_owner owner_approvals n s =
    (let (ok, s1) = (if n \<in> set owner_approvals then (True, s)
       else check_authority depth get_active [] (get_owner n) s)
     in if ok then (True, s1\<lparr>ss_approved_by := flat_map_set n True (ss_approved_by s1)\<rparr>) else (False, s1))"

text \<open>
  \<open>verify_authority\<close> on the accounts and authorities that the operations of the transaction
  require (\<open>operation_get_required_authorities\<close>, reflection code over the operation types).
\<close>

definition verify_authority :: "(account_name \<Rightarrow> authority_data) \<Rightarrow> (account_name \<Rightarrow> authority_data)
    \<Rightarrow> (account_name \<Rightarrow> authority_data) \<Rightarrow> nat \<Rightarrow> public_key list
    \<Rightarrow> account_name list \<Rightarrow> account_name list \<Rightarrow> account_name list \<Rightarrow> authority_data list
    \<Rightarrow> account_name list \<Rightarrow> account_name list \<Rightarrow> account_name list \<Rightarrow> unit result" where
  "verify_authority get_active get_owner get_posting depth sigs
     required_active required_owner required_posting other
     active_approvals owner_approvals posting_approvals =
    (if required_posting \<noteq> [] then
       rbind (check_logic ''tx_with_both_posting_active_ops''
         (required_active = [] \<and> required_owner = [] \<and> other = [])) (\<lambda>_.
       let (missing, s) = check_each
             (\<lambda>n. or_check (check_authority_account depth get_posting [] n)
                (or_check (check_authority depth get_posting [] (get_active n))
                   (check_authority depth get_posting [] (get_owner n))))
             required_posting (add_approvals posting_approvals (new_sign_state sigs))
       in rbind (check (missing = []) (Tx_Missing_Auth ''posting'')) (\<lambda>_. assert_unused_approvals s))
     else
       let s0 = add_approvals owner_approvals (add_approvals active_approvals (new_sign_state sigs));
           (missing_auths, s1) = check_each (check_authority depth get_active []) other s0
       in rbind (check (missing_auths = []) (Tx_Missing_Auth ''other'')) (\<lambda>_.
       let (missing, s2) = check_each
             (\<lambda>n. or_check (check_authority_account depth get_active [] n)
                (check_authority depth get_active [] (get_owner n))) required_active s1
       in rbind (check (missing = []) (Tx_Missing_Auth ''active'')) (\<lambda>_.
       let (missing, s3) = check_each (check_owner depth get_active get_owner owner_approvals)
             required_owner s2
       in rbind (check (missing = []) (Tx_Missing_Auth ''owner'')) (\<lambda>_. assert_unused_approvals s3))))"

section \<open>Specification\<close>

text \<open>The weight an authority collects from a set of keys and a set of accounts.\<close>

definition wsum :: "'a set \<Rightarrow> ('a \<times> 16 word) list \<Rightarrow> nat" where
  "wsum K ws = sum_list (map (\<lambda>(k, w). if k \<in> K then unat w else 0) ws)"

definition collected :: "public_key set \<Rightarrow> account_name set \<Rightarrow> authority_data \<Rightarrow> nat" where
  "collected K S auth = wsum K (key_auths auth) + wsum S (account_auths auth)"

text \<open>
  The weights of an authority add up below \<open>2^32\<close>: so does every authority with at most 65536
  entries, and an operation carries at most ten of each kind.
\<close>

definition small_auth :: "authority_data \<Rightarrow> bool" where
  "small_auth auth \<longleftrightarrow> collected UNIV UNIV auth < 2 ^ 32"

inductive_set endorsed :: "public_key set \<Rightarrow> account_name set \<Rightarrow> (account_name \<Rightarrow> authority_data) \<Rightarrow> account_name set"
  for K P get where
  pre: "a \<in> P \<Longrightarrow> a \<in> endorsed K P get"
| step: "\<forall>b \<in> S. b \<in> endorsed K P get \<Longrightarrow> unat (weight_threshold (get a)) \<le> collected K S (get a) \<Longrightarrow> a \<in> endorsed K P get"

primrec endorsed_within :: "nat \<Rightarrow> public_key set \<Rightarrow> account_name set \<Rightarrow> (account_name \<Rightarrow> authority_data) \<Rightarrow> account_name set" where
  "endorsed_within 0 K P get = P"
| "endorsed_within (Suc n) K P get = P \<union> {a. unat (weight_threshold (get a)) \<le> collected K (endorsed_within n K P get) (get a)}"

definition ss_keys :: "public_key list \<Rightarrow> sign_state \<Rightarrow> public_key set" where
  "ss_keys avail s = {k. t_get k (ss_provided s) \<noteq> None} \<union> set avail"

definition ss_appr :: "sign_state \<Rightarrow> account_name set" where
  "ss_appr s = {a. t_get a (ss_approved_by s) \<noteq> None}"

lemma wsum_simps [simp]: "wsum K [] = 0" "wsum K ((k, w) # ws) = (if k \<in> K then unat w else 0) + wsum K ws"
  by (simp_all add: wsum_def)

lemma wsum_mono: "K \<subseteq> L \<Longrightarrow> wsum K ws \<le> wsum L ws"
  by (induction ws) (auto simp: wsum_def)

lemma unat_add_weight:
  fixes t :: "32 word" and w :: "16 word"
  assumes "unat t + unat w < 2 ^ 32"
  shows "unat (t + ucast w) = unat t + unat w"
proof -
  have "unat (ucast w :: 32 word) = unat w"
    using unsigned_less [of w, where 'a = nat] by (simp add: unsigned_ucast_eq take_bit_nat_eq_self)
  with assms show ?thesis by (simp add: unat_word_ariths)
qed

lemma signed_by_spec:
  assumes "signed_by avail k s = (b, s')"
  shows "b \<longleftrightarrow> k \<in> ss_keys avail s" "ss_keys avail s' = ss_keys avail s" "ss_appr s' = ss_appr s"
  using assms
  by (auto simp: signed_by_def ss_keys_def ss_appr_def tbl.get_modify split: option.splits if_splits)

lemma check_keys_spec:
  assumes "check_keys avail thr ks t s = (d, t', s')" "unat t + wsum UNIV ks < 2 ^ 32"
  shows "ss_keys avail s' = ss_keys avail s \<and> ss_appr s' = ss_appr s
    \<and> (d \<longrightarrow> unat thr \<le> unat t + wsum (ss_keys avail s) ks)
    \<and> (\<not> d \<longrightarrow> unat t' = unat t + wsum (ss_keys avail s) ks)"
  using assms
proof (induction ks arbitrary: t s)
  case (Cons p ks)
  obtain k w where p: "p = (k, w)" by fastforce
  obtain b s1 where sb: "signed_by avail k s = (b, s1)" by fastforce
  note S = signed_by_spec [OF sb]
  show ?case
  proof (cases b)
    case True
    have small: "unat t + unat w < 2 ^ 32" using Cons.prems(2) p by simp
    note U = unat_add_weight [OF small]
    show ?thesis
    proof (cases "thr \<le> t + ucast w")
      case le: True
      then have "unat thr \<le> unat t + unat w" using U by (simp add: word_le_nat_alt)
      then show ?thesis using Cons.prems(1) p sb True le S by auto
    next
      case False
      then have "check_keys avail thr ks (t + ucast w) s1 = (d, t', s')"
        using Cons.prems(1) p sb True by simp
      from Cons.IH [OF this] Cons.prems(2) p U S True show ?thesis by (simp add: add.assoc)
    qed
  next
    case False
    then have "check_keys avail thr ks t s1 = (d, t', s')" using Cons.prems(1) p sb by simp
    from Cons.IH [OF this] Cons.prems(2) p S False show ?thesis by simp
  qed
qed simp

text \<open>What a check at a deeper level guarantees.\<close>

definition sound_check :: "public_key list \<Rightarrow> public_key set \<Rightarrow> account_name set \<Rightarrow> (account_name \<Rightarrow> authority_data)
    \<Rightarrow> (authority_data \<Rightarrow> sign_state \<Rightarrow> bool \<times> sign_state) \<Rightarrow> bool" where
  "sound_check avail K E get chk \<longleftrightarrow> (\<forall>auth s ok s'. chk auth s = (ok, s') \<longrightarrow> small_auth auth \<longrightarrow>
     ss_keys avail s = K \<longrightarrow> ss_appr s \<subseteq> E \<longrightarrow>
     ss_keys avail s' = K \<and> ss_appr s \<subseteq> ss_appr s' \<and> ss_appr s' \<subseteq> E
     \<and> (ok \<longrightarrow> unat (weight_threshold auth) \<le> collected K E auth))"

lemma check_accounts_sound:
  assumes "check_accounts deeper get thr as t s = (d, t', s')" "unat t + wsum UNIV as < 2 ^ 32"
    and "\<And>chk. deeper = Some chk \<Longrightarrow> sound_check avail K E get chk"
    and "\<And>a. small_auth (get a)"
    and "\<And>a. unat (weight_threshold (get a)) \<le> collected K E (get a) \<Longrightarrow> a \<in> E"
    and "ss_keys avail s = K" "ss_appr s \<subseteq> E"
  shows "ss_keys avail s' = K \<and> ss_appr s \<subseteq> ss_appr s' \<and> ss_appr s' \<subseteq> E
    \<and> (d \<longrightarrow> unat thr \<le> unat t + wsum E as) \<and> (\<not> d \<longrightarrow> unat t' \<le> unat t + wsum E as)"
  using assms(1,2,6,7)
proof (induction as arbitrary: t s)
  case (Cons p as)
  obtain a w where p: "p = (a, w)" by fastforce
  have small: "unat t + unat w < 2 ^ 32" using Cons.prems(2) p by simp
  note U = unat_add_weight [OF small]
  have count: ?case if "ss_keys avail s1 = K" "ss_appr s \<subseteq> ss_appr s1" "ss_appr s1 \<subseteq> E" "a \<in> E"
    and eq: "(if thr \<le> t + ucast w then (True, t + ucast w, s1) else check_accounts deeper get thr as (t + ucast w) s1)
        = (d, t', s')" for s1
  proof (cases "thr \<le> t + ucast w")
    case True
    then have "unat thr \<le> unat t + unat w" using U by (simp add: word_le_nat_alt)
    then show ?thesis using eq that True p by auto
  next
    case False
    then have "check_accounts deeper get thr as (t + ucast w) s1 = (d, t', s')" using eq by simp
    from Cons.IH [OF this] Cons.prems(2) p U that show ?thesis by (auto simp: add.assoc)
  qed
  have skip: ?case if "ss_keys avail s1 = K" "ss_appr s \<subseteq> ss_appr s1" "ss_appr s1 \<subseteq> E"
    and eq: "check_accounts deeper get thr as t s1 = (d, t', s')" for s1
    using Cons.IH [OF eq] Cons.prems(2) that p by auto
  show ?case
  proof (cases "t_get a (ss_approved_by s) = None")
    case False
    then have "a \<in> E" using Cons.prems(4) by (auto simp: ss_appr_def)
    then show ?thesis using count [of s] Cons.prems False p by (simp add: Let_def)
  next
    case new: True
    show ?thesis
    proof (cases deeper)
      case None
      then show ?thesis using skip [of s] Cons.prems new p by simp
    next
      case (Some chk)
      obtain ok s1 where c: "chk (get a) s = (ok, s1)" by fastforce
      have S: "ss_keys avail s1 = K" "ss_appr s \<subseteq> ss_appr s1" "ss_appr s1 \<subseteq> E" "ok \<Longrightarrow> a \<in> E"
        using assms(3) [OF Some] assms(4,5) c Cons.prems(3,4) unfolding sound_check_def by blast+
      show ?thesis
      proof (cases ok)
        case True
        let ?s2 = "s1\<lparr>ss_approved_by := flat_map_set a True (ss_approved_by s1)\<rparr>"
        have "ss_keys avail ?s2 = K" "ss_appr s \<subseteq> ss_appr ?s2" "ss_appr ?s2 \<subseteq> E"
          using S True by (auto simp: ss_keys_def ss_appr_def)
        moreover have "(if thr \<le> t + ucast w then (True, t + ucast w, ?s2)
            else check_accounts deeper get thr as (t + ucast w) ?s2) = (d, t', s')"
          using Cons.prems(1) new p Some c True by (auto simp: Let_def split del: if_split)
        ultimately show ?thesis using S(4) [OF True] by (intro count)
      next
        case False
        then show ?thesis using skip [of s1] S Cons.prems new p Some c by simp
      qed
    qed
  qed
qed simp

lemma check_authority_with_sound:
  assumes "\<And>chk. deeper = Some chk \<Longrightarrow> sound_check avail K E get chk"
    and "\<And>a. small_auth (get a)"
    and "\<And>a. unat (weight_threshold (get a)) \<le> collected K E (get a) \<Longrightarrow> a \<in> E"
  shows "sound_check avail K E get (check_authority_with deeper get avail)"
  unfolding sound_check_def
proof (intro allI impI)
  fix auth s ok s'
  assume A: "check_authority_with deeper get avail auth s = (ok, s')" "small_auth auth"
    "ss_keys avail s = K" "ss_appr s \<subseteq> E"
  obtain d1 t1 s1 where k: "check_keys avail (weight_threshold auth) (key_auths auth) 0 s = (d1, t1, s1)"
    by (cases "check_keys avail (weight_threshold auth) (key_auths auth) 0 s")
  have small: "wsum UNIV (key_auths auth) + wsum UNIV (account_auths auth) < 2 ^ 32"
    using A(2) by (simp add: small_auth_def collected_def)
  then have "unat (0 :: 32 word) + wsum UNIV (key_auths auth) < 2 ^ 32" by simp
  note K = check_keys_spec [OF k this]
  show "ss_keys avail s' = K \<and> ss_appr s \<subseteq> ss_appr s' \<and> ss_appr s' \<subseteq> E
     \<and> (ok \<longrightarrow> unat (weight_threshold auth) \<le> collected K E auth)"
  proof (cases d1)
    case True
    then show ?thesis using A K k by (auto simp: check_authority_with_def collected_def)
  next
    case False
    obtain d2 t2 s2 where a: "check_accounts deeper get (weight_threshold auth) (account_auths auth) t1 s1 = (d2, t2, s2)"
      by (cases "check_accounts deeper get (weight_threshold auth) (account_auths auth) t1 s1")
    have t1: "unat t1 = wsum K (key_auths auth)" using K False A by simp
    have "unat t1 + wsum UNIV (account_auths auth) < 2 ^ 32"
      using t1 small wsum_mono [of K UNIV "key_auths auth"] by simp
    from check_accounts_sound [OF a this assms] K A
    have S: "ss_keys avail s2 = K \<and> ss_appr s \<subseteq> ss_appr s2 \<and> ss_appr s2 \<subseteq> E
      \<and> (d2 \<longrightarrow> unat (weight_threshold auth) \<le> collected K E auth) \<and> (\<not> d2 \<longrightarrow> unat t2 \<le> collected K E auth)"
      by (simp add: t1 collected_def)
    have "s' = s2" "ok \<longleftrightarrow> d2 \<or> weight_threshold auth \<le> t2"
      using A(1) k a False by (auto simp: check_authority_with_def split: if_splits)
    then show ?thesis using S by (auto simp: word_le_nat_alt)
  qed
qed

lemma check_authority_sound:
  assumes "\<And>a. small_auth (get a)"
    and "\<And>a. unat (weight_threshold (get a)) \<le> collected K E (get a) \<Longrightarrow> a \<in> E"
  shows "sound_check avail K E get (check_authority n get avail)"
  by (induction n) (auto intro!: check_authority_with_sound assms)

definition complete_check :: "public_key list \<Rightarrow> public_key set \<Rightarrow> account_name set \<Rightarrow> account_name set
    \<Rightarrow> (authority_data \<Rightarrow> sign_state \<Rightarrow> bool \<times> sign_state) \<Rightarrow> bool" where
  "complete_check avail K P Q chk \<longleftrightarrow> (\<forall>auth s. small_auth auth \<longrightarrow> ss_keys avail s = K \<longrightarrow> P \<subseteq> ss_appr s \<longrightarrow>
     unat (weight_threshold auth) \<le> collected K Q auth \<longrightarrow> fst (chk auth s))"

lemma check_accounts_complete:
  assumes "check_accounts deeper get thr as t s = (d, t', s')" "unat t + wsum UNIV as < 2 ^ 32"
    and "\<And>chk. deeper = Some chk \<Longrightarrow> sound_check avail K UNIV get chk"
    and "\<And>a. small_auth (get a)"
    and "\<And>a. a \<in> Q \<Longrightarrow> a \<in> P \<or> (\<exists>chk. deeper = Some chk \<and> (\<forall>s. ss_keys avail s = K \<longrightarrow> P \<subseteq> ss_appr s \<longrightarrow> fst (chk (get a) s)))"
    and "ss_keys avail s = K" "P \<subseteq> ss_appr s"
  shows "\<not> d \<longrightarrow> unat t + wsum Q as \<le> unat t'"
  using assms(1,2,6,7)
proof (induction as arbitrary: t s)
  case (Cons p as)
  obtain a w where p: "p = (a, w)" by fastforce
  have small: "unat t + unat w < 2 ^ 32" using Cons.prems(2) p by simp
  note U = unat_add_weight [OF small]
  have count: ?case if "ss_keys avail s1 = K" "P \<subseteq> ss_appr s1"
    and eq: "(if thr \<le> t + ucast w then (True, t + ucast w, s1) else check_accounts deeper get thr as (t + ucast w) s1)
        = (d, t', s')" for s1
  proof (cases "thr \<le> t + ucast w")
    case True
    then show ?thesis using eq by simp
  next
    case False
    then have "check_accounts deeper get thr as (t + ucast w) s1 = (d, t', s')" using eq by simp
    from Cons.IH [OF this] Cons.prems(2) p U that show ?thesis by auto
  qed
  have skip: ?case if "ss_keys avail s1 = K" "P \<subseteq> ss_appr s1" "a \<notin> Q"
    and eq: "check_accounts deeper get thr as t s1 = (d, t', s')" for s1
    using Cons.IH [OF eq] Cons.prems(2) that p by auto
  show ?case
  proof (cases "t_get a (ss_approved_by s) = None")
    case False
    then have "(if thr \<le> t + ucast w then (True, t + ucast w, s) else check_accounts deeper get thr as (t + ucast w) s)
        = (d, t', s')" using Cons.prems(1) p by (auto simp: Let_def split del: if_split)
    from count [OF Cons.prems(3,4) this] show ?thesis .
  next
    case new: True
    then have aP: "a \<notin> P" using Cons.prems(4) by (auto simp: ss_appr_def)
    show ?thesis
    proof (cases deeper)
      case None
      then have "a \<notin> Q" using assms(5) aP by blast
      then show ?thesis using skip [of s] Cons.prems new p None by simp
    next
      case (Some chk)
      obtain ok s1 where c: "chk (get a) s = (ok, s1)" by fastforce
      have S: "ss_keys avail s1 = K" "ss_appr s \<subseteq> ss_appr s1"
        using assms(3) [OF Some] assms(4) c Cons.prems(3) unfolding sound_check_def by blast+
      show ?thesis
      proof (cases ok)
        case True
        let ?s2 = "s1\<lparr>ss_approved_by := flat_map_set a True (ss_approved_by s1)\<rparr>"
        have "ss_appr s1 \<subseteq> ss_appr ?s2" by (auto simp: ss_appr_def)
        then have "P \<subseteq> ss_appr ?s2" using S(2) Cons.prems(4) by blast
        moreover have "ss_keys avail ?s2 = K" using S(1) by (simp add: ss_keys_def)
        moreover have "(if thr \<le> t + ucast w then (True, t + ucast w, ?s2)
            else check_accounts deeper get thr as (t + ucast w) ?s2) = (d, t', s')"
          using Cons.prems(1) new p Some c True by (auto simp: Let_def split del: if_split)
        ultimately show ?thesis by (intro count)
      next
        case False
        have "fst (chk (get a) s)" if "a \<in> Q"
          using assms(5) [OF that] aP Some Cons.prems(3,4) by auto
        then have "a \<notin> Q" using c False by auto
        then show ?thesis using skip [of s1] S Cons.prems new p Some c False by auto
      qed
    qed
  qed
qed simp

lemma check_authority_with_complete:
  assumes "\<And>chk. deeper = Some chk \<Longrightarrow> sound_check avail K UNIV get chk"
    and "\<And>a. small_auth (get a)"
    and "\<And>a. a \<in> Q \<Longrightarrow> a \<in> P \<or> (\<exists>chk. deeper = Some chk \<and> (\<forall>s. ss_keys avail s = K \<longrightarrow> P \<subseteq> ss_appr s \<longrightarrow> fst (chk (get a) s)))"
  shows "complete_check avail K P Q (check_authority_with deeper get avail)"
  unfolding complete_check_def
proof (intro allI impI)
  fix auth s
  assume A: "small_auth auth" "ss_keys avail s = K" "P \<subseteq> ss_appr s" "unat (weight_threshold auth) \<le> collected K Q auth"
  obtain d1 t1 s1 where k: "check_keys avail (weight_threshold auth) (key_auths auth) 0 s = (d1, t1, s1)"
    by (cases "check_keys avail (weight_threshold auth) (key_auths auth) 0 s")
  have small: "wsum UNIV (key_auths auth) + wsum UNIV (account_auths auth) < 2 ^ 32"
    using A(1) by (simp add: small_auth_def collected_def)
  then have "unat (0 :: 32 word) + wsum UNIV (key_auths auth) < 2 ^ 32" by simp
  note K = check_keys_spec [OF k this]
  show "fst (check_authority_with deeper get avail auth s)"
  proof (cases d1)
    case False
    obtain d2 t2 s2 where a: "check_accounts deeper get (weight_threshold auth) (account_auths auth) t1 s1 = (d2, t2, s2)"
      by (cases "check_accounts deeper get (weight_threshold auth) (account_auths auth) t1 s1")
    have t1: "unat t1 = wsum K (key_auths auth)" using K False A by simp
    have "unat t1 + wsum UNIV (account_auths auth) < 2 ^ 32"
      using t1 small wsum_mono [of K UNIV "key_auths auth"] by simp
    from check_accounts_complete [OF a this assms] K A
    have "\<not> d2 \<longrightarrow> collected K Q auth \<le> unat t2" by (simp add: t1 collected_def)
    then show ?thesis using A(4) k a False
      by (auto simp: check_authority_with_def word_le_nat_alt)
  qed (use k in \<open>simp add: check_authority_with_def\<close>)
qed

lemma check_authority_complete:
  assumes "\<And>a. small_auth (get a)"
  shows "complete_check avail K P (endorsed_within n K P get) (check_authority n get avail)"
proof (induction n)
  case 0
  show ?case by (simp, rule check_authority_with_complete) (auto simp: assms)
next
  case (Suc n)
  have s: "sound_check avail K UNIV get (check_authority n get avail)"
    by (rule check_authority_sound) (auto simp: assms)
  show ?case
    using Suc s assms unfolding check_authority.simps complete_check_def
    by (intro check_authority_with_complete [unfolded complete_check_def]) auto
qed


text \<open>A check is reliable for a property when it keeps the state within the endorsed accounts and
  says yes only where the property holds.\<close>

definition reliable :: "public_key set \<Rightarrow> account_name set \<Rightarrow> (sign_state \<Rightarrow> bool \<times> sign_state) \<Rightarrow> bool \<Rightarrow> bool" where
  "reliable K E chk Pr \<longleftrightarrow> (\<forall>s ok s'. chk s = (ok, s') \<longrightarrow> ss_keys [] s = K \<longrightarrow> ss_appr s \<subseteq> E \<longrightarrow>
     ss_keys [] s' = K \<and> ss_appr s' \<subseteq> E \<and> (ok \<longrightarrow> Pr))"

definition meets :: "public_key set \<Rightarrow> account_name set \<Rightarrow> authority_data \<Rightarrow> bool" where
  "meets K E auth \<longleftrightarrow> unat (weight_threshold auth) \<le> collected K E auth"

lemma endorsed_closed: "meets K (endorsed K P get) (get a) \<Longrightarrow> a \<in> endorsed K P get"
  by (rule endorsed.step [of "endorsed K P get"]) (auto simp: meets_def)

lemma reliable_check_authority:
  assumes "\<And>a. small_auth (get a)" "small_auth auth" "\<And>a. meets K E (get a) \<Longrightarrow> a \<in> E"
  shows "reliable K E (check_authority n get [] auth) (meets K E auth)"
proof -
  have "sound_check [] K E get (check_authority n get [])"
    by (rule check_authority_sound) (use assms in \<open>auto simp: meets_def\<close>)
  then show ?thesis using assms(2) unfolding reliable_def sound_check_def meets_def by blast
qed

lemma reliable_check_account:
  assumes "\<And>a. small_auth (get a)" "\<And>a. meets K E (get a) \<Longrightarrow> a \<in> E"
  shows "reliable K E (check_authority_account n get [] a) (a \<in> E)"
proof -
  have R: "reliable K E (check_authority n get [] (get a)) (meets K E (get a))"
    by (rule reliable_check_authority) (use assms in auto)
  show ?thesis unfolding reliable_def
  proof (intro allI impI)
    fix s ok s'
    assume A: "check_authority_account n get [] a s = (ok, s')" "ss_keys [] s = K" "ss_appr s \<subseteq> E"
    show "ss_keys [] s' = K \<and> ss_appr s' \<subseteq> E \<and> (ok \<longrightarrow> a \<in> E)"
    proof (cases "t_get a (ss_approved_by s) = None")
      case True
      then have "check_authority n get [] (get a) s = (ok, s')" using A(1) by (simp add: check_authority_account_def)
      then show ?thesis using R A assms(2) unfolding reliable_def by blast
    next
      case False
      then have "a \<in> E" "ok" "s' = s\<lparr>ss_approved_by := t_modify a (\<lambda>_. True) (ss_approved_by s)\<rparr>"
        using A by (auto simp: check_authority_account_def ss_appr_def)
      then show ?thesis using A by (auto simp: ss_keys_def ss_appr_def tbl.get_modify split: if_splits)
    qed
  qed
qed

lemma reliable_or:
  assumes "reliable K E f p" "reliable K E g q"
  shows "reliable K E (or_check f g) (p \<or> q)"
  using assms unfolding reliable_def or_check_def by (auto simp: Let_def split: prod.splits if_splits)

lemma check_each_reliable:
  assumes "check_each chk xs s = (missing, s')" "\<And>x. x \<in> set xs \<Longrightarrow> reliable K E (chk x) (Pr x)"
    "ss_keys [] s = K" "ss_appr s \<subseteq> E"
  shows "ss_keys [] s' = K \<and> ss_appr s' \<subseteq> E \<and> (missing = [] \<longrightarrow> (\<forall>x \<in> set xs. Pr x))"
  using assms
proof (induction xs arbitrary: s missing s')
  case (Cons x xs)
  obtain ok s1 where c: "chk x s = (ok, s1)" by fastforce
  obtain m2 s2 where d: "check_each chk xs s1 = (m2, s2)" by fastforce
  have "ss_keys [] s1 = K \<and> ss_appr s1 \<subseteq> E \<and> (ok \<longrightarrow> Pr x)"
    using Cons.prems(2) [of x] c Cons.prems(3,4) unfolding reliable_def by simp
  with Cons.IH [OF d] Cons.prems c d show ?case by (auto simp: Let_def split: if_splits)
qed simp

lemma t_get_foldl_set: "t_get k (foldl (\<lambda>m k. flat_map_set k False m) m ks) =
    (if k \<in> set ks then Some False else t_get k m)"
  by (induction ks arbitrary: m) auto

lemma new_sign_state_keys: "ss_keys [] (new_sign_state sigs) = set sigs"
  by (auto simp: ss_keys_def new_sign_state_def t_get_foldl_set, auto simp: t_get_def)

lemma new_sign_state_appr: "ss_appr (new_sign_state sigs) = {''temp''}"
  by (auto simp: ss_appr_def new_sign_state_def t_get_def)

lemma add_approvals_simps [simp]: "ss_keys avail (add_approvals ids s) = ss_keys avail s"
  "ss_appr (add_approvals ids s) = ss_appr s \<union> set ids"
  by (auto simp: ss_keys_def ss_appr_def add_approvals_def t_get_foldl_set split: if_splits)

text \<open>
  C10. The recursive check accepts every authority that is met by accounts endorsed within the
  recursion limit, and accepts only authorities that are met by the provided keys and endorsed
  accounts: the 32-bit weight counter, the early returns and the cache of approved accounts never
  let an authority pass that lacks the weight.
\<close>

theorem check_authority_between:
  assumes "\<And>a. small_auth (get a)" "small_auth auth"
  shows "(meets (ss_keys avail s) (endorsed_within n (ss_keys avail s) (ss_appr s) get) auth
      \<longrightarrow> fst (check_authority n get avail auth s))
    \<and> (fst (check_authority n get avail auth s)
      \<longrightarrow> meets (ss_keys avail s) (endorsed (ss_keys avail s) (ss_appr s) get) auth)"
proof -
  let ?K = "ss_keys avail s" and ?P = "ss_appr s"
  let ?E = "endorsed ?K ?P get"
  obtain ok s' where c: "check_authority n get avail auth s = (ok, s')" by fastforce
  have "sound_check avail ?K ?E get (check_authority n get avail)"
    by (rule check_authority_sound) (use assms(1) endorsed_closed [of ?K ?P get] in \<open>auto simp: meets_def\<close>)
  moreover have "?P \<subseteq> ?E" by (auto intro: endorsed.pre)
  ultimately have "ok \<longrightarrow> meets ?K ?E auth" using c assms(2) unfolding sound_check_def meets_def by blast
  moreover have "complete_check avail ?K ?P (endorsed_within n ?K ?P get) (check_authority n get avail)"
    by (rule check_authority_complete) (rule assms(1))
  then have "meets ?K (endorsed_within n ?K ?P get) auth \<longrightarrow> fst (check_authority n get avail auth s)"
    using assms(2) unfolding complete_check_def meets_def by blast
  ultimately show ?thesis using c by simp
qed

definition demo_auth :: "account_name \<Rightarrow> authority_data" where
  "demo_auth n = (if n = ''corp'' then \<lparr>weight_threshold = 2, account_auths = [(''alice'', 1), (''bob'', 1)], key_auths = []\<rparr>
     else if n = ''alice'' then \<lparr>weight_threshold = 1, account_auths = [], key_auths = [(''KA'', 1)]\<rparr>
     else \<lparr>weight_threshold = 1, account_auths = [], key_auths = [(''KB'', 1)]\<rparr>)"

lemma check_authority_two: "check_authority 2 = check_authority (Suc (Suc 0))"
  by (simp add: numeral_2_eq_2)

lemma demo_auth_small: "small_auth (demo_auth n)"
  by (simp add: demo_auth_def small_auth_def collected_def)

theorem check_authority_between_witness:
  "fst (check_authority 2 demo_auth [] (demo_auth ''corp'') (new_sign_state [''KA'', ''KB'']))"
proof -
  have K: "ss_keys [] (new_sign_state [''KA'', ''KB'']) = {''KA'', ''KB''}"
    by (simp add: new_sign_state_keys)
  have "meets {''KA'', ''KB''} (endorsed_within 2 {''KA'', ''KB''} {''temp''} demo_auth) (demo_auth ''corp'')"
    by (simp add: meets_def collected_def demo_auth_def numeral_2_eq_2)
  then show ?thesis
    using check_authority_between [of demo_auth "demo_auth ''corp''" "[]" "new_sign_state [''KA'', ''KB'']" 2]
      demo_auth_small by (simp add: K new_sign_state_appr)
qed

lemma verify_posting_sound:
  assumes "verify_authority get_active get_owner get_posting depth sigs ra ro rp other aa oa pa = Inr ()"
    "rp \<noteq> []" "\<And>a. small_auth (get_active a) \<and> small_auth (get_owner a) \<and> small_auth (get_posting a)"
  shows "ra = [] \<and> ro = [] \<and> other = [] \<and>
    (let E = endorsed (set sigs) (insert ''temp'' (set pa)) get_posting in
     \<forall>a \<in> set rp. a \<in> E \<or> meets (set sigs) E (get_active a) \<or> meets (set sigs) E (get_owner a))"
proof -
  let ?E = "endorsed (set sigs) (insert ''temp'' (set pa)) get_posting"
  let ?s = "add_approvals pa (new_sign_state sigs)"
  let ?chk = "\<lambda>n. or_check (check_authority_account depth get_posting [] n)
                (or_check (check_authority depth get_posting [] (get_active n))
                   (check_authority depth get_posting [] (get_owner n)))"
  obtain m s where c: "check_each ?chk rp ?s = (m, s)" by fastforce
  have R: "reliable (set sigs) ?E (?chk a) (a \<in> ?E \<or> meets (set sigs) ?E (get_active a) \<or> meets (set sigs) ?E (get_owner a))" for a
    using assms(3) endorsed_closed by (intro reliable_or reliable_check_account reliable_check_authority) auto
  have "ss_appr ?s \<subseteq> ?E" by (auto simp: new_sign_state_appr intro: endorsed.pre)
  with check_each_reliable [OF c R] new_sign_state_keys
  have "m = [] \<longrightarrow> (\<forall>a \<in> set rp. a \<in> ?E \<or> meets (set sigs) ?E (get_active a) \<or> meets (set sigs) ?E (get_owner a))"
    by auto
  then show ?thesis using assms(1,2) c by (auto simp: verify_authority_def Let_def)
qed

text \<open>
  When \<open>verify_authority\<close> accepts a transaction with posting operations, no active, owner or
  other authority is required, and every required account is endorsed through its posting
  authority, or its active or owner authority is met, by the keys that signed, the approvals given
  and the accounts these endorse.
\<close>

theorem verify_authority_posting:
  assumes "verify_authority get_active get_owner get_posting depth sigs ra ro rp other aa oa pa = Inr ()"
    "rp \<noteq> []" "\<And>a. small_auth (get_active a) \<and> small_auth (get_owner a) \<and> small_auth (get_posting a)"
  shows "ra = [] \<and> ro = [] \<and> other = [] \<and>
    (let E = endorsed (set sigs) (insert ''temp'' (set pa)) get_posting in
     \<forall>a \<in> set rp. a \<in> E \<or> meets (set sigs) E (get_active a) \<or> meets (set sigs) E (get_owner a))"
  using assms by (rule verify_posting_sound)

theorem verify_authority_posting_witness:
  "verify_authority demo_auth demo_auth demo_auth 2 [''KA''] [] [] [''alice''] [] [] [] [] = Inr ()
     \<and> ''alice'' \<in> endorsed {''KA''} {''temp''} demo_auth"
proof -
  have v: "verify_authority demo_auth demo_auth demo_auth 2 [''KA''] [] [] [''alice''] [] [] [] [] = Inr ()"
    by (simp add: verify_authority_def or_check_def check_authority_account_def check_authority_with_def
       demo_auth_def new_sign_state_def add_approvals_def signed_by_def flat_map_set_def table_defs
       assert_unused_approvals_def remove_unused_signatures_def filter_unused_approvals_def numeral_2_eq_2 Let_def)
  from verify_authority_posting [OF v] demo_auth_small endorsed_closed [of "{''KA''}" "{''temp''}" demo_auth "''alice''"]
  show ?thesis using v by (auto simp: Let_def)
qed

lemma verify_active_sound:
  assumes "verify_authority get_active get_owner get_posting depth sigs ra ro [] other aa oa pa = Inr ()"
    "\<And>a. small_auth (get_active a) \<and> small_auth (get_owner a)" "\<And>auth. auth \<in> set other \<Longrightarrow> small_auth auth"
  shows "let E = endorsed (set sigs) (insert ''temp'' (set aa \<union> set oa)) get_active in
    (\<forall>auth \<in> set other. meets (set sigs) E auth) \<and>
    (\<forall>a \<in> set ra. a \<in> E \<or> meets (set sigs) E (get_owner a))"
proof -
  let ?K = "set sigs"
  let ?E = "endorsed ?K (insert ''temp'' (set aa \<union> set oa)) get_active"
  let ?s = "add_approvals oa (add_approvals aa (new_sign_state sigs))"
  let ?chk = "\<lambda>n. or_check (check_authority_account depth get_active [] n)
                (check_authority depth get_active [] (get_owner n))"
  obtain m1 s1 where c1: "check_each (check_authority depth get_active []) other ?s = (m1, s1)" by fastforce
  obtain m2 s2 where c2: "check_each ?chk ra s1 = (m2, s2)" by fastforce
  have R1: "reliable ?K ?E (check_authority depth get_active [] auth) (meets ?K ?E auth)" if "auth \<in> set other" for auth
    using assms(2,3) that endorsed_closed by (intro reliable_check_authority) auto
  have R2: "reliable ?K ?E (?chk a) (a \<in> ?E \<or> meets ?K ?E (get_owner a))" for a
    using assms(2) endorsed_closed by (intro reliable_or reliable_check_account reliable_check_authority) auto
  have "ss_appr ?s \<subseteq> ?E" by (auto simp: new_sign_state_appr intro: endorsed.pre)
  then have 1: "ss_keys [] s1 = ?K" "ss_appr s1 \<subseteq> ?E" "m1 = [] \<longrightarrow> (\<forall>auth \<in> set other. meets ?K ?E auth)"
    using check_each_reliable [OF c1 R1] new_sign_state_keys by auto
  then have "m2 = [] \<longrightarrow> (\<forall>a \<in> set ra. a \<in> ?E \<or> meets ?K ?E (get_owner a))"
    using check_each_reliable [OF c2 R2] by simp
  then show ?thesis using assms(1) c1 c2 1 by (auto simp: verify_authority_def Let_def split: prod.splits)
qed

text \<open>
  Owner authorities are checked last, and an account that passed counts as approved for the owner
  authorities that follow: \<open>endorsed_owner\<close> adds to the endorsed accounts those of \<open>R\<close> whose owner
  authority is met.
\<close>

inductive_set endorsed_owner :: "public_key set \<Rightarrow> account_name set \<Rightarrow> (account_name \<Rightarrow> authority_data)
    \<Rightarrow> (account_name \<Rightarrow> authority_data) \<Rightarrow> account_name set \<Rightarrow> account_name set"
  for K P get own R where
  own_pre: "a \<in> P \<Longrightarrow> a \<in> endorsed_owner K P get own R"
| own_step: "\<forall>b \<in> S. b \<in> endorsed_owner K P get own R \<Longrightarrow> meets K S (get a) \<Longrightarrow> a \<in> endorsed_owner K P get own R"
| own_owner: "\<forall>b \<in> S. b \<in> endorsed_owner K P get own R \<Longrightarrow> a \<in> R \<Longrightarrow> meets K S (own a)
    \<Longrightarrow> a \<in> endorsed_owner K P get own R"

lemma endorsed_owner_closed:
  "meets K (endorsed_owner K P get own R) (get a) \<Longrightarrow> a \<in> endorsed_owner K P get own R"
  "a \<in> R \<Longrightarrow> meets K (endorsed_owner K P get own R) (own a) \<Longrightarrow> a \<in> endorsed_owner K P get own R"
  by (rule own_step [of "endorsed_owner K P get own R"], auto)
     (rule own_owner [of "endorsed_owner K P get own R"], auto)

lemma reliable_check_owner:
  assumes "\<And>a. small_auth (get a)" "small_auth (own n)" "\<And>a. meets K E (get a) \<Longrightarrow> a \<in> E"
    "meets K E (own n) \<Longrightarrow> n \<in> E" "set oa \<subseteq> E"
  shows "reliable K E (check_owner depth get own oa n) (n \<in> set oa \<or> meets K E (own n))"
  unfolding reliable_def
proof (intro allI impI)
  fix s ok s'
  assume A: "check_owner depth get own oa n s = (ok, s')" "ss_keys [] s = K" "ss_appr s \<subseteq> E"
  have R: "reliable K E (check_authority depth get [] (own n)) (meets K E (own n))"
    by (rule reliable_check_authority) (use assms in auto)
  obtain b s1 where c: "(if n \<in> set oa then (True, s) else check_authority depth get [] (own n) s) = (b, s1)"
    by fastforce
  have 1: "ss_keys [] s1 = K \<and> ss_appr s1 \<subseteq> E \<and> (b \<longrightarrow> n \<in> set oa \<or> meets K E (own n))"
  proof (cases "n \<in> set oa")
    case False
    then have "check_authority depth get [] (own n) s = (b, s1)" using c by simp
    then show ?thesis using R A(2,3) unfolding reliable_def by blast
  qed (use c A in auto)
  have s': "ok = b" "s' = (if b then s1\<lparr>ss_approved_by := flat_map_set n True (ss_approved_by s1)\<rparr> else s1)"
    using A(1) c by (auto simp: check_owner_def Let_def split: if_splits)
  have "b \<Longrightarrow> n \<in> E" using 1 assms(4,5) by blast
  then show "ss_keys [] s' = K \<and> ss_appr s' \<subseteq> E \<and> (ok \<longrightarrow> n \<in> set oa \<or> meets K E (own n))"
    using 1 s' by (auto simp: ss_keys_def ss_appr_def split: if_splits)
qed

lemma verify_owner_sound:
  assumes "verify_authority get_active get_owner get_posting depth sigs ra ro [] other aa oa pa = Inr ()"
    "\<And>a. small_auth (get_active a) \<and> small_auth (get_owner a)" "\<And>auth. auth \<in> set other \<Longrightarrow> small_auth auth"
    "n \<in> set ro"
  shows "n \<in> set oa \<or> meets (set sigs)
    (endorsed_owner (set sigs) (insert ''temp'' (set aa \<union> set oa)) get_active get_owner (set ro)) (get_owner n)"
proof -
  let ?K = "set sigs"
  let ?E = "endorsed_owner ?K (insert ''temp'' (set aa \<union> set oa)) get_active get_owner (set ro)"
  let ?s = "add_approvals oa (add_approvals aa (new_sign_state sigs))"
  let ?chk = "\<lambda>n. or_check (check_authority_account depth get_active [] n)
                (check_authority depth get_active [] (get_owner n))"
  obtain m1 s1 where c1: "check_each (check_authority depth get_active []) other ?s = (m1, s1)" by fastforce
  obtain m2 s2 where c2: "check_each ?chk ra s1 = (m2, s2)" by fastforce
  obtain m3 s3 where c3: "check_each (check_owner depth get_active get_owner oa) ro s2 = (m3, s3)" by fastforce
  note cl = endorsed_owner_closed [where K = ?K and P = "insert ''temp'' (set aa \<union> set oa)"
      and get = get_active and own = get_owner and R = "set ro"]
  have R1: "reliable ?K ?E (check_authority depth get_active [] auth) (meets ?K ?E auth)" if "auth \<in> set other" for auth
    using assms(2,3) that cl(1) by (intro reliable_check_authority) auto
  have R2: "reliable ?K ?E (?chk a) (a \<in> ?E \<or> meets ?K ?E (get_owner a))" for a
    using assms(2) cl(1) by (intro reliable_or reliable_check_account reliable_check_authority) auto
  have R3: "reliable ?K ?E (check_owner depth get_active get_owner oa a) (a \<in> set oa \<or> meets ?K ?E (get_owner a))"
    if "a \<in> set ro" for a
    using assms(2) cl(2) [of a] that by (intro reliable_check_owner) (auto intro: cl(1) own_pre)
  have "ss_appr ?s \<subseteq> ?E" by (auto simp: new_sign_state_appr intro: own_pre)
  then have "ss_keys [] s1 = ?K" "ss_appr s1 \<subseteq> ?E"
    using check_each_reliable [OF c1 R1] new_sign_state_keys by auto
  then have "ss_keys [] s2 = ?K" "ss_appr s2 \<subseteq> ?E" using check_each_reliable [OF c2 R2] by auto
  then have "m3 = [] \<longrightarrow> (\<forall>a \<in> set ro. a \<in> set oa \<or> meets ?K ?E (get_owner a))"
    using check_each_reliable [OF c3 R3] by simp
  then show ?thesis using assms(1,4) c1 c2 c3 by (auto simp: verify_authority_def Let_def split: prod.splits)
qed



end
