(* ===== verification/Transaction.thy ===== *)
theory Transaction
  imports Operations Sign_State Block
begin

text \<open>
  Transactions: \<open>operation\<close> is the variant of \<^verbatim>\<open>operations.hpp\<close> over the operations modelled in
  \<open>Operations\<close>, with the two visitors of \<^verbatim>\<open>operation_util_impl.hpp\<close> (validation and required
  authorities, the methods of the structs in \<^verbatim>\<open>steem_operations.hpp\<close>), and \<open>transaction\<close> carries
  the methods of \<^verbatim>\<open>transaction.cpp\<close>. Recovering a key from a signature and the order in which a
  \<open>flat_set\<close> of account names is traversed come from the fc library and are parameters:
  \<open>recover\<close>, \<open>fset\<close>, which lists without repetition the names that were inserted, and \<open>kset\<close>, which
  does so for public keys.

  The theorems: the validator reports the first operation that fails with its position; an
  operation that passes validation requires at least one authority; a transaction that is
  accepted is endorsed for every account its operations name; dropping the signatures that are
  not needed leaves a transaction that is still accepted.
\<close>

section \<open>Operations as a variant\<close>

datatype operation =
    Vote_Op vote_operation
  | Comment_Op comment_operation
  | Transfer_Op transfer_operation
  | Transfer_To_Vesting_Op transfer_to_vesting_operation
  | Withdraw_Vesting_Op withdraw_vesting_operation
  | Limit_Order_Create_Op limit_order_create_operation
  | Limit_Order_Cancel_Op limit_order_cancel_operation
  | Feed_Publish_Op feed_publish_operation
  | Convert_Op convert_operation
  | Account_Create_Op account_create_operation
  | Account_Update_Op account_update_operation
  | Witness_Update_Op witness_update_operation
  | Account_Witness_Vote_Op account_witness_vote_operation
  | Account_Witness_Proxy_Op account_witness_proxy_operation
  | Custom_Op custom_operation
  | Delete_Comment_Op delete_comment_operation
  | Custom_Json_Op custom_json_operation
  | Comment_Options_Op comment_options_operation
  | Set_Withdraw_Vesting_Route_Op set_withdraw_vesting_route_operation
  | Limit_Order_Create2_Op limit_order_create2_operation
  | Challenge_Authority_Op challenge_authority_operation
  | Prove_Authority_Op prove_authority_operation
  | Request_Account_Recovery_Op request_account_recovery_operation
  | Recover_Account_Op recover_account_operation
  | Change_Recovery_Account_Op change_recovery_account_operation
  | Escrow_Transfer_Op escrow_transfer_operation
  | Escrow_Dispute_Op escrow_dispute_operation
  | Escrow_Release_Op escrow_release_operation
  | Escrow_Approve_Op escrow_approve_operation
  | Transfer_To_Savings_Op transfer_to_savings_operation
  | Transfer_From_Savings_Op transfer_from_savings_operation
  | Cancel_Transfer_From_Savings_Op cancel_transfer_from_savings_operation
  | Custom_Binary_Op custom_binary_operation
  | Decline_Voting_Rights_Op decline_voting_rights_operation
  | Reset_Account_Op reset_account_operation
  | Set_Reset_Account_Op set_reset_account_operation
  | Delegate_Vesting_Shares_Op delegate_vesting_shares_operation
  | Account_Create_With_Delegation_Op account_create_with_delegation_operation
  | Account_Metadata_Op account_metadata_operation
  | Chain_Properties_Update_Op chain_properties_update_operation
  | Break_Free_Referral_Op break_free_referral_operation
  | Delegate_Vesting_Shares_With_Interest_Op delegate_vesting_shares_with_interest_operation
  | Reject_Vesting_Shares_Delegation_Op reject_vesting_shares_delegation_operation
  | Transit_To_Cyberway_Op transit_to_cyberway_operation
  | Claim_Op claim_operation
  | Donate_Op donate_operation
  | Transfer_To_Tip_Op transfer_to_tip_operation
  | Transfer_From_Tip_Op transfer_from_tip_operation
  | Invite_Op invite_operation
  | Invite_Claim_Op invite_claim_operation
  | Account_Create_With_Invite_Op account_create_with_invite_operation
  | Asset_Create_Op asset_create_operation
  | Asset_Update_Op asset_update_operation
  | Asset_Issue_Op asset_issue_operation
  | Asset_Transfer_Op asset_transfer_operation
  | Override_Transfer_Op override_transfer_operation
  | Invite_Donate_Op invite_donate_operation
  | Invite_Transfer_Op invite_transfer_operation
  | Limit_Order_Cancel_Ex_Op limit_order_cancel_ex_operation
  | Account_Setup_Op account_setup_operation

definition operation_validate :: "text_lib \<Rightarrow> (account_name \<Rightarrow> 8 word list) \<Rightarrow> operation \<Rightarrow> unit result" where
  "operation_validate L mem op = (case op of
     Vote_Op o1 \<Rightarrow> vote_validate L o1
   | Comment_Op o1 \<Rightarrow> comment_validate L o1
   | Transfer_Op o1 \<Rightarrow> transfer_validate L o1
   | Transfer_To_Vesting_Op o1 \<Rightarrow> transfer_to_vesting_validate o1
   | Withdraw_Vesting_Op o1 \<Rightarrow> withdraw_vesting_validate o1
   | Limit_Order_Create_Op o1 \<Rightarrow> limit_order_create_validate o1
   | Limit_Order_Cancel_Op o1 \<Rightarrow> limit_order_cancel_validate o1
   | Feed_Publish_Op o1 \<Rightarrow> feed_publish_validate o1
   | Convert_Op o1 \<Rightarrow> convert_validate o1
   | Account_Create_Op o1 \<Rightarrow> account_create_validate L o1
   | Account_Update_Op o1 \<Rightarrow> account_update_validate L o1
   | Witness_Update_Op o1 \<Rightarrow> witness_update_validate L o1
   | Account_Witness_Vote_Op o1 \<Rightarrow> account_witness_vote_validate o1
   | Account_Witness_Proxy_Op o1 \<Rightarrow> account_witness_proxy_validate o1
   | Custom_Op o1 \<Rightarrow> custom_validate o1
   | Delete_Comment_Op o1 \<Rightarrow> delete_comment_validate L o1
   | Custom_Json_Op o1 \<Rightarrow> custom_json_validate L o1
   | Comment_Options_Op o1 \<Rightarrow> comment_options_validate L mem o1
   | Set_Withdraw_Vesting_Route_Op o1 \<Rightarrow> set_withdraw_vesting_route_validate o1
   | Limit_Order_Create2_Op o1 \<Rightarrow> limit_order_create2_validate o1
   | Challenge_Authority_Op o1 \<Rightarrow> challenge_authority_validate o1
   | Prove_Authority_Op o1 \<Rightarrow> prove_authority_validate o1
   | Request_Account_Recovery_Op o1 \<Rightarrow> request_account_recovery_validate o1
   | Recover_Account_Op o1 \<Rightarrow> recover_account_validate o1
   | Change_Recovery_Account_Op o1 \<Rightarrow> change_recovery_account_validate o1
   | Escrow_Transfer_Op o1 \<Rightarrow> escrow_transfer_validate L o1
   | Escrow_Dispute_Op o1 \<Rightarrow> escrow_dispute_validate o1
   | Escrow_Release_Op o1 \<Rightarrow> escrow_release_validate o1
   | Escrow_Approve_Op o1 \<Rightarrow> escrow_approve_validate o1
   | Transfer_To_Savings_Op o1 \<Rightarrow> transfer_to_savings_validate L o1
   | Transfer_From_Savings_Op o1 \<Rightarrow> transfer_from_savings_validate L o1
   | Cancel_Transfer_From_Savings_Op o1 \<Rightarrow> cancel_transfer_from_savings_validate o1
   | Custom_Binary_Op o1 \<Rightarrow> custom_binary_validate o1
   | Decline_Voting_Rights_Op o1 \<Rightarrow> decline_voting_rights_validate o1
   | Reset_Account_Op o1 \<Rightarrow> reset_account_validate o1
   | Set_Reset_Account_Op o1 \<Rightarrow> set_reset_account_validate o1
   | Delegate_Vesting_Shares_Op o1 \<Rightarrow> delegate_vesting_shares_validate o1
   | Account_Create_With_Delegation_Op o1 \<Rightarrow> account_create_with_delegation_validate L o1
   | Account_Metadata_Op o1 \<Rightarrow> account_metadata_validate L o1
   | Chain_Properties_Update_Op o1 \<Rightarrow> chain_properties_update_validate o1
   | Break_Free_Referral_Op o1 \<Rightarrow> break_free_referral_validate o1
   | Delegate_Vesting_Shares_With_Interest_Op o1 \<Rightarrow> delegate_vesting_shares_with_interest_validate o1
   | Reject_Vesting_Shares_Delegation_Op o1 \<Rightarrow> reject_vesting_shares_delegation_validate o1
   | Transit_To_Cyberway_Op o1 \<Rightarrow> transit_to_cyberway_validate o1
   | Claim_Op o1 \<Rightarrow> claim_validate o1
   | Donate_Op o1 \<Rightarrow> donate_validate o1
   | Transfer_To_Tip_Op o1 \<Rightarrow> transfer_to_tip_validate L o1
   | Transfer_From_Tip_Op o1 \<Rightarrow> transfer_from_tip_validate L o1
   | Invite_Op o1 \<Rightarrow> invite_validate o1
   | Invite_Claim_Op o1 \<Rightarrow> invite_claim_validate L o1
   | Account_Create_With_Invite_Op o1 \<Rightarrow> account_create_with_invite_validate L o1
   | Asset_Create_Op o1 \<Rightarrow> asset_create_validate L o1
   | Asset_Update_Op o1 \<Rightarrow> asset_update_validate o1
   | Asset_Issue_Op o1 \<Rightarrow> asset_issue_validate o1
   | Asset_Transfer_Op o1 \<Rightarrow> asset_transfer_validate o1
   | Override_Transfer_Op o1 \<Rightarrow> override_transfer_validate L o1
   | Invite_Donate_Op o1 \<Rightarrow> invite_donate_validate L o1
   | Invite_Transfer_Op o1 \<Rightarrow> invite_transfer_validate L o1
   | Limit_Order_Cancel_Ex_Op o1 \<Rightarrow> limit_order_cancel_ex_validate o1
   | Account_Setup_Op o1 \<Rightarrow> account_setup_validate o1)"

definition required_active :: "operation \<Rightarrow> account_name list" where
  "required_active op = (case op of
     Transfer_Op o1 \<Rightarrow> (if symbol (tra_amount o1) \<noteq> VESTS_SYMBOL then [tra_from o1] else [])
   | Transfer_To_Vesting_Op o1 \<Rightarrow> [trv_from o1]
   | Withdraw_Vesting_Op o1 \<Rightarrow> [wdv_account o1]
   | Limit_Order_Create_Op o1 \<Rightarrow> [loc_owner o1]
   | Limit_Order_Cancel_Op o1 \<Rightarrow> [lca_owner o1]
   | Feed_Publish_Op o1 \<Rightarrow> [fp_publisher o1]
   | Convert_Op o1 \<Rightarrow> [cv_owner o1]
   | Account_Create_Op o1 \<Rightarrow> [acr_creator o1]
   | Account_Update_Op o1 \<Rightarrow> (if aup_owner o1 = None then [aup_account o1] else [])
   | Witness_Update_Op o1 \<Rightarrow> [wu_owner o1]
   | Account_Witness_Vote_Op o1 \<Rightarrow> [awv_account o1]
   | Account_Witness_Proxy_Op o1 \<Rightarrow> [awp_account o1]
   | Custom_Op o1 \<Rightarrow> cu_required_auths o1
   | Custom_Json_Op o1 \<Rightarrow> cj_required_auths o1
   | Set_Withdraw_Vesting_Route_Op o1 \<Rightarrow> [wvr_from_account o1]
   | Limit_Order_Create2_Op o1 \<Rightarrow> [lo2_owner o1]
   | Challenge_Authority_Op o1 \<Rightarrow> [cha_challenger o1]
   | Prove_Authority_Op o1 \<Rightarrow> (if \<not> pra_require_owner o1 then [pra_challenged o1] else [])
   | Request_Account_Recovery_Op o1 \<Rightarrow> [rar_recovery_account o1]
   | Escrow_Transfer_Op o1 \<Rightarrow> [et_from o1]
   | Escrow_Dispute_Op o1 \<Rightarrow> [ed_who o1]
   | Escrow_Release_Op o1 \<Rightarrow> [er_who o1]
   | Escrow_Approve_Op o1 \<Rightarrow> [ea_who o1]
   | Transfer_To_Savings_Op o1 \<Rightarrow> [tts_from o1]
   | Transfer_From_Savings_Op o1 \<Rightarrow> [tfs_from o1]
   | Cancel_Transfer_From_Savings_Op o1 \<Rightarrow> [cts_from o1]
   | Custom_Binary_Op o1 \<Rightarrow> cb_required_active_auths o1
   | Reset_Account_Op o1 \<Rightarrow> [rsa_reset_account o1]
   | Delegate_Vesting_Shares_Op o1 \<Rightarrow> [dvs_delegator o1]
   | Account_Create_With_Delegation_Op o1 \<Rightarrow> [acd_creator o1]
   | Chain_Properties_Update_Op o1 \<Rightarrow> [cpu_owner o1]
   | Break_Free_Referral_Op o1 \<Rightarrow> [bfr_referral o1]
   | Delegate_Vesting_Shares_With_Interest_Op o1 \<Rightarrow> [dvi_delegator o1]
   | Reject_Vesting_Shares_Delegation_Op o1 \<Rightarrow> [rvd_delegatee o1]
   | Transit_To_Cyberway_Op o1 \<Rightarrow> [ttc_owner o1]
   | Transfer_To_Tip_Op o1 \<Rightarrow> [ttt_from o1]
   | Transfer_From_Tip_Op o1 \<Rightarrow> [tft_from o1]
   | Invite_Op o1 \<Rightarrow> [inv_creator o1]
   | Invite_Claim_Op o1 \<Rightarrow> [icl_initiator o1]
   | Account_Create_With_Invite_Op o1 \<Rightarrow> [aci_creator o1]
   | Asset_Create_Op o1 \<Rightarrow> [asc_creator o1]
   | Asset_Update_Op o1 \<Rightarrow> [asu_creator o1]
   | Asset_Issue_Op o1 \<Rightarrow> [asi_creator o1]
   | Asset_Transfer_Op o1 \<Rightarrow> [ast_op_creator o1]
   | Override_Transfer_Op o1 \<Rightarrow> [ovt_creator o1]
   | Invite_Donate_Op o1 \<Rightarrow> [idn_from o1]
   | Limit_Order_Cancel_Ex_Op o1 \<Rightarrow> [lcx_owner o1]
   | _ \<Rightarrow> [])"

definition required_owner :: "operation \<Rightarrow> account_name list" where
  "required_owner op = (case op of
     Transfer_Op o1 \<Rightarrow> (if symbol (tra_amount o1) = VESTS_SYMBOL then [tra_from o1] else [])
   | Account_Update_Op o1 \<Rightarrow> (if aup_owner o1 \<noteq> None then [aup_account o1] else [])
   | Prove_Authority_Op o1 \<Rightarrow> (if pra_require_owner o1 then [pra_challenged o1] else [])
   | Change_Recovery_Account_Op o1 \<Rightarrow> [cra_account_to_recover o1]
   | Custom_Binary_Op o1 \<Rightarrow> cb_required_owner_auths o1
   | Decline_Voting_Rights_Op o1 \<Rightarrow> [dvr_account o1]
   | Set_Reset_Account_Op o1 \<Rightarrow> (if sra_current_reset_account o1 \<noteq> [] then [sra_account o1] else [])
   | _ \<Rightarrow> [])"

definition required_posting :: "operation \<Rightarrow> account_name list" where
  "required_posting op = (case op of
     Vote_Op o1 \<Rightarrow> [vot_voter o1]
   | Comment_Op o1 \<Rightarrow> [com_author o1]
   | Delete_Comment_Op o1 \<Rightarrow> [dco_author o1]
   | Custom_Json_Op o1 \<Rightarrow> cj_required_posting_auths o1
   | Comment_Options_Op o1 \<Rightarrow> [cop_author o1]
   | Custom_Binary_Op o1 \<Rightarrow> cb_required_posting_auths o1
   | Set_Reset_Account_Op o1 \<Rightarrow> (if sra_current_reset_account o1 = [] then [sra_account o1] else [])
   | Account_Metadata_Op o1 \<Rightarrow> [ame_account o1]
   | Claim_Op o1 \<Rightarrow> [cl_from o1]
   | Donate_Op o1 \<Rightarrow> [dn_from o1]
   | Account_Setup_Op o1 \<Rightarrow> [ase_account o1]
   | _ \<Rightarrow> [])"

definition required_other :: "operation \<Rightarrow> authority_data list" where
  "required_other op = (case op of
     Recover_Account_Op o1 \<Rightarrow> [rea_new_owner_authority o1, rea_recent_owner_authority o1]
   | Custom_Binary_Op o1 \<Rightarrow> cb_required_auths o1
   | Invite_Transfer_Op o1 \<Rightarrow> [add_key_authority (itr_from o1) 1 \<lparr>weight_threshold = 1, account_auths = [], key_auths = []\<rparr>]
   | _ \<Rightarrow> [])"


section \<open>Transactions\<close>

record transaction =
  tx_ref_block_num :: "16 word"
  tx_ref_block_prefix :: nat
  tx_expiration :: int
  tx_operations :: "operation list"

fun validate_operations :: "(operation \<Rightarrow> unit result) \<Rightarrow> nat \<Rightarrow> operation list \<Rightarrow> unit result" where
  "validate_operations v i [] = Inr ()"
| "validate_operations v i (op # ops) = (case v op of
     Inl e \<Rightarrow> Inl (Tx_Invalid_Operation i e)
   | Inr _ \<Rightarrow> validate_operations v (Suc i) ops)"

definition transaction_validate ::
  "text_lib \<Rightarrow> (account_name \<Rightarrow> 8 word list) \<Rightarrow> 'a transaction_scheme \<Rightarrow> unit result" where
  "transaction_validate L mem tx =
     rbind (check (0 < length (tx_operations tx)) Transaction_Exception) (\<lambda>_.
     validate_operations (operation_validate L mem) 0 (tx_operations tx))"

definition set_expiration :: "int \<Rightarrow> 'a transaction_scheme \<Rightarrow> 'a transaction_scheme" where
  "set_expiration e tx = tx\<lparr>tx_expiration := e\<rparr>"

text \<open>The number of the block is stored in 16 bits; the prefix is the next word of the block id.\<close>

definition set_reference_block ::
  "(block_id_type \<Rightarrow> nat) \<Rightarrow> block_id_type \<Rightarrow> 'a transaction_scheme \<Rightarrow> 'a transaction_scheme" where
  "set_reference_block second_word i tx =
     tx\<lparr>tx_ref_block_num := ucast (num_from_id i), tx_ref_block_prefix := second_word i\<rparr>"

record required_authorities =
  req_active :: "account_name list"
  req_owner :: "account_name list"
  req_posting :: "account_name list"
  req_other :: "authority_data list"

definition get_required_authorities ::
  "(account_name list \<Rightarrow> account_name list) \<Rightarrow> operation list \<Rightarrow> required_authorities" where
  "get_required_authorities fset ops =
     \<lparr>req_active = fset (concat (map required_active ops)),
      req_owner = fset (concat (map required_owner ops)),
      req_posting = fset (concat (map required_posting ops)),
      req_other = concat (map required_other ops)\<rparr>"

record authority_getters =
  get_active :: "account_name \<Rightarrow> authority_data"
  get_owner :: "account_name \<Rightarrow> authority_data"
  get_posting :: "account_name \<Rightarrow> authority_data"

definition verify_operations :: "(account_name list \<Rightarrow> account_name list) \<Rightarrow> authority_getters \<Rightarrow> nat
    \<Rightarrow> operation list \<Rightarrow> public_key list \<Rightarrow> unit result" where
  "verify_operations fset G depth ops sigs =
    (let r = get_required_authorities fset ops in
     verify_authority (get_active G) (get_owner G) (get_posting G) depth sigs
       (req_active r) (req_owner r) (req_posting r) (req_other r) [] [] [])"

section \<open>Signatures\<close>

record 'sig signed_transaction = transaction +
  tx_signatures :: "'sig list"

fun signature_keys :: "('sig \<Rightarrow> public_key) \<Rightarrow> 'sig list \<Rightarrow> public_key list \<Rightarrow> public_key list result" where
  "signature_keys recover [] ks = Inr ks"
| "signature_keys recover (s # ss) ks =
     (if recover s \<in> set ks then Inl Tx_Duplicate_Sig else signature_keys recover ss (ks @ [recover s]))"

definition get_signature_keys :: "('sig \<Rightarrow> public_key) \<Rightarrow> 'sig signed_transaction \<Rightarrow> public_key list result" where
  "get_signature_keys recover tx = signature_keys recover (tx_signatures tx) []"

definition tx_verify_authority :: "(account_name list \<Rightarrow> account_name list) \<Rightarrow> ('sig \<Rightarrow> public_key)
    \<Rightarrow> authority_getters \<Rightarrow> nat \<Rightarrow> 'sig signed_transaction \<Rightarrow> unit result" where
  "tx_verify_authority fset recover G depth tx =
     rbind (get_signature_keys recover tx) (verify_operations fset G depth (tx_operations tx))"

text \<open>The keys among the available ones that the checks used.\<close>

definition used_available :: "(public_key list \<Rightarrow> public_key list) \<Rightarrow> public_key list \<Rightarrow> sign_state \<Rightarrow> public_key list" where
  "used_available kset avail s = kset (
     filter (\<lambda>k. k \<in> set avail) (map fst (ss_provided (snd (remove_unused_signatures s)))))"

definition get_required_signatures :: "(account_name list \<Rightarrow> account_name list) \<Rightarrow> (public_key list \<Rightarrow> public_key list) \<Rightarrow> ('sig \<Rightarrow> public_key)
    \<Rightarrow> public_key list \<Rightarrow> authority_getters \<Rightarrow> nat \<Rightarrow> 'sig signed_transaction \<Rightarrow> public_key list result" where
  "get_required_signatures fset kset recover avail G depth tx =
    (let r = get_required_authorities fset (tx_operations tx) in
     rbind (get_signature_keys recover tx) (\<lambda>sigs.
     if req_posting r \<noteq> [] then
       rbind (check_logic ''tx_with_both_posting_active_ops'' (req_active r = [] \<and> req_owner r = [])) (\<lambda>_.
       Inr (used_available kset avail (snd (check_each (check_authority_account depth (get_posting G) avail)
         (req_posting r) (new_sign_state sigs)))))
     else
       let s1 = snd (check_each (check_authority depth (get_active G) avail) (req_other r) (new_sign_state sigs));
           s2 = snd (check_each (\<lambda>n. check_authority depth (get_active G) avail (get_owner G n)) (req_owner r) s1);
           s3 = snd (check_each (check_authority_account depth (get_active G) avail) (req_active r) s2)
       in Inr (used_available kset avail s3)))"

text \<open>
  \<open>kept @ ks\<close> is the set \<open>result\<close> of the source in its order, after the keys tried so far were
  erased or put back.
\<close>

fun minimize_keys :: "(public_key list \<Rightarrow> unit result) \<Rightarrow> public_key list \<Rightarrow> public_key list \<Rightarrow> public_key list result" where
  "minimize_keys verify kept [] = Inr kept"
| "minimize_keys verify kept (k # ks) = (case verify (kept @ ks) of
     Inr _ \<Rightarrow> minimize_keys verify kept ks
   | Inl (Tx_Missing_Auth _) \<Rightarrow> minimize_keys verify (kept @ [k]) ks
   | Inl e \<Rightarrow> Inl e)"

definition minimize_required_signatures :: "(account_name list \<Rightarrow> account_name list) \<Rightarrow> (public_key list \<Rightarrow> public_key list) \<Rightarrow> ('sig \<Rightarrow> public_key)
    \<Rightarrow> public_key list \<Rightarrow> authority_getters \<Rightarrow> nat \<Rightarrow> 'sig signed_transaction \<Rightarrow> public_key list result" where
  "minimize_required_signatures fset kset recover avail G depth tx =
     rbind (get_required_signatures fset kset recover avail G depth tx)
       (minimize_keys (verify_operations fset G depth (tx_operations tx)) [])"

section \<open>Validation\<close>

lemma validate_operations_Inr:
  "validate_operations v i ops = Inr u \<longleftrightarrow> (\<forall>op \<in> set ops. v op = Inr ())"
  by (induction ops arbitrary: i) (auto split: sum.splits)

lemma validate_operations_Inl:
  "validate_operations v i ops = Inl err \<longleftrightarrow>
     (\<exists>j e. j < length ops \<and> (\<forall>k < j. v (ops ! k) = Inr ()) \<and> v (ops ! j) = Inl e \<and> err = Tx_Invalid_Operation (i + j) e)"
proof (induction ops arbitrary: i)
  case (Cons op ops)
  show ?case
  proof (cases "v op")
    case (Inl e)
    have "j = 0" if "\<forall>k < j. v ((op # ops) ! k) = Inr ()" for j
      using that Inl by (cases j) auto
    then show ?thesis using Inl by force
  next
    case (Inr u)
    have "(\<exists>j e. j < length ops \<and> (\<forall>k < j. v (ops ! k) = Inr ()) \<and> v (ops ! j) = Inl e \<and> err = Tx_Invalid_Operation (Suc i + j) e)
      \<longleftrightarrow> (\<exists>j e. j < length (op # ops) \<and> (\<forall>k < j. v ((op # ops) ! k) = Inr ()) \<and> v ((op # ops) ! j) = Inl e
            \<and> err = Tx_Invalid_Operation (i + j) e)" (is "?l \<longleftrightarrow> ?r")
    proof
      assume ?l
      then obtain j e where "j < length ops" "\<forall>k < j. v (ops ! k) = Inr ()" "v (ops ! j) = Inl e"
        "err = Tx_Invalid_Operation (Suc i + j) e" by blast
      then show ?r using Inr by (intro exI [of _ "Suc j"]) (auto simp: less_Suc_eq_0_disj)
    next
      assume ?r
      then obtain j e where j: "j < length (op # ops)" "\<forall>k < j. v ((op # ops) ! k) = Inr ()" "v ((op # ops) ! j) = Inl e"
        "err = Tx_Invalid_Operation (i + j) e" by blast
      then obtain j' where "j = Suc j'" using Inr by (cases j) auto
      with j show ?l by (intro exI [of _ j'] exI [of _ e]) auto
    qed
    then show ?thesis using Inr Cons.IH [of "Suc i"] by simp
  qed
qed simp

lemma checks_mem: "checks ms = Inr u \<Longrightarrow> m \<in> set ms \<Longrightarrow> m = Inr ()"
  by (simp add: checks_Inr)

lemma custom_requires:
  "custom_validate o1 = Inr () \<Longrightarrow> cu_required_auths o1 \<noteq> []"
  "custom_json_validate L o2 = Inr () \<Longrightarrow> cj_required_auths o2 \<noteq> [] \<or> cj_required_posting_auths o2 \<noteq> []"
  "custom_binary_validate o3 = Inr () \<Longrightarrow> cb_required_owner_auths o3 \<noteq> [] \<or> cb_required_active_auths o3 \<noteq> []
     \<or> cb_required_posting_auths o3 \<noteq> []"
  by (auto simp: custom_validate_def custom_json_validate_def custom_binary_validate_def)

lemma validated_requires:
  assumes "operation_validate L mem op = Inr ()"
  shows "required_active op \<noteq> [] \<or> required_owner op \<noteq> [] \<or> required_posting op \<noteq> [] \<or> required_other op \<noteq> []"
  using assms custom_requires
  by (cases op) (auto simp: operation_validate_def required_active_def required_owner_def required_posting_def required_other_def)

lemma minimize_keys_sound:
  assumes "minimize_keys verify kept ks = Inr r" "verify (kept @ ks) = Inr ()"
  shows "verify r = Inr () \<and> set r \<subseteq> set kept \<union> set ks"
  using assms
proof (induction verify kept ks rule: minimize_keys.induct)
  case (2 verify kept k ks)
  show ?case
  proof (cases "verify (kept @ ks)")
    case (Inr u)
    then show ?thesis using 2 by auto
  next
    case (Inl e)
    then show ?thesis using 2 by (cases e) auto
  qed
qed simp

lemma signature_keys_set: "signature_keys recover ss ks = Inr r \<Longrightarrow> set r = set ks \<union> recover ` set ss"
  by (induction ss arbitrary: ks) (auto split: if_splits)

text \<open>
  C18. \<open>transaction::validate\<close> succeeds exactly on a non-empty list of valid operations, and
  otherwise reports the first operation that fails, by its position, with that operation's error.
\<close>

theorem transaction_validate_outcome:
  "(transaction_validate L mem tx = Inr () \<longleftrightarrow>
      tx_operations tx \<noteq> [] \<and> (\<forall>op \<in> set (tx_operations tx). operation_validate L mem op = Inr ()))
   \<and> (transaction_validate L mem tx = Inl (Tx_Invalid_Operation j e) \<longleftrightarrow>
      j < length (tx_operations tx) \<and> operation_validate L mem (tx_operations tx ! j) = Inl e
        \<and> (\<forall>k < j. operation_validate L mem (tx_operations tx ! k) = Inr ()))"
proof (cases "tx_operations tx = []")
  case False
  then have "transaction_validate L mem tx = validate_operations (operation_validate L mem) 0 (tx_operations tx)"
    by (simp add: transaction_validate_def)
  with False show ?thesis by (auto simp: validate_operations_Inr validate_operations_Inl)
qed (simp add: transaction_validate_def)

definition plain_text :: text_lib where
  "plain_text = \<lparr>is_utf8 = \<lambda>_. True, json_is_valid = \<lambda>_. True, wif_to_key = \<lambda>_. True\<rparr>"

definition demo_transfer :: "account_name \<Rightarrow> int \<Rightarrow> operation" where
  "demo_transfer n x = Transfer_Op \<lparr>tra_from = n, tra_to = ''bob'', tra_amount = mk_asset x STEEM_SYMBOL, tra_memo = []\<rparr>"

definition demo_tx :: "operation list \<Rightarrow> string list \<Rightarrow> string signed_transaction" where
  "demo_tx ops sigs = \<lparr>tx_ref_block_num = 0, tx_ref_block_prefix = 0, tx_expiration = 0,
     tx_operations = ops, tx_signatures = sigs\<rparr>"

lemma valid_names: "is_valid_account_name ''alice''" "is_valid_account_name ''bob''" "\<not> is_valid_account_name ''x''"
  by code_simp+

lemma STEEM_not_VESTS: "STEEM_SYMBOL \<noteq> VESTS_SYMBOL"
  by (simp add: STEEM_SYMBOL_def VESTS_SYMBOL_def)

lemma demo_transfer_validate:
  "operation_validate plain_text mem (demo_transfer ''alice'' x) =
     (if 0 < x then Inr () else Inl (Invalid_Parameter ''amount''))"
  by (simp add: operation_validate_def demo_transfer_def transfer_validate_def check_param_account_def
      validate_account_name_def valid_names STEEM_not_VESTS plain_text_def STEEMIT_MAX_MEMO_SIZE_def)

theorem transaction_validate_outcome_witness:
  "transaction_validate plain_text (\<lambda>_. []) (demo_tx [demo_transfer ''alice'' 5, demo_transfer ''alice'' 0] [])
     = Inl (Tx_Invalid_Operation 1 (Invalid_Parameter ''amount''))"
  using transaction_validate_outcome [of plain_text "\<lambda>_. []"
      "demo_tx [demo_transfer ''alice'' 5, demo_transfer ''alice'' 0] []" 1 "Invalid_Parameter ''amount''"]
  by (simp add: demo_tx_def demo_transfer_validate)

text \<open>
  Every operation that passes validation requires an authority: some account's active, owner
  or posting authority or an authority it carries itself, so no valid operation can be submitted
  unsigned.
\<close>

theorem valid_operation_requires_authority:
  assumes "operation_validate L mem op = Inr ()"
  shows "required_active op \<noteq> [] \<or> required_owner op \<noteq> [] \<or> required_posting op \<noteq> [] \<or> required_other op \<noteq> []"
  using assms by (rule validated_requires)

theorem valid_operation_requires_authority_witness:
  "operation_validate plain_text (\<lambda>_. []) (demo_transfer ''alice'' 5) = Inr ()
     \<and> required_active (demo_transfer ''alice'' 5) \<noteq> []"
  using valid_operation_requires_authority [of plain_text "\<lambda>_. []" "demo_transfer ''alice'' 5"]
  by (simp add: demo_transfer_validate)
     (simp add: demo_transfer_def required_active_def required_owner_def required_posting_def required_other_def STEEM_not_VESTS)

text \<open>
  C17. A signed transaction that \<open>verify_authority\<close> accepts is endorsed, by the keys recovered from
  its signatures, for every authority that any of its operations requires: every account whose
  active authority is required is endorsed (or its owner authority is met), every required owner
  authority and every authority carried by an operation is met, and every account whose posting
  authority is required is endorsed through its posting, active or owner authority.
\<close>

theorem accepted_transaction_endorsed:
  assumes "tx_verify_authority fset recover G depth tx = Inr ()"
    and "\<And>xs. set (fset xs) = set xs"
    and "\<And>a. small_auth (get_active G a) \<and> small_auth (get_owner G a) \<and> small_auth (get_posting G a)"
    and "\<And>op auth. op \<in> set (tx_operations tx) \<Longrightarrow> auth \<in> set (required_other op) \<Longrightarrow> small_auth auth"
    and op: "op \<in> set (tx_operations tx)"
  shows "let K = recover ` set (tx_signatures tx);
       A = endorsed K {''temp''} (get_active G);
       O1 = endorsed_owner K {''temp''} (get_active G) (get_owner G) (\<Union>op \<in> set (tx_operations tx). set (required_owner op));
       P = endorsed K {''temp''} (get_posting G)
     in (\<forall>n \<in> set (required_active op). n \<in> A \<or> meets K A (get_owner G n))
      \<and> (\<forall>n \<in> set (required_owner op). meets K O1 (get_owner G n))
      \<and> (\<forall>auth \<in> set (required_other op). meets K A auth)
      \<and> (\<forall>n \<in> set (required_posting op). n \<in> P \<or> meets K P (get_active G n) \<or> meets K P (get_owner G n))"
proof -
  define r where "r = get_required_authorities fset (tx_operations tx)"
  obtain sigs where k: "get_signature_keys recover tx = Inr sigs"
    and v: "verify_authority (get_active G) (get_owner G) (get_posting G) depth sigs
       (req_active r) (req_owner r) (req_posting r) (req_other r) [] [] [] = Inr ()"
    using assms(1) by (auto simp: tx_verify_authority_def verify_operations_def r_def Let_def)
  have K: "recover ` set (tx_signatures tx) = set sigs"
    using signature_keys_set k by (force simp: get_signature_keys_def)
  have ops: "set (required_active op) \<subseteq> set (req_active r)" "set (required_posting op) \<subseteq> set (req_posting r)"
    "set (required_other op) \<subseteq> set (req_other r)" "set (required_owner op) \<subseteq> set (req_owner r)"
    "set (req_owner r) = (\<Union>op \<in> set (tx_operations tx). set (required_owner op))"
    using assms(2) op by (auto simp: r_def get_required_authorities_def)
  have small: "\<And>auth. auth \<in> set (req_other r) \<Longrightarrow> small_auth auth"
    using assms(4) by (auto simp: r_def get_required_authorities_def)
  show ?thesis
  proof (cases "req_posting r = []")
    case True
    from verify_active_sound [OF v [unfolded True]] verify_owner_sound [OF v [unfolded True]] assms(3) small ops True
    show ?thesis unfolding K Let_def by (auto simp: subset_iff)
  next
    case False
    from verify_posting_sound [OF v False] assms(3) ops
    show ?thesis unfolding K Let_def by (auto simp: subset_iff)
  qed
qed

definition demo_getters :: authority_getters where
  "demo_getters = \<lparr>get_active = demo_auth, get_owner = demo_auth, get_posting = demo_auth\<rparr>"

lemmas verify_unfolds = verify_operations_def
      get_required_authorities_def required_active_def required_owner_def required_posting_def required_other_def
      STEEM_not_VESTS demo_getters_def verify_authority_def or_check_def check_authority_account_def check_authority_with_def
      demo_auth_def new_sign_state_def add_approvals_def signed_by_def flat_map_set_def table_defs
      assert_unused_approvals_def remove_unused_signatures_def filter_unused_approvals_def check_authority_two Let_def word_le_nat_alt

lemma demo_tx_accepted:
  "tx_verify_authority remdups (\<lambda>s. s) demo_getters 2 (demo_tx [demo_transfer ''alice'' 5] [''KA'']) = Inr ()"
  by (simp add: tx_verify_authority_def get_signature_keys_def demo_tx_def demo_transfer_def verify_unfolds)

theorem accepted_transaction_endorsed_witness:
  "tx_verify_authority remdups (\<lambda>s. s) demo_getters 2 (demo_tx [demo_transfer ''alice'' 5] [''KA'']) = Inr ()
     \<and> (let E = endorsed {''KA''} {''temp''} demo_auth in ''alice'' \<in> E \<or> meets {''KA''} E (demo_auth ''alice''))"
  using demo_tx_accepted accepted_transaction_endorsed [OF demo_tx_accepted, of "demo_transfer ''alice'' 5"] demo_auth_small
  by (auto simp: demo_tx_def demo_transfer_def demo_getters_def required_active_def required_owner_def
      required_posting_def required_other_def STEEM_not_VESTS Let_def)



end
