(* ===== verification/Savings.thy ===== *)
theory Savings
  imports Ledger_Demo Operations
begin

text \<open>
  Savings: the evaluators of \<^verbatim>\<open>steem_evaluator.cpp\<close> that move money into savings, start and cancel
  a withdrawal, and \<open>database::process_savings_withdraws\<close>, which pays out the withdrawals that are
  due. The lemmas show that every step conserves money and keeps the counter
  \<open>savings_withdraw_requests\<close>, an 8-bit field that is incremented and decremented without a check,
  equal to the number of pending withdrawals of the account, and that the maintenance loop leaves
  exactly the withdrawals that are not due. The order of account names in the index is a parameter.
\<close>

section \<open>Operations\<close>

definition STEEMIT_SAVINGS_WITHDRAW_TIME :: int where
  "STEEMIT_SAVINGS_WITHDRAW_TIME = 60 * 60 * 24 * 3"

definition STEEMIT_SAVINGS_WITHDRAW_REQUEST_LIMIT :: nat where
  "STEEMIT_SAVINGS_WITHDRAW_REQUEST_LIMIT = 100"

definition transfer_to_savings_apply :: "transfer_to_savings_operation \<Rightarrow> database \<Rightarrow> database result" where
  "transfer_to_savings_apply o1 db =
     rbind (get_account (tts_from o1) db) (\<lambda>_.
     rbind (get_account (tts_to o1) db) (\<lambda>_.
     rbind (check_balance (tts_from o1) MAIN_BALANCE (tts_amount o1) db) (\<lambda>_.
     rbind (asset_neg (tts_amount o1)) (\<lambda>m.
     rbind (adjust_balance (tts_from o1) m db)
       (adjust_savings_balance (tts_to o1) (tts_amount o1))))))"

definition new_withdraw :: "transfer_from_savings_operation \<Rightarrow> database \<Rightarrow> savings_withdraw_object" where
  "new_withdraw o1 db = \<lparr>sw_from = tfs_from o1, sw_to = tfs_to o1,
     sw_memo = (if db_store_memo db then tfs_memo o1 else []),
     sw_request_id = tfs_request_id o1, sw_amount = tfs_amount o1,
     sw_complete = head_block_time db + STEEMIT_SAVINGS_WITHDRAW_TIME\<rparr>"

definition transfer_from_savings_apply :: "transfer_from_savings_operation \<Rightarrow> database \<Rightarrow> database result" where
  "transfer_from_savings_apply o1 db =
     rbind (get_account (tfs_from o1) db) (\<lambda>a.
     rbind (get_account (tfs_to o1) db) (\<lambda>_.
     rbind (check_logic ''reached_limit_for_pending_withdraw_requests''
       (unat (acc_savings_withdraw_requests a) < STEEMIT_SAVINGS_WITHDRAW_REQUEST_LIMIT)) (\<lambda>_.
     rbind (check_balance (tfs_from o1) SAVINGS (tfs_amount o1) db) (\<lambda>_.
     rbind (asset_neg (tfs_amount o1)) (\<lambda>m.
     rbind (adjust_savings_balance (tfs_from o1) m db) (\<lambda>db1.
     rbind (throw_if_exists_savings_withdraw (tfs_from o1) (tfs_request_id o1) db1) (\<lambda>_.
     rbind (t_insert (tfs_from o1, tfs_request_id o1) (new_withdraw o1 db1) (db_withdraws db1)) (\<lambda>t.
     modify_account (tfs_from o1)
       (\<lambda>a. Inr (a\<lparr>acc_savings_withdraw_requests := acc_savings_withdraw_requests a + 1\<rparr>))
       (db1\<lparr>db_withdraws := t\<rparr>)))))))))"

definition cancel_transfer_from_savings_apply ::
  "cancel_transfer_from_savings_operation \<Rightarrow> database \<Rightarrow> database result" where
  "cancel_transfer_from_savings_apply o1 db =
     rbind (get_account (cts_from o1) db) (\<lambda>_.
     rbind (get_savings_withdraw (cts_from o1) (cts_request_id o1) db) (\<lambda>swo.
     rbind (adjust_savings_balance (cts_from o1) (sw_amount swo) db) (\<lambda>db1.
     modify_account (cts_from o1)
       (\<lambda>a. Inr (a\<lparr>acc_savings_withdraw_requests := acc_savings_withdraw_requests a - 1\<rparr>))
       (db1\<lparr>db_withdraws := t_remove (cts_from o1, cts_request_id o1) (db_withdraws db1)\<rparr>))))"

text \<open>The index \<open>by_complete_from_rid\<close>, and the body of the maintenance loop.\<close>

definition withdraw_before ::
  "(account_name \<Rightarrow> account_name \<Rightarrow> bool) \<Rightarrow> savings_withdraw_object \<Rightarrow> savings_withdraw_object \<Rightarrow> bool" where
  "withdraw_before name_less a b \<longleftrightarrow> sw_complete a < sw_complete b \<or> sw_complete a = sw_complete b \<and>
     (name_less (sw_from a) (sw_from b) \<or> sw_from a = sw_from b \<and> sw_request_id a < sw_request_id b)"

definition withdraw_due :: "database \<Rightarrow> savings_withdraw_object \<Rightarrow> bool" where
  "withdraw_due db w \<longleftrightarrow> \<not> sw_complete w > head_block_time db"

definition pay_withdraw :: "savings_withdraw_object \<Rightarrow> database \<Rightarrow> database result" where
  "pay_withdraw w db =
     rbind (adjust_balance (sw_to w) (sw_amount w) db) (\<lambda>db1.
     rbind (modify_account (sw_from w)
       (\<lambda>a. Inr (a\<lparr>acc_savings_withdraw_requests := acc_savings_withdraw_requests a - 1\<rparr>)) db1) (\<lambda>db2.
     Inr ((push_log (Fill_Transfer_From_Savings_Op (sw_from w) (sw_to w) (sw_amount w) (sw_request_id w) (sw_memo w)) db2)
       \<lparr>db_withdraws := t_remove (sw_from w, sw_request_id w) (db_withdraws db2)\<rparr>)))"

definition process_savings_withdraws ::
  "(account_name \<Rightarrow> account_name \<Rightarrow> bool) \<Rightarrow> database \<Rightarrow> database result" where
  "process_savings_withdraws name_less db =
     process_due (length (db_withdraws db)) db_withdraws (withdraw_before name_less) withdraw_due pay_withdraw db"

section \<open>Counting the pending withdrawals\<close>

definition pending_withdraws :: "account_name \<Rightarrow> database \<Rightarrow> nat" where
  "pending_withdraws n db = length (filter (\<lambda>r. sw_from (snd r) = n) (db_withdraws db))"

definition withdraws_counted :: "database \<Rightarrow> bool" where
  "withdraws_counted db \<longleftrightarrow> (\<forall>n. pending_withdraws n db \<le> STEEMIT_SAVINGS_WITHDRAW_REQUEST_LIMIT
     \<and> (case t_get n (db_accounts db) of None \<Rightarrow> pending_withdraws n db = 0
        | Some a \<Rightarrow> unat (acc_savings_withdraw_requests a) = pending_withdraws n db))"

lemma withdraws_counted_map: "withdraws_counted db \<longleftrightarrow> (\<forall>n. pending_withdraws n db \<le> STEEMIT_SAVINGS_WITHDRAW_REQUEST_LIMIT
     \<and> (case map_option acc_savings_withdraw_requests (t_get n (db_accounts db)) of
          None \<Rightarrow> pending_withdraws n db = 0 | Some c \<Rightarrow> unat c = pending_withdraws n db))"
  unfolding withdraws_counted_def by (simp add: option.case_eq_if map_option_case)

lemma withdraws_counted_frame:
  assumes "ledger_frame db db'" "withdraws_counted db"
  shows "withdraws_counted db'"
  using assms(2) unfolding withdraws_counted_map pending_withdraws_def ledger_frameD [OF assms(1)] .

lemma pending_frame: "ledger_frame db db' \<Longrightarrow> pending_withdraws n db' = pending_withdraws n db"
  by (simp add: pending_withdraws_def ledger_frameD)

lemma withdraws_countedD:
  assumes "withdraws_counted db" "t_get n (db_accounts db) = Some a"
  shows "unat (acc_savings_withdraw_requests a) = pending_withdraws n db"
    "pending_withdraws n db \<le> STEEMIT_SAVINGS_WITHDRAW_REQUEST_LIMIT"
  using assms(1) [unfolded withdraws_counted_def, rule_format, of n] assms(2) by simp_all

lemma withdraws_counted_same:
  assumes "requests_of db' = requests_of db" "withdraws_counted db"
  shows "withdraws_counted db'"
proof -
  have eqs: "db_withdraws db' = db_withdraws db"
    "\<And>n. map_option acc_savings_withdraw_requests (t_get n (db_accounts db')) = map_option acc_savings_withdraw_requests (t_get n (db_accounts db))"
    using assms(1) by (simp_all add: requests_of_def fun_eq_iff)
  show ?thesis using assms(2) unfolding withdraws_counted_map pending_withdraws_def eqs .
qed

lemma pending_create:
  "pending_withdraws n (db\<lparr>db_withdraws := t_create k w (db_withdraws db)\<rparr>)
     = pending_withdraws n db + (if sw_from w = n then 1 else 0)"
  by (simp add: pending_withdraws_def t_create_def)

lemma length_filter_t_remove:
  assumes "t_wf t" "t_get k t = Some v"
  shows "length (filter (\<lambda>r. P (snd r)) t) = length (filter (\<lambda>r. P (snd r)) (t_remove k t)) + (if P v then 1 else 0)"
  using assms
proof (induction t)
  case (Cons r t)
  obtain k' v' where r: "r = (k', v')" by (cases r)
  show ?case
  proof (cases "k' = k")
    case True
    with Cons.prems r have "v' = v" "k \<notin> fst ` set t" by (auto simp: t_wf_def t_get_def)
    then have "t_remove k t = t" by (simp add: t_remove_absent)
    with True r \<open>v' = v\<close> show ?thesis by (simp add: t_remove_def)
  next
    case False
    with Cons r show ?thesis by (simp add: t_wf_def t_get_def t_remove_def)
  qed
qed (simp add: t_get_def)

lemma pending_remove:
  assumes "t_wf (db_withdraws db)" "t_get k (db_withdraws db) = Some w"
  shows "pending_withdraws n db = pending_withdraws n (db\<lparr>db_withdraws := t_remove k (db_withdraws db)\<rparr>)
     + (if sw_from w = n then 1 else 0)"
  using length_filter_t_remove [OF assms, of "\<lambda>w. sw_from w = n"] by (simp add: pending_withdraws_def)

text \<open>The counter moves with the table: one row and one account.\<close>

definition count_request :: "(8 word \<Rightarrow> 8 word) \<Rightarrow> account_name \<Rightarrow> database \<Rightarrow> database result" where
  "count_request f n = modify_account n
     (\<lambda>a. Inr (a\<lparr>acc_savings_withdraw_requests := f (acc_savings_withdraw_requests a)\<rparr>))"

lemma count_request_Inr:
  "count_request f n db = Inr db' \<longleftrightarrow> (\<exists>a. t_get n (db_accounts db) = Some a \<and>
     db' = set_account n (a\<lparr>acc_savings_withdraw_requests := f (acc_savings_withdraw_requests a)\<rparr>) db)"
  by (simp add: count_request_def set_account_def)

lemma count_request_ledger:
  assumes "count_request f n db = Inr db'" "wf_db db"
  shows "wf_db db'" "gap s db' = gap s db" "db_withdraws db' = db_withdraws db"
    "head_block_time db' = head_block_time db" "db_escrows db' = db_escrows db"
  using assms by (auto simp: count_request_Inr gap_set_account wf_set_account wf_account_at)

lemma counted_after:
  assumes "count_request f n db1 = Inr db2"
    and "map_option acc_savings_withdraw_requests (t_get n (db_accounts db1)) = Some c"
    and "\<And>m. m \<noteq> n \<Longrightarrow> pending_withdraws m db1 = pending_withdraws m db"
    and "\<And>m. map_option acc_savings_withdraw_requests (t_get m (db_accounts db1))
        = map_option acc_savings_withdraw_requests (t_get m (db_accounts db))"
    and "withdraws_counted db" "unat (f c) = pending_withdraws n db1"
    and "pending_withdraws n db1 \<le> STEEMIT_SAVINGS_WITHDRAW_REQUEST_LIMIT"
  shows "withdraws_counted db2"
  unfolding withdraws_counted_map
proof
  fix m
  obtain a where a: "t_get n (db_accounts db1) = Some a" "acc_savings_withdraw_requests a = c"
    and db2: "db2 = set_account n (a\<lparr>acc_savings_withdraw_requests := f c\<rparr>) db1"
    using assms(1,2) by (auto simp: count_request_Inr)
  have p: "pending_withdraws m db2 = pending_withdraws m db1" by (simp add: db2 pending_withdraws_def set_account_def)
  show "pending_withdraws m db2 \<le> STEEMIT_SAVINGS_WITHDRAW_REQUEST_LIMIT \<and>
      (case map_option acc_savings_withdraw_requests (t_get m (db_accounts db2)) of
        None \<Rightarrow> pending_withdraws m db2 = 0 | Some c \<Rightarrow> unat c = pending_withdraws m db2)"
  proof (cases "m = n")
    case True
    with a p assms(6,7) show ?thesis by (simp add: db2 set_account_def t_get_modify)
  next
    case False
    then have "t_get m (db_accounts db2) = t_get m (db_accounts db1)" by (simp add: db2 set_account_def t_get_modify)
    with False p assms(3-5) show ?thesis unfolding withdraws_counted_map by metis
  qed
qed

section \<open>Effect of the operations\<close>

lemma transfer_to_savings_ok:
  assumes "transfer_to_savings_apply o1 db = Inr db'" "wf_db db"
  shows "conserves db db' \<and> ledger_frame db db'"
proof -
  obtain m db1 where 1: "asset_neg (tts_amount o1) = Inr m" "adjust_balance (tts_from o1) m db = Inr db1"
    "adjust_savings_balance (tts_to o1) (tts_amount o1) db1 = Inr db'"
    using assms(1) by (auto simp: transfer_to_savings_apply_def simp del: asset_neg_Inr)
  have "ledger_frame db db'"
    using adjust_balance_frame [OF 1(2)] adjust_savings_balance_frame [OF 1(3)] by (rule ledger_frame_trans)
  then show ?thesis using main_to_savings.move_conserves [OF 1 assms(2)] by (simp add: conserves_def)
qed

lemma transfer_from_savings_ok:
  assumes ap: "transfer_from_savings_apply o1 db = Inr db'" and wf: "wf_db db" "withdraws_counted db"
  shows "conserves db db' \<and> withdraws_counted db' \<and> db_escrows db' = db_escrows db"
proof -
  let ?k = "(tfs_from o1, tfs_request_id o1)"
  obtain a m db1 where a: "t_get (tfs_from o1) (db_accounts db) = Some a"
    and lim: "unat (acc_savings_withdraw_requests a) < STEEMIT_SAVINGS_WITHDRAW_REQUEST_LIMIT"
    and chk: "check_balance (tfs_from o1) SAVINGS (tfs_amount o1) db = Inr ()"
    and m: "asset_neg (tfs_amount o1) = Inr m" and adj: "adjust_savings_balance (tfs_from o1) m db = Inr db1"
    and free: "t_get ?k (db_withdraws db1) = None"
    and cnt: "count_request (\<lambda>c. c + 1) (tfs_from o1)
      (db1\<lparr>db_withdraws := t_create ?k (new_withdraw o1 db1) (db_withdraws db1)\<rparr>) = Inr db'"
    using ap by (auto simp: transfer_from_savings_apply_def throw_if_exists_savings_withdraw_def count_request_def
      simp del: asset_neg_Inr modify_account_Inr)
  let ?w = "new_withdraw o1 db1"
  have w: "sw_from ?w = tfs_from o1" "sw_request_id ?w = tfs_request_id o1" "sw_amount ?w = tfs_amount o1"
    by (simp_all add: new_withdraw_def)
  let ?db2 = "db1\<lparr>db_withdraws := t_create ?k ?w (db_withdraws db1)\<rparr>"
  note fr = adjust_savings_balance_frame [OF adj]
  have sym: "symbol (tfs_amount o1) \<in> {STEEM_SYMBOL, SBD_SYMBOL}"
    using adj m by (auto simp: adjust_savings_balance_def split: if_splits)
  have wf1: "wf_db db1" and gap1: "gap s db1 = gap s db + asset_in s (tfs_amount o1)" for s
    using savings.debit_gap [OF m adj wf(1)] by blast+
  have wf2: "wf_db ?db2" using wf_rows_create(1) [OF wf1 free] w sym by (simp add: wf_withdraw_def)
  have "conserves db db'" unfolding conserves_def
    using count_request_ledger [OF cnt wf2] gap1 by (simp add: gap_withdraws_create w)
  moreover have "withdraws_counted db'"
  proof (rule counted_after [OF cnt _ _ _ withdraws_counted_frame [OF fr wf(2)]])
    show "map_option acc_savings_withdraw_requests (t_get (tfs_from o1) (db_accounts ?db2)) = Some (acc_savings_withdraw_requests a)"
      using ledger_frameD(11) [OF fr, of "tfs_from o1"] a by simp
    have c: "pending_withdraws (tfs_from o1) db1 = unat (acc_savings_withdraw_requests a)"
      using withdraws_countedD(1) [OF wf(2) a] by (simp add: pending_frame [OF fr])
    show "unat (acc_savings_withdraw_requests a + 1) = pending_withdraws (tfs_from o1) ?db2"
      using lim c by (simp add: pending_create w STEEMIT_SAVINGS_WITHDRAW_REQUEST_LIMIT_def unat_word_ariths)
    show "pending_withdraws (tfs_from o1) ?db2 \<le> STEEMIT_SAVINGS_WITHDRAW_REQUEST_LIMIT"
      using lim c by (simp add: pending_create w)
  qed (simp_all add: pending_create w)
  ultimately show ?thesis using count_request_ledger(5) [OF cnt wf2] by (simp add: ledger_frameD [OF fr])
qed

text \<open>Cancelling and paying out both drop one row and count it off.\<close>

lemma drop_withdraw_ok:
  assumes cnt: "count_request (\<lambda>c. c - 1) (sw_from w) db1 = Inr db2" and wf: "wf_db db1" "withdraws_counted db1"
    and row: "t_get k (db_withdraws db1) = Some w"
  shows "wf_db (db2\<lparr>db_withdraws := t_remove k (db_withdraws db2)\<rparr>)
    \<and> withdraws_counted (db2\<lparr>db_withdraws := t_remove k (db_withdraws db2)\<rparr>)
    \<and> gap s (db2\<lparr>db_withdraws := t_remove k (db_withdraws db2)\<rparr>) = gap s db1 + asset_in s (sw_amount w)"
proof -
  let ?n = "sw_from w" and ?db1 = "db1\<lparr>db_withdraws := t_remove k (db_withdraws db1)\<rparr>"
  obtain a where a: "t_get ?n (db_accounts db1) = Some a"
    and db2: "db2 = set_account ?n (a\<lparr>acc_savings_withdraw_requests := acc_savings_withdraw_requests a - 1\<rparr>) db1"
    using cnt by (auto simp: count_request_Inr)
  note L = count_request_ledger [OF cnt wf(1)]
  have pend: "pending_withdraws m db1 = pending_withdraws m ?db1 + (if ?n = m then 1 else 0)" for m
    using pending_remove [OF _ row] wf(1) by (simp add: wf_db_def)
  have c: "unat (acc_savings_withdraw_requests a) = pending_withdraws ?n db1" "pending_withdraws ?n db1 \<le> STEEMIT_SAVINGS_WITHDRAW_REQUEST_LIMIT"
    using withdraws_countedD [OF wf(2) a] by simp_all
  have "count_request (\<lambda>c. c - 1) ?n ?db1 = Inr (db2\<lparr>db_withdraws := t_remove k (db_withdraws db2)\<rparr>)"
    using a by (simp add: count_request_Inr db2 set_account_def)
  then have "withdraws_counted (db2\<lparr>db_withdraws := t_remove k (db_withdraws db2)\<rparr>)"
  proof (rule counted_after [OF _ _ _ _ wf(2)])
    show "map_option acc_savings_withdraw_requests (t_get ?n (db_accounts ?db1)) = Some (acc_savings_withdraw_requests a)"
      using a by simp
    have "0 < unat (acc_savings_withdraw_requests a)" using c pend [of ?n] by simp
    then have "unat (acc_savings_withdraw_requests a - 1) = unat (acc_savings_withdraw_requests a) - 1"
      by (metis One_nat_def Suc_leI unat_1 unat_sub word_le_nat_alt)
    then show "unat (acc_savings_withdraw_requests a - 1) = pending_withdraws ?n ?db1"
      using c pend [of ?n] by simp
    show "pending_withdraws ?n ?db1 \<le> STEEMIT_SAVINGS_WITHDRAW_REQUEST_LIMIT" using c pend [of ?n] by simp
  qed (use pend in simp_all)
  then show ?thesis using L row gap_withdraws [OF L(1), of k w s] wf_rows_remove(1) [OF L(1), of k] by simp
qed

lemma cancel_transfer_from_savings_ok:
  assumes ap: "cancel_transfer_from_savings_apply o1 db = Inr db'" and wf: "wf_db db" "withdraws_counted db"
  shows "conserves db db' \<and> withdraws_counted db' \<and> db_escrows db' = db_escrows db"
proof -
  let ?k = "(cts_from o1, cts_request_id o1)"
  obtain w db1 where w: "t_get ?k (db_withdraws db) = Some w"
    and adj: "adjust_savings_balance (cts_from o1) (sw_amount w) db = Inr db1"
    and cnt: "count_request (\<lambda>c. c - 1) (cts_from o1) (db1\<lparr>db_withdraws := t_remove ?k (db_withdraws db1)\<rparr>) = Inr db'"
    using ap by (auto simp: cancel_transfer_from_savings_apply_def count_request_def simp del: modify_account_Inr)
  note fr = adjust_savings_balance_frame [OF adj]
  have own: "sw_from w = cts_from o1" using wf_withdraw_at [OF wf(1) w] by (simp add: wf_withdraw_def)
  from cnt obtain db2 where c1: "count_request (\<lambda>c. c - 1) (sw_from w) db1 = Inr db2"
    and db': "db' = db2\<lparr>db_withdraws := t_remove ?k (db_withdraws db2)\<rparr>"
    by (auto simp: count_request_Inr own set_account_def)
  have row: "t_get ?k (db_withdraws db1) = Some w" using w by (simp add: ledger_frameD [OF fr])
  note S = savings.credit_both [OF adj wf(1)]
  have "db_escrows db' = db_escrows db"
    using count_request_ledger(5) [OF c1 conjunct1 [OF S]] by (simp add: db' ledger_frameD [OF fr])
  with drop_withdraw_ok [OF c1 _ withdraws_counted_frame [OF fr wf(2)] row] S show ?thesis
    unfolding db' conserves_def by simp
qed

lemma pay_withdraw_ok:
  assumes ap: "pay_withdraw w db = Inr db'" and wf: "wf_db db" "withdraws_counted db"
    and row: "t_get k (db_withdraws db) = Some w"
  shows "conserves db db' \<and> withdraws_counted db' \<and> db_withdraws db' = t_remove k (db_withdraws db)
    \<and> head_block_time db' = head_block_time db \<and> db_escrows db' = db_escrows db"
proof -
  let ?ev = "Fill_Transfer_From_Savings_Op (sw_from w) (sw_to w) (sw_amount w) (sw_request_id w) (sw_memo w)"
  have k: "k = (sw_from w, sw_request_id w)" using wf_withdraw_at [OF wf(1) row] by (simp add: wf_withdraw_def)
  obtain db1 db2 where adj: "adjust_balance (sw_to w) (sw_amount w) db = Inr db1"
    and cnt: "count_request (\<lambda>c. c - 1) (sw_from w) db1 = Inr db2"
    and db': "db' = push_log ?ev (db2\<lparr>db_withdraws := t_remove k (db_withdraws db2)\<rparr>)"
    using ap by (auto simp: pay_withdraw_def count_request_def k push_log_def simp del: modify_account_Inr)
  note fr = adjust_balance_frame [OF adj]
  have row1: "t_get k (db_withdraws db1) = Some w" using row by (simp add: ledger_frameD [OF fr])
  note L = main.credit_both [OF adj wf(1)]
  note D = drop_withdraw_ok [OF cnt _ withdraws_counted_frame [OF fr wf(2)] row1]
  note C = count_request_ledger [OF cnt]
  have "withdraws_counted db'" using D L withdraws_counted_frame [OF frame_push_log] unfolding db' by blast
  moreover have "conserves db db'" using D L unfolding db' conserves_def by simp
  ultimately show ?thesis using C L by (simp add: db' push_log_def ledger_frameD [OF fr])
qed

text \<open>The maintenance loop is an instance of the queue: its invariant is a well-formed state with
  the gaps and the escrows of the start and counted withdrawals.\<close>

definition savings_inv :: "database \<Rightarrow> database \<Rightarrow> bool" where
  "savings_inv db0 db \<longleftrightarrow> wf_db db \<and> (\<forall>s. gap s db = gap s db0) \<and> withdraws_counted db
     \<and> db_escrows db = db_escrows db0"

interpretation withdraw_queue: due_loop db_withdraws "withdraw_before name_less" withdraw_due pay_withdraw "savings_inv g"
  for name_less g
proof unfold_locales
  fix db a b
  assume "withdraw_due db b" "\<not> withdraw_due db a"
  then show "withdraw_before name_less b a \<and> \<not> withdraw_before name_less a b"
    by (auto simp: withdraw_due_def withdraw_before_def)
next
  fix db k v db'
  assume "savings_inv g db" "t_get k (db_withdraws db) = Some v" "pay_withdraw v db = Inr db'"
  then show "savings_inv g db' \<and> db_withdraws db' = t_remove k (db_withdraws db) \<and> withdraw_due db' = withdraw_due db"
    using pay_withdraw_ok [of v db db' k] by (auto simp: savings_inv_def conserves_def withdraw_due_def fun_eq_iff)
qed (simp add: savings_inv_def wf_db_def)

lemma process_savings_withdraws_ok:
  assumes "process_savings_withdraws name_less db = Inr db'" "wf_db db" "withdraws_counted db"
  shows "conserves db db' \<and> withdraws_counted db' \<and> db_escrows db' = db_escrows db
    \<and> db_withdraws db' = filter (\<lambda>r. head_block_time db < sw_complete (snd r)) (db_withdraws db)"
  using withdraw_queue.process_due_all [of "length (db_withdraws db)" name_less db db' db] assms
  by (simp add: process_savings_withdraws_def savings_inv_def conserves_def withdraw_due_def not_le)

section \<open>Solvency\<close>

lemma transfer_to_savings_solvent:
  assumes ap: "transfer_to_savings_apply o1 db = Inr db'" and v: "transfer_to_savings_validate L o1 = Inr ()"
    and sol: "solvent db" "has_hardfork 28 db" "wf_db db"
  shows "solvent db'"
proof -
  obtain m db1 where 1: "check_balance (tts_from o1) MAIN_BALANCE (tts_amount o1) db = Inr ()"
    "asset_neg (tts_amount o1) = Inr m" "adjust_balance (tts_from o1) m db = Inr db1"
    "adjust_savings_balance (tts_to o1) (tts_amount o1) db1 = Inr db'"
    using ap by (auto simp: transfer_to_savings_apply_def simp del: asset_neg_Inr)
  have "solvent db1" using debit_solvent [OF 1(1-3) sol(1) has_hardfork_mono [OF sol(2)] sol(3)] by simp
  moreover have "has_hardfork 28 db1" using sol(2) by (simp add: has_hardfork_def ledger_frameD [OF adjust_balance_frame [OF 1(3)]])
  moreover have "0 \<le> amount (tts_amount o1)" using v by (auto simp: transfer_to_savings_validate_def)
  ultimately show ?thesis using credit_savings_solvent [OF 1(4)] by blast
qed

lemma solvent_count_request: "count_request f n db = Inr db' \<Longrightarrow> solvent db \<Longrightarrow> solvent db'"
  by (auto simp: count_request_Inr intro!: solvent_set_account dest: solvent_account)

lemma transfer_from_savings_solvent:
  assumes ap: "transfer_from_savings_apply o1 db = Inr db'" and v: "transfer_from_savings_validate L o1 = Inr ()"
    and sol: "solvent db" "has_hardfork 28 db"
  shows "solvent db'"
proof -
  obtain m db1 where 1: "check_balance (tfs_from o1) SAVINGS (tfs_amount o1) db = Inr ()"
    "asset_neg (tfs_amount o1) = Inr m" "adjust_savings_balance (tfs_from o1) m db = Inr db1"
    and cnt: "count_request (\<lambda>c. c + 1) (tfs_from o1) (db1\<lparr>db_withdraws :=
       t_create (tfs_from o1, tfs_request_id o1) (new_withdraw o1 db1) (db_withdraws db1)\<rparr>) = Inr db'"
    using ap by (auto simp: transfer_from_savings_apply_def throw_if_exists_savings_withdraw_def count_request_def
      simp del: asset_neg_Inr modify_account_Inr)
  have "0 \<le> amount (tfs_amount o1)" using v by (auto simp: transfer_from_savings_validate_def)
  then show ?thesis using debit_savings_solvent [OF 1 sol] solvent_count_request [OF cnt]
    by (simp add: solvent_def new_withdraw_def)
qed

lemma cancel_transfer_from_savings_solvent:
  assumes ap: "cancel_transfer_from_savings_apply o1 db = Inr db'" and sol: "solvent db" "has_hardfork 28 db"
  shows "solvent db'"
proof -
  let ?k = "(cts_from o1, cts_request_id o1)"
  obtain w db1 where w: "t_get ?k (db_withdraws db) = Some w"
    and adj: "adjust_savings_balance (cts_from o1) (sw_amount w) db = Inr db1"
    and cnt: "count_request (\<lambda>c. c - 1) (cts_from o1) (db1\<lparr>db_withdraws := t_remove ?k (db_withdraws db1)\<rparr>) = Inr db'"
    using ap by (auto simp: cancel_transfer_from_savings_apply_def count_request_def simp del: modify_account_Inr)
  have "0 \<le> amount (sw_amount w)" using sol(1) w by (auto simp: solvent_def dest: t_all_get)
  from credit_savings_solvent [OF adj sol this] show ?thesis
    using solvent_count_request [OF cnt] by (simp add: solvent_def t_all_remove)
qed

section \<open>The maintenance loop never fails\<close>

definition receivers_exist :: "database \<Rightarrow> bool" where
  "receivers_exist db \<longleftrightarrow> t_all (\<lambda>_ w. t_get (sw_to w) (db_accounts db) \<noteq> None) (db_withdraws db)"

definition payable :: "database \<Rightarrow> bool" where
  "payable db \<longleftrightarrow> solvent db \<and> backed db \<and> receivers_exist db \<and> has_hardfork 28 db"

lemma payable_cong:
  assumes "payable db" "solvent db'" "\<And>s. gap s db' = gap s db" "\<And>s. issued s db' = issued s db"
    "db_hardfork db' = db_hardfork db" "db_withdraws db' = t_remove k (db_withdraws db)"
    "\<And>n. t_get n (db_accounts db) \<noteq> None \<Longrightarrow> t_get n (db_accounts db') \<noteq> None"
  shows "payable db'"
  using assms unfolding payable_def receivers_exist_def backed_def has_hardfork_def
  by (auto simp: t_all_def t_remove_def)

lemma pending_row:
  assumes "wf_db db" "t_get k (db_withdraws db) = Some w"
  shows "0 < pending_withdraws (sw_from w) db"
  using pending_remove [OF _ assms(2), of "sw_from w"] assms(1) by (simp add: wf_db_def)

lemma pay_withdraw_live:
  assumes "savings_inv g db" "payable db" and row: "t_get k (db_withdraws db) = Some w"
  shows "\<exists>db'. pay_withdraw w db = Inr db' \<and> payable db'"
proof -
  have wf: "wf_db db" "withdraws_counted db" and sol: "solvent db" "backed db" "has_hardfork 28 db"
    using assms by (auto simp: savings_inv_def payable_def)
  have ww: "wf_withdraw k w" using wf_withdraw_at [OF wf(1) row] .
  have nn: "0 \<le> amount (sw_amount w)" using sol(1) row by (auto simp: solvent_def dest: t_all_get)
  obtain a where a: "t_get (sw_to w) (db_accounts db) = Some a"
    using assms(2) row by (auto simp: payable_def receivers_exist_def dest: t_all_get)
  have wfa: "wf_account (sw_to w) a" and sa: "account_solvent a"
    using wf_account_at [OF wf(1) a] solvent_account [OF sol(1) a] by auto
  have "acct_held (symbol (sw_amount w)) a + amount (sw_amount w) < 2 ^ 63"
    using room_for_withdraw [OF sol(1,2) wf(1) a row, of "symbol (sw_amount w)"] by (simp add: asset_in_def)
  then have adj: "adjust_balance (sw_to w) (sw_amount w) db = Inr (set_account (sw_to w) (credited a (sw_amount w)) db)"
    using credit_live [OF has_hardfork_mono [OF sol(3)] a wfa sa _ nn] ww by (simp add: wf_withdraw_def)
  let ?db1 = "set_account (sw_to w) (credited a (sw_amount w)) db"
  have sol1: "solvent ?db1" using solvent_set_account [OF sol(1) credited_solvent [OF sa nn]] .
  have "t_get (sw_from w) (db_accounts db) \<noteq> None"
    using wf(2) pending_row [OF wf(1) row] by (auto simp: withdraws_counted_def dest!: spec [of _ "sw_from w"] split: option.splits)
  then obtain b where b: "t_get (sw_from w) (db_accounts ?db1) = Some b"
    using a by (cases "sw_from w = sw_to w") (auto simp: set_account_def t_get_modify)
  let ?b = "b\<lparr>acc_savings_withdraw_requests := acc_savings_withdraw_requests b - 1\<rparr>"
  let ?ev = "Fill_Transfer_From_Savings_Op (sw_from w) (sw_to w) (sw_amount w) (sw_request_id w) (sw_memo w)"
  let ?db' = "push_log ?ev (set_account (sw_from w) ?b ?db1)\<lparr>db_withdraws := t_remove (sw_from w, sw_request_id w) (db_withdraws db)\<rparr>"
  have ok: "pay_withdraw w db = Inr ?db'"
    using b by (simp add: pay_withdraw_def adj modify_account_def get_account_def)
      (simp add: set_account_def push_log_def)
  have "account_solvent ?b" using solvent_account [OF sol1 b] by simp
  from solvent_set_account [OF sol1 this, of "sw_from w"]
  have "solvent ?db'" by (simp add: solvent_def push_log_def set_account_def t_all_remove)
  moreover have "gap s ?db' = gap s db" for s using pay_withdraw_ok [OF ok wf row] unfolding conserves_def by blast
  moreover have "issued s ?db' = issued s db" for s by (simp add: issued_def push_log_def set_account_def)
  ultimately have "payable ?db'"
    by (intro payable_cong [OF assms(2)]) (auto simp: push_log_def set_account_def t_get_modify)
  with ok show ?thesis by blast
qed

interpretation live_withdraw_queue: live_due_loop db_withdraws "withdraw_before name_less" withdraw_due pay_withdraw
  "\<lambda>db. savings_inv g db \<and> payable db"
  for name_less g
proof unfold_locales
  fix db k v db'
  assume *: "savings_inv g db \<and> payable db" "t_get k (db_withdraws db) = Some v" "withdraw_due db v"
  {
    assume "pay_withdraw v db = Inr db'"
    with * show "(savings_inv g db' \<and> payable db') \<and> db_withdraws db' = t_remove k (db_withdraws db) \<and> withdraw_due db' = withdraw_due db"
      using withdraw_queue.body_step [of g db k v db'] pay_withdraw_live [of g db k v] by auto
  }
  show "\<exists>db'. pay_withdraw v db = Inr db'" using * pay_withdraw_live [of g db k v] by blast
qed (use withdraw_queue.lt_due withdraw_queue.inv_wf in blast)+

text \<open>
  C23. \<open>process_savings_withdraws\<close> pays out exactly the withdrawals that are due: those that remain
  are the ones whose time has not come, in their order; no money appears or disappears; and the
  counter of every account still equals its number of pending withdrawals, at most 100.
\<close>

theorem process_savings_withdraws_exact:
  assumes "process_savings_withdraws name_less db = Inr db'" "wf_db db" "withdraws_counted db"
  shows "db_withdraws db' = filter (\<lambda>r. head_block_time db < sw_complete (snd r)) (db_withdraws db)
    \<and> conserves db db' \<and> withdraws_counted db'"
  using process_savings_withdraws_ok [OF assms] by blast


definition demo_withdraw :: savings_withdraw_object where
  "demo_withdraw = \<lparr>sw_from = ''alice'', sw_to = ''bob'', sw_memo = [], sw_request_id = 7,
     sw_amount = mk_asset 200 STEEM_SYMBOL, sw_complete = 999999\<rparr>"

definition demo_savings :: database where
  "demo_savings = demo_db\<lparr>db_withdraws := [((''alice'', 7), demo_withdraw)],
     db_accounts := [(''alice'', (demo_account ''alice'')\<lparr>acc_balance := mk_asset 300 STEEM_SYMBOL,
       acc_savings_withdraw_requests := 1\<rparr>), (''bob'', demo_account ''bob'')]\<rparr>"

lemmas demo_savings_defs = demo_defs demo_savings_def demo_withdraw_def

lemma demo_savings_wf: "wf_db demo_savings"
  by (simp add: demo_savings_defs wf_db_def wf_account_def wf_dgp_def wf_withdraw_def t_wf_def t_all_def)

lemma demo_savings_counted: "withdraws_counted demo_savings"
  by (simp add: withdraws_counted_def pending_withdraws_def demo_savings_defs t_get_def
      STEEMIT_SAVINGS_WITHDRAW_REQUEST_LIMIT_def)

lemma demo_savings_payable: "solvent demo_savings" "backed demo_savings" "receivers_exist demo_savings"
  "has_hardfork 28 demo_savings"
  by (auto simp: demo_savings_defs solvent_def account_solvent_def dgp_solvent_def t_all_def receivers_exist_def
      t_get_def has_hardfork_def backed_def gap_def issued_def held_def t_total_def acct_held_def dgp_held_def asset_in_def)


lemma demo_savings_run:
  "\<exists>db'. process_savings_withdraws (\<lambda>_ _. False) demo_savings = Inr db' \<and> db_withdraws db' = []
    \<and> map_option acc_balance (t_get ''bob'' (db_accounts db')) = Some (mk_asset 700 STEEM_SYMBOL)"
  by (simp add: process_savings_withdraws_def demo_savings_defs withdraw_due_def pay_withdraw_def adjust_balance_def
      get_account_def t_get_def asset_add_def int64_ok_def set_account_def t_modify_def modify_account_def push_log_def
      t_remove_def rbind_def)

theorem process_savings_withdraws_exact_witness:
  "\<exists>db'. process_savings_withdraws (\<lambda>_ _. False) demo_savings = Inr db' \<and> db_withdraws db' = []
    \<and> conserves demo_savings db' \<and> withdraws_counted db'"
  using demo_savings_run process_savings_withdraws_exact [OF _ demo_savings_wf demo_savings_counted] by blast

end
