(* ===== verification/Escrow.thy ===== *)
theory Escrow
  imports Ledger_Demo Operations
begin

text \<open>
  Escrow: the evaluators of \<^verbatim>\<open>steem_evaluator.cpp\<close> that open, approve or reject, dispute and
  release an escrow, and \<open>database::expire_escrow_ratification\<close>, which refunds the escrows that were
  not ratified in time. The state machine they implement together is stated on its own
  (\<open>escrow_move\<close>), and each evaluator is shown to make one of its moves, in the role of the account
  that signed the operation. Every step conserves money and keeps the books solvent, and the
  maintenance loop never fails.
\<close>

section \<open>Operations\<close>

definition new_escrow :: "escrow_transfer_operation \<Rightarrow> escrow_object" where
  "new_escrow o1 = \<lparr>esc_escrow_id = et_escrow_id o1, esc_from = et_from o1, esc_to = et_to o1,
     esc_agent = et_agent o1, esc_ratification_deadline = et_ratification_deadline o1,
     esc_escrow_expiration = et_escrow_expiration o1, esc_sbd_balance = et_sbd_amount o1,
     esc_steem_balance = et_steem_amount o1, esc_pending_fee = et_fee o1,
     esc_to_approved = False, esc_agent_approved = False, esc_disputed = False\<rparr>"

text \<open>What the sender pays: the fee comes on top of the amount of its symbol.\<close>

definition escrow_spent :: "escrow_transfer_operation \<Rightarrow> (asset \<times> asset) result" where
  "escrow_spent o1 = (if symbol (et_fee o1) = STEEM_SYMBOL
     then rbind (asset_add (et_steem_amount o1) (et_fee o1)) (\<lambda>x. Inr (x, et_sbd_amount o1))
     else rbind (asset_add (et_sbd_amount o1) (et_fee o1)) (\<lambda>x. Inr (et_steem_amount o1, x)))"

definition escrow_transfer_apply :: "escrow_transfer_operation \<Rightarrow> database \<Rightarrow> database result" where
  "escrow_transfer_apply o1 db =
     rbind (get_account (et_from o1) db) (\<lambda>_.
     rbind (get_account (et_to o1) db) (\<lambda>_.
     rbind (get_account (et_agent o1) db) (\<lambda>_.
     rbind (check_logic ''escrow_time_in_past'' (et_ratification_deadline o1 > head_block_time db)) (\<lambda>_.
     rbind (check_logic ''escrow_time_in_past'' (et_escrow_expiration o1 > head_block_time db)) (\<lambda>_.
     rbind (escrow_spent o1) (\<lambda>(steem_spent, sbd_spent).
     rbind (check_balance (et_from o1) MAIN_BALANCE steem_spent db) (\<lambda>_.
     rbind (check_balance (et_from o1) MAIN_BALANCE sbd_spent db) (\<lambda>_.
     rbind (asset_neg steem_spent) (\<lambda>m1.
     rbind (adjust_balance (et_from o1) m1 db) (\<lambda>db1.
     rbind (asset_neg sbd_spent) (\<lambda>m2.
     rbind (adjust_balance (et_from o1) m2 db1) (\<lambda>db2.
     rbind (t_insert (et_from o1, et_escrow_id o1) (new_escrow o1) (db_escrows db2)) (\<lambda>t.
     Inr (db2\<lparr>db_escrows := t\<rparr>))))))))))))))"

text \<open>A rejected or expired escrow goes back to the account that opened it, fee included.\<close>

definition refund_escrow :: "account_name \<times> 32 word \<Rightarrow> escrow_object \<Rightarrow> database \<Rightarrow> database result" where
  "refund_escrow k e db =
     rbind (get_account (fst k) db) (\<lambda>_.
     rbind (adjust_balance (fst k) (esc_steem_balance e) db) (\<lambda>db1.
     rbind (adjust_balance (fst k) (esc_sbd_balance e) db1) (\<lambda>db2.
     rbind (adjust_balance (fst k) (esc_pending_fee e) db2) (\<lambda>db3.
     Inr (db3\<lparr>db_escrows := t_remove k (db_escrows db3)\<rparr>)))))"

definition put_escrow :: "account_name \<times> 32 word \<Rightarrow> escrow_object \<Rightarrow> database \<Rightarrow> database" where
  "put_escrow k e db = db\<lparr>db_escrows := t_modify k (\<lambda>_. e) (db_escrows db)\<rparr>"

definition escrow_approve_apply :: "escrow_approve_operation \<Rightarrow> database \<Rightarrow> database result" where
  "escrow_approve_apply o1 db =
    (let k = (ea_from o1, ea_escrow_id o1) in
     rbind (get_escrow (ea_from o1) (ea_escrow_id o1) db) (\<lambda>e.
     rbind (check_logic ''escrow_bad_to'' (esc_to e = ea_to o1)) (\<lambda>_.
     rbind (check_logic ''escrow_bad_agent'' (esc_agent e = ea_agent o1)) (\<lambda>_.
     rbind (check_logic ''ratification_deadline_passed'' (esc_ratification_deadline e \<ge> head_block_time db)) (\<lambda>_.
     rbind (if ea_who o1 = ea_to o1 then
              rbind (check_logic ''account_already_approved_escrow'' (\<not> esc_to_approved e)) (\<lambda>_.
              Inr (if ea_approve o1 then e\<lparr>esc_to_approved := True\<rparr> else e))
            else Inr e) (\<lambda>e1.
     rbind (if ea_who o1 = ea_agent o1 then
              rbind (check_logic ''account_already_approved_escrow'' (\<not> esc_agent_approved e1)) (\<lambda>_.
              Inr (if ea_approve o1 then e1\<lparr>esc_agent_approved := True\<rparr> else e1))
            else Inr e1) (\<lambda>e2.
     if \<not> ea_approve o1 then refund_escrow k e2 (put_escrow k e2 db)
     else if esc_to_approved e2 \<and> esc_agent_approved e2 then
       rbind (get_account (ea_agent o1) (put_escrow k e2 db)) (\<lambda>_.
       rbind (adjust_balance (ea_agent o1) (esc_pending_fee e2) (put_escrow k e2 db)) (\<lambda>db1.
       Inr (put_escrow k (e2\<lparr>esc_pending_fee := mk_asset 0 (symbol (esc_pending_fee e2))\<rparr>) db1)))
     else Inr (put_escrow k e2 db))))))))"

definition escrow_dispute_apply :: "escrow_dispute_operation \<Rightarrow> database \<Rightarrow> database result" where
  "escrow_dispute_apply o1 db =
     rbind (get_account (ed_from o1) db) (\<lambda>_.
     rbind (get_escrow (ed_from o1) (ed_escrow_id o1) db) (\<lambda>e.
     rbind (checks [
       check_logic ''cannot_dispute_expired_escrow'' (head_block_time db < esc_escrow_expiration e),
       check_logic ''escrow_must_be_approved_first'' (esc_to_approved e \<and> esc_agent_approved e),
       check_logic ''escrow_already_disputed'' (\<not> esc_disputed e),
       check_logic ''escrow_bad_to'' (esc_to e = ed_to o1),
       check_logic ''escrow_bad_agent'' (esc_agent e = ed_agent o1)]) (\<lambda>_.
     Inr (put_escrow (ed_from o1, ed_escrow_id o1) (e\<lparr>esc_disputed := True\<rparr>) db))))"

definition release_permission :: "escrow_release_operation \<Rightarrow> escrow_object \<Rightarrow> int \<Rightarrow> unit result" where
  "release_permission o1 e now = checks [
     check_logic ''escrow_bad_to'' (esc_to e = er_to o1),
     check_logic ''escrow_bad_agent'' (esc_agent e = er_agent o1),
     check_logic ''escrow_bad_receiver'' (er_receiver o1 = esc_from e \<or> er_receiver o1 = esc_to e),
     check_logic ''escrow_must_be_approved_first'' (esc_to_approved e \<and> esc_agent_approved e),
     if esc_disputed e then
       check_logic ''only_agent_can_release_disputed'' (er_who o1 = esc_agent e)
     else checks [
       check_logic ''only_from_to_can_release_non_disputed'' (er_who o1 = esc_from e \<or> er_who o1 = esc_to e),
       if esc_escrow_expiration e > now then
         if er_who o1 = esc_from e then check_logic ''from_can_release_only_to_to'' (er_receiver o1 = esc_to e)
         else if er_who o1 = esc_to e then check_logic ''to_can_release_only_to_from'' (er_receiver o1 = esc_from e)
         else Inr ()
       else Inr ()]]"

definition escrow_release_apply :: "escrow_release_operation \<Rightarrow> database \<Rightarrow> database result" where
  "escrow_release_apply o1 db =
    (let k = (er_from o1, er_escrow_id o1) in
     rbind (get_account (er_from o1) db) (\<lambda>_.
     rbind (get_account (er_receiver o1) db) (\<lambda>_.
     rbind (get_escrow (er_from o1) (er_escrow_id o1) db) (\<lambda>e.
     rbind (asset_ge (esc_steem_balance e) (er_steem_amount o1)) (\<lambda>enough.
     rbind (check_logic ''release_amount_exceeds_escrow_balance'' enough) (\<lambda>_.
     rbind (asset_ge (esc_sbd_balance e) (er_sbd_amount o1)) (\<lambda>enough.
     rbind (check_logic ''release_amount_exceeds_escrow_balance'' enough) (\<lambda>_.
     rbind (release_permission o1 e (head_block_time db)) (\<lambda>_.
     rbind (adjust_balance (er_receiver o1) (er_steem_amount o1) db) (\<lambda>db1.
     rbind (adjust_balance (er_receiver o1) (er_sbd_amount o1) db1) (\<lambda>db2.
     rbind (asset_sub (esc_steem_balance e) (er_steem_amount o1)) (\<lambda>st.
     rbind (asset_sub (esc_sbd_balance e) (er_sbd_amount o1)) (\<lambda>sb.
     if amount st = 0 \<and> amount sb = 0 then Inr (db2\<lparr>db_escrows := t_remove k (db_escrows db2)\<rparr>)
     else Inr (put_escrow k (e\<lparr>esc_steem_balance := st, esc_sbd_balance := sb\<rparr>) db2))))))))))))))"

text \<open>
  The index \<open>by_ratification_deadline\<close> orders by approval, deadline and object id; the loop walks it
  from the front and removes what it visits.
\<close>

definition escrow_before :: "escrow_object \<Rightarrow> escrow_object \<Rightarrow> bool" where
  "escrow_before a b \<longleftrightarrow> \<not> is_approved a \<and> is_approved b
     \<or> is_approved a = is_approved b \<and> esc_ratification_deadline a < esc_ratification_deadline b"

definition escrow_due :: "database \<Rightarrow> escrow_object \<Rightarrow> bool" where
  "escrow_due db e \<longleftrightarrow> \<not> is_approved e \<and> esc_ratification_deadline e \<le> head_block_time db"

definition expire_escrow :: "escrow_object \<Rightarrow> database \<Rightarrow> database result" where
  "expire_escrow e = refund_escrow (esc_from e, esc_escrow_id e) e"

definition expire_escrow_ratification :: "database \<Rightarrow> database result" where
  "expire_escrow_ratification db =
     process_due (length (db_escrows db)) db_escrows escrow_before escrow_due expire_escrow db"

section \<open>Money\<close>

lemma wf_put_escrow: "wf_db db \<Longrightarrow> wf_escrow k e \<Longrightarrow> wf_db (put_escrow k e db)"
  by (simp add: put_escrow_def wf_rows_modify)

lemma gap_put_escrow:
  "wf_db db \<Longrightarrow> t_get k (db_escrows db) = Some e \<Longrightarrow> gap s (put_escrow k e' db) = gap s db - (esc_held s e' - esc_held s e)"
  by (simp add: put_escrow_def gap_escrows)

lemma escrow_transfer_ok:
  assumes ap: "escrow_transfer_apply o1 db = Inr db'" and v: "escrow_transfer_validate L o1 = Inr ()" and wf: "wf_db db"
  shows "conserves db db' \<and> requests_of db' = requests_of db \<and>
    db_escrows db' = t_create (et_from o1, et_escrow_id o1) (new_escrow o1) (db_escrows db)
    \<and> t_get (et_from o1, et_escrow_id o1) (db_escrows db) = None"
proof -
  let ?k = "(et_from o1, et_escrow_id o1)"
  have sym: "symbol (et_steem_amount o1) = STEEM_SYMBOL" "symbol (et_sbd_amount o1) = SBD_SYMBOL"
    "symbol (et_fee o1) \<in> {STEEM_SYMBOL, SBD_SYMBOL}"
    using v by (auto simp: escrow_transfer_validate_def)
  obtain st sb m1 m2 db1 db2 where sum: "escrow_spent o1 = Inr (st, sb)"
    and m1: "asset_neg st = Inr m1" "adjust_balance (et_from o1) m1 db = Inr db1"
    and m2: "asset_neg sb = Inr m2" "adjust_balance (et_from o1) m2 db1 = Inr db2"
    and free: "t_get ?k (db_escrows db2) = None"
    and db': "db' = db2\<lparr>db_escrows := t_create ?k (new_escrow o1) (db_escrows db2)\<rparr>"
    using ap by (auto simp: escrow_transfer_apply_def simp del: asset_neg_Inr asset_add_Inr)
  have total: "asset_in s st + asset_in s sb = esc_held s (new_escrow o1)" for s
    using sum sym by (auto simp: escrow_spent_def esc_held_def new_escrow_def asset_in_def split: if_splits)
  note 1 = pay_in [OF m1 wf]
  note 2 = pay_in [OF m2 1(1)]
  have "wf_escrow ?k (new_escrow o1)" using sym by (simp add: wf_escrow_def new_escrow_def)
  then have "wf_db db'" using wf_rows_create(2) [OF 2(1) free] db' by simp
  moreover have "gap s db' = gap s db" for s
    using 1(2) [of s] 2(2) [of s] total [of s] by (simp add: db' gap_escrows_create)
  moreover have "db_escrows db2 = db_escrows db" "requests_of db2 = requests_of db"
    using 1(3) 2(3) by (simp_all add: ledger_frameD)
  ultimately show ?thesis using free by (simp add: db' conserves_def)
qed

lemma esc_flags [simp]:
  "esc_held s (e\<lparr>esc_to_approved := b\<rparr>) = esc_held s e" "wf_escrow k (e\<lparr>esc_to_approved := b\<rparr>) = wf_escrow k e"
  "esc_held s (e\<lparr>esc_agent_approved := b\<rparr>) = esc_held s e" "wf_escrow k (e\<lparr>esc_agent_approved := b\<rparr>) = wf_escrow k e"
  "esc_held s (e\<lparr>esc_disputed := b\<rparr>) = esc_held s e" "wf_escrow k (e\<lparr>esc_disputed := b\<rparr>) = wf_escrow k e"
  by (simp_all add: esc_held_def wf_escrow_def)

lemma refund_escrow_ok:
  assumes rf: "refund_escrow k e db = Inr db'" and wf: "wf_db db" and row: "t_get k (db_escrows db) = Some e"
  shows "conserves db db' \<and> db_escrows db' = t_remove k (db_escrows db) \<and> head_block_time db' = head_block_time db
    \<and> requests_of db' = requests_of db"
proof -
  obtain db1 db2 db3 where a1: "adjust_balance (fst k) (esc_steem_balance e) db = Inr db1"
    and a2: "adjust_balance (fst k) (esc_sbd_balance e) db1 = Inr db2"
    and a3: "adjust_balance (fst k) (esc_pending_fee e) db2 = Inr db3"
    and db': "db' = db3\<lparr>db_escrows := t_remove k (db_escrows db3)\<rparr>"
    using rf by (auto simp: refund_escrow_def)
  note 1 = pay_out [OF a1 wf]
  note 2 = pay_out [OF a2 1(1)]
  note 3 = pay_out [OF a3 2(1)]
  have fr: "ledger_frame db db3" using 1(3) 2(3) 3(3) ledger_frame_trans by blast
  have row3: "t_get k (db_escrows db3) = Some e" using row by (simp add: ledger_frameD [OF fr])
  have "gap s db' = gap s db" for s
    using 1(2) [of s] 2(2) [of s] 3(2) [of s] gap_escrows(1) [OF 3(1) row3, of s] by (simp add: db' esc_held_def)
  then show ?thesis using wf_rows_remove(2) [OF 3(1)] by (simp add: db' conserves_def ledger_frameD [OF fr])
qed

section \<open>The state machine\<close>

datatype escrow_phase = Closed | Proposed bool bool | Agreed | In_Dispute
datatype escrow_role = Sender | Receiver | Agent

text \<open>Who may move an escrow from which phase to which: the contract of the component.\<close>

inductive escrow_move :: "escrow_role \<Rightarrow> escrow_phase \<Rightarrow> escrow_phase \<Rightarrow> bool" where
  propose: "escrow_move Sender Closed (Proposed False False)"
| receiver_approves: "escrow_move Receiver (Proposed False a) (if a then Agreed else Proposed True False)"
| agent_approves: "escrow_move Agent (Proposed t False) (if t then Agreed else Proposed False True)"
| receiver_rejects: "escrow_move Receiver (Proposed False a) Closed"
| agent_rejects: "escrow_move Agent (Proposed t False) Closed"
| dispute: "r \<in> {Sender, Receiver} \<Longrightarrow> escrow_move r Agreed In_Dispute"
| release: "r \<in> {Sender, Receiver} \<Longrightarrow> p \<in> {Agreed, Closed} \<Longrightarrow> escrow_move r Agreed p"
| arbitrate: "p \<in> {In_Dispute, Closed} \<Longrightarrow> escrow_move Agent In_Dispute p"

definition escrow_phase_of :: "escrow_object \<Rightarrow> escrow_phase" where
  "escrow_phase_of e = (if esc_disputed e then In_Dispute else if is_approved e then Agreed
     else Proposed (esc_to_approved e) (esc_agent_approved e))"

definition phase_at :: "account_name \<times> 32 word \<Rightarrow> database \<Rightarrow> escrow_phase" where
  "phase_at k db = (case t_get k (db_escrows db) of None \<Rightarrow> Closed | Some e \<Rightarrow> escrow_phase_of e)"

definition plays :: "account_name \<times> 32 word \<Rightarrow> database \<Rightarrow> account_name \<Rightarrow> escrow_role \<Rightarrow> bool" where
  "plays k db n r \<longleftrightarrow> (case r of Sender \<Rightarrow> n = fst k
     | Receiver \<Rightarrow> (\<exists>e. t_get k (db_escrows db) = Some e \<and> n = esc_to e)
     | Agent \<Rightarrow> (\<exists>e. t_get k (db_escrows db) = Some e \<and> n = esc_agent e))"

text \<open>
  The invariant of a stored escrow: the agent is a third party, the fee has been paid out once both
  have approved, and only an approved escrow is in dispute.
\<close>

definition escrow_ok :: "escrow_object \<Rightarrow> bool" where
  "escrow_ok e \<longleftrightarrow> esc_agent e \<noteq> esc_from e \<and> esc_agent e \<noteq> esc_to e
     \<and> (is_approved e \<longrightarrow> amount (esc_pending_fee e) = 0) \<and> (esc_disputed e \<longrightarrow> is_approved e)"

definition escrows_ok :: "database \<Rightarrow> bool" where
  "escrows_ok db \<longleftrightarrow> t_all (\<lambda>_. escrow_ok) (db_escrows db)"

lemma phase_at_frame: "ledger_frame db db' \<Longrightarrow> phase_at k db' = phase_at k db"
  by (simp add: phase_at_def ledger_frameD)

lemma put_escrow_simps [simp]:
  "t_get k' (db_escrows (put_escrow k e db)) = (if k' = k then map_option (\<lambda>_. e) (t_get k (db_escrows db)) else t_get k' (db_escrows db))"
  "head_block_time (put_escrow k e db) = head_block_time db" "requests_of (put_escrow k e db) = requests_of db"
  "db_accounts (put_escrow k e db) = db_accounts db" "db_hardfork (put_escrow k e db) = db_hardfork db"
  by (simp_all add: put_escrow_def t_get_modify)

lemma escrows_ok_put: "escrows_ok db \<Longrightarrow> escrow_ok e \<Longrightarrow> escrows_ok (put_escrow k e db)"
  by (simp add: escrows_ok_def put_escrow_def t_all_modify_const)

lemma escrows_ok_frame: "ledger_frame db db' \<Longrightarrow> escrows_ok db \<Longrightarrow> escrows_ok db'"
  by (simp add: escrows_ok_def ledger_frameD)

lemma escrows_ok_at: "escrows_ok db \<Longrightarrow> t_get k (db_escrows db) = Some e \<Longrightarrow> escrow_ok e"
  by (auto simp: escrows_ok_def dest: t_all_get)

lemma plays_at:
  assumes "t_get k (db_escrows db) = Some e"
  shows "plays k db n Sender \<longleftrightarrow> n = fst k" "plays k db n Receiver \<longleftrightarrow> n = esc_to e" "plays k db n Agent \<longleftrightarrow> n = esc_agent e"
  using assms by (simp_all add: plays_def)

lemma party_role:
  assumes "t_get k (db_escrows db) = Some e" "n = fst k \<or> n = esc_to e"
  obtains r where "r \<in> {Sender, Receiver}" "plays k db n r"
  using assms(2) plays_at [OF assms(1), of n] by blast

text \<open>What one operation of the component does, whichever it is.\<close>

definition escrow_effect ::
  "account_name \<Rightarrow> account_name \<times> 32 word \<Rightarrow> database \<Rightarrow> database \<Rightarrow> bool" where
  "escrow_effect who k db db' \<longleftrightarrow> conserves db db' \<and> escrows_ok db' \<and> requests_of db' = requests_of db
     \<and> (\<exists>r. plays k db who r \<and> escrow_move r (phase_at k db) (phase_at k db'))
     \<and> (\<forall>k'. k' \<noteq> k \<longrightarrow> t_get k' (db_escrows db') = t_get k' (db_escrows db))"

lemma escrow_transfer_effect:
  assumes "escrow_transfer_apply o1 db = Inr db'" "escrow_transfer_validate L o1 = Inr ()" "wf_db db" "escrows_ok db"
  shows "escrow_effect (et_from o1) (et_from o1, et_escrow_id o1) db db'"
proof -
  have "escrow_ok (new_escrow o1)" "escrow_phase_of (new_escrow o1) = Proposed False False"
    using assms(2) by (auto simp: escrow_transfer_validate_def escrow_ok_def new_escrow_def is_approved_def escrow_phase_of_def)
  with escrow_transfer_ok [OF assms(1-3)] assms(4) show ?thesis
    by (auto simp: escrow_effect_def plays_def phase_at_def escrows_ok_def tbl.get_create
        intro!: exI [of _ Sender] escrow_move.propose)
qed

lemma escrow_dispute_effect:
  assumes ap: "escrow_dispute_apply o1 db = Inr db'" and v: "escrow_dispute_validate o1 = Inr ()"
    and wf: "wf_db db" "escrows_ok db"
  shows "escrow_effect (ed_who o1) (ed_from o1, ed_escrow_id o1) db db'"
proof -
  let ?k = "(ed_from o1, ed_escrow_id o1)"
  obtain e where e: "t_get ?k (db_escrows db) = Some e" and db': "db' = put_escrow ?k (e\<lparr>esc_disputed := True\<rparr>) db"
    and g: "is_approved e" "\<not> esc_disputed e" "esc_to e = ed_to o1"
    using ap by (auto simp: escrow_dispute_apply_def is_approved_def)
  have ok: "escrow_ok (e\<lparr>esc_disputed := True\<rparr>)" using escrows_ok_at [OF wf(2) e] g by (simp add: escrow_ok_def is_approved_def)
  have ph: "phase_at ?k db = Agreed" "phase_at ?k db' = In_Dispute"
    using e g by (simp_all add: phase_at_def escrow_phase_of_def db')
  have "ed_who o1 = ed_from o1 \<or> ed_who o1 = esc_to e" using v g by (auto simp: escrow_dispute_validate_def)
  then obtain r where "r \<in> {Sender, Receiver}" "plays ?k db (ed_who o1) r"
    using party_role [OF e] by (metis fst_conv)
  then have "\<exists>r. plays ?k db (ed_who o1) r \<and> escrow_move r (phase_at ?k db) (phase_at ?k db')"
    unfolding ph by (blast intro: escrow_move.dispute)
  moreover have "conserves db db'" using wf_escrow_at [OF wf(1) e] wf(1) e
    by (simp add: conserves_def db' wf_put_escrow gap_put_escrow)
  ultimately show ?thesis using escrows_ok_put [OF wf(2) ok] by (simp add: escrow_effect_def db')
qed

text \<open>Approval: the escrow as the signer leaves it, and the three ways the evaluator ends.\<close>

definition approved_by :: "escrow_approve_operation \<Rightarrow> escrow_object \<Rightarrow> escrow_object" where
  "approved_by o1 e = (if ea_who o1 = ea_to o1 then e\<lparr>esc_to_approved := True\<rparr> else e\<lparr>esc_agent_approved := True\<rparr>)"

lemma approved_by_simps [simp]:
  "esc_held s (approved_by o1 e) = esc_held s e" "wf_escrow k (approved_by o1 e) = wf_escrow k e"
  "esc_pending_fee (approved_by o1 e) = esc_pending_fee e" "esc_disputed (approved_by o1 e) = esc_disputed e"
  "esc_agent (approved_by o1 e) = esc_agent e" "esc_to (approved_by o1 e) = esc_to e" "esc_from (approved_by o1 e) = esc_from e"
  "esc_escrow_id (approved_by o1 e) = esc_escrow_id e" "esc_steem_balance (approved_by o1 e) = esc_steem_balance e"
  "esc_sbd_balance (approved_by o1 e) = esc_sbd_balance e"
  by (simp_all add: approved_by_def)

lemma escrow_approve_cases:
  assumes ap: "escrow_approve_apply o1 db = Inr db'" and v: "escrow_approve_validate o1 = Inr ()" and ok: "escrows_ok db"
  defines "k \<equiv> (ea_from o1, ea_escrow_id o1)"
  obtains e r where "t_get k (db_escrows db) = Some e" "escrow_ok e" "\<not> esc_disputed e" "plays k db (ea_who o1) r"
    "escrow_move r (escrow_phase_of e) Closed" "escrow_move r (escrow_phase_of e) (escrow_phase_of (approved_by o1 e))"
    "\<not> ea_approve o1 \<and> refund_escrow k e (put_escrow k e db) = Inr db'
     \<or> is_approved (approved_by o1 e) \<and> (\<exists>db1. adjust_balance (ea_agent o1) (esc_pending_fee e) (put_escrow k (approved_by o1 e) db) = Inr db1
         \<and> db' = put_escrow k ((approved_by o1 e)\<lparr>esc_pending_fee := mk_asset 0 (symbol (esc_pending_fee e))\<rparr>) db1)
     \<or> \<not> is_approved (approved_by o1 e) \<and> db' = put_escrow k (approved_by o1 e) db"
proof -
  obtain e where e: "t_get k (db_escrows db) = Some e" and to: "esc_to e = ea_to o1" "esc_agent e = ea_agent o1"
    using ap by (auto simp: escrow_approve_apply_def Let_def k_def)
  have oke: "escrow_ok e" using escrows_ok_at [OF ok e] .
  have who: "ea_who o1 = ea_to o1 \<and> ea_who o1 \<noteq> ea_agent o1 \<or> ea_who o1 = ea_agent o1 \<and> ea_who o1 \<noteq> ea_to o1"
    using v oke to by (auto simp: escrow_approve_validate_def escrow_ok_def)
  have first: "if ea_who o1 = ea_to o1 then \<not> esc_to_approved e else \<not> esc_agent_approved e"
    using ap e who by (auto simp: escrow_approve_apply_def Let_def k_def split: if_splits)
  have nd: "\<not> esc_disputed e" using first oke by (auto simp: escrow_ok_def is_approved_def split: if_splits)
  define r where "r = (if ea_who o1 = ea_to o1 then Receiver else Agent)"
  have ph: "escrow_phase_of e = Proposed (esc_to_approved e) (esc_agent_approved e)"
    using first nd by (auto simp: escrow_phase_of_def is_approved_def split: if_splits)
  have mv: "escrow_move r (escrow_phase_of e) Closed \<and> escrow_move r (escrow_phase_of e) (escrow_phase_of (approved_by o1 e))"
    using first nd escrow_move.receiver_approves [of "esc_agent_approved e"] escrow_move.agent_approves [of "esc_to_approved e"]
    by (auto simp: ph r_def escrow_phase_of_def is_approved_def approved_by_def split: if_splits intro: escrow_move.intros)
  have "plays k db (ea_who o1) r" using who to by (auto simp: r_def plays_at [OF e])
  moreover have "\<not> ea_approve o1 \<and> refund_escrow k e (put_escrow k e db) = Inr db'
     \<or> is_approved (approved_by o1 e) \<and> (\<exists>db1. adjust_balance (ea_agent o1) (esc_pending_fee e) (put_escrow k (approved_by o1 e) db) = Inr db1
         \<and> db' = put_escrow k ((approved_by o1 e)\<lparr>esc_pending_fee := mk_asset 0 (symbol (esc_pending_fee e))\<rparr>) db1)
     \<or> \<not> is_approved (approved_by o1 e) \<and> db' = put_escrow k (approved_by o1 e) db"
    using ap e who by (auto simp: escrow_approve_apply_def Let_def k_def approved_by_def is_approved_def split: if_splits)
  ultimately show thesis using that e oke nd mv by blast
qed

lemma escrow_approve_effect:
  assumes ap: "escrow_approve_apply o1 db = Inr db'" and v: "escrow_approve_validate o1 = Inr ()"
    and wf: "wf_db db" "escrows_ok db"
  shows "escrow_effect (ea_who o1) (ea_from o1, ea_escrow_id o1) db db'"
proof (cases rule: escrow_approve_cases [OF ap v wf(2)])
  case (1 e r)
  note row = 1
  let ?k = "(ea_from o1, ea_escrow_id o1)" and ?e = "approved_by o1 e"
  let ?e' = "?e\<lparr>esc_pending_fee := mk_asset 0 (symbol (esc_pending_fee e))\<rparr>"
  have wfe: "wf_escrow ?k e" using wf_escrow_at [OF wf(1) row(1)] .
  have ph: "phase_at ?k db = escrow_phase_of e" using row(1) by (simp add: phase_at_def)
  have put: "wf_db (put_escrow ?k ?e db)" "gap s (put_escrow ?k ?e db) = gap s db" for s
    using wf_put_escrow [OF wf(1), of ?k ?e] wfe gap_put_escrow [OF wf(1) row(1), of s ?e] by simp_all
  consider (reject) "refund_escrow ?k e (put_escrow ?k e db) = Inr db'"
    | (both) db1 where "is_approved ?e" "adjust_balance (ea_agent o1) (esc_pending_fee e) (put_escrow ?k ?e db) = Inr db1"
        "db' = put_escrow ?k ?e' db1"
    | (one) "\<not> is_approved ?e" "db' = put_escrow ?k ?e db" using row(7) by blast
  then show ?thesis
  proof cases
    case reject
    have same: "put_escrow ?k e db = db" using row(1) wf(1)
      by (simp add: put_escrow_def t_modify_same wf_db_def)
    from refund_escrow_ok [OF reject [unfolded same] wf(1) row(1)] show ?thesis
      using row wf(2) by (auto simp: escrow_effect_def phase_at_def ph t_get_remove escrows_ok_def t_all_remove)
  next
    case both
    note P = pay_out [OF both(2) put(1)]
    have rw: "t_get ?k (db_escrows db1) = Some ?e" using row(1) by (simp add: ledger_frameD [OF P(3)])
    have "gap s db' = gap s db" for s
      using gap_put_escrow [OF P(1) rw, of s ?e'] P(2) [of s] put(2) [of s] by (simp add: both(3) esc_held_def)
    moreover have "wf_db db'" using wf_put_escrow [OF P(1), of ?k ?e'] wfe by (simp add: both(3) wf_escrow_def)
    moreover have "escrow_ok ?e'" using row(2,3) by (auto simp: escrow_ok_def)
    then have "escrows_ok db'" using wf(2)
      by (simp add: both(3) escrows_ok_def put_escrow_def ledger_frameD [OF P(3)] t_all_modify_const t_modify_twice)
    moreover have "phase_at ?k db' = escrow_phase_of ?e"
      using rw by (simp add: phase_at_def both(3) escrow_phase_of_def is_approved_def)
    ultimately show ?thesis using row ph
      by (auto simp: escrow_effect_def conserves_def both(3) ledger_frameD [OF P(3)])
  next
    case one
    have "escrow_ok ?e" using row(2,3) one(1) by (auto simp: escrow_ok_def)
    then show ?thesis using row ph put escrows_ok_put [OF wf(2)]
      by (auto simp: escrow_effect_def conserves_def one(2) phase_at_def)
  qed
qed

text \<open>Release: what is left in the escrow.\<close>

definition after_release :: "escrow_release_operation \<Rightarrow> escrow_object \<Rightarrow> escrow_object" where
  "after_release o1 e = e\<lparr>esc_steem_balance := mk_asset (amount (esc_steem_balance e) - amount (er_steem_amount o1)) STEEM_SYMBOL,
     esc_sbd_balance := mk_asset (amount (esc_sbd_balance e) - amount (er_sbd_amount o1)) SBD_SYMBOL\<rparr>"

lemma escrow_release_cases:
  assumes ap: "escrow_release_apply o1 db = Inr db'" and wf: "wf_db db"
  defines "k \<equiv> (er_from o1, er_escrow_id o1)"
  obtains e db1 db2 where "t_get k (db_escrows db) = Some e"
    "symbol (er_steem_amount o1) = STEEM_SYMBOL" "symbol (er_sbd_amount o1) = SBD_SYMBOL"
    "amount (er_steem_amount o1) \<le> amount (esc_steem_balance e)" "amount (er_sbd_amount o1) \<le> amount (esc_sbd_balance e)"
    "release_permission o1 e (head_block_time db) = Inr ()"
    "adjust_balance (er_receiver o1) (er_steem_amount o1) db = Inr db1"
    "adjust_balance (er_receiver o1) (er_sbd_amount o1) db1 = Inr db2"
    "db' = (if amount (esc_steem_balance (after_release o1 e)) = 0 \<and> amount (esc_sbd_balance (after_release o1 e)) = 0
       then db2\<lparr>db_escrows := t_remove k (db_escrows db2)\<rparr> else put_escrow k (after_release o1 e) db2)"
proof -
  obtain e where e: "t_get k (db_escrows db) = Some e"
    using ap by (auto simp: escrow_release_apply_def Let_def k_def)
  have "wf_escrow k e" using wf_escrow_at [OF wf e] .
  then have sy: "symbol (esc_steem_balance e) = STEEM_SYMBOL" "symbol (esc_sbd_balance e) = SBD_SYMBOL"
    by (simp_all add: wf_escrow_def)
  show thesis
    using ap e by (auto simp: escrow_release_apply_def Let_def k_def asset_ge_def asset_lt_def sy after_release_def
        intro!: that [OF e])
qed

lemma release_role:
  assumes "release_permission o1 e now = Inr ()" "t_get k (db_escrows db) = Some e" "esc_from e = fst k"
  obtains r where "plays k db (er_who o1) r"
    "escrow_move r (escrow_phase_of e) Closed" "escrow_move r (escrow_phase_of e) (escrow_phase_of e)"
proof (cases "esc_disputed e")
  case True
  then have "plays k db (er_who o1) Agent" using assms by (auto simp: release_permission_def plays_at)
  with True show thesis using that escrow_move.arbitrate by (simp add: escrow_phase_of_def)
next
  case False
  have "er_who o1 = fst k \<or> er_who o1 = esc_to e" "is_approved e"
    using False assms by (auto simp: release_permission_def is_approved_def)
  then obtain r where "r \<in> {Sender, Receiver}" "plays k db (er_who o1) r" using party_role [OF assms(2)] by metis
  moreover have "escrow_phase_of e = Agreed" using False \<open>is_approved e\<close> by (simp add: escrow_phase_of_def)
  ultimately show thesis using that escrow_move.release by simp
qed

lemma escrow_release_effect:
  assumes ap: "escrow_release_apply o1 db = Inr db'" and wf: "wf_db db" "escrows_ok db"
  shows "escrow_effect (er_who o1) (er_from o1, er_escrow_id o1) db db'"
proof (cases rule: escrow_release_cases [OF ap wf(1)])
  case (1 e db1 db2)
  let ?k = "(er_from o1, er_escrow_id o1)" and ?e = "after_release o1 e"
  note a1 = pay_out [OF 1(7) wf(1)]
  note a2 = pay_out [OF 1(8) a1(1)]
  have fr: "ledger_frame db db2" using ledger_frame_trans [OF a1(3) a2(3)] .
  have row: "t_get ?k (db_escrows db2) = Some e" using 1(1) by (simp add: ledger_frameD [OF fr])
  have wfe: "wf_escrow ?k e" using wf_escrow_at [OF wf(1) 1(1)] .
  have oke: "escrow_ok e" using escrows_ok_at [OF wf(2) 1(1)] .
  have appr: "is_approved e" using 1(6) by (simp add: release_permission_def is_approved_def)
  have ph: "phase_at ?k db = escrow_phase_of e" "escrow_phase_of ?e = escrow_phase_of e"
    using 1(1) by (simp_all add: phase_at_def escrow_phase_of_def after_release_def is_approved_def)
  have held: "esc_held s ?e = esc_held s e - asset_in s (er_steem_amount o1) - asset_in s (er_sbd_amount o1)" for s
    using wfe 1(2,3) by (simp add: esc_held_def after_release_def asset_in_def wf_escrow_def)
  obtain r where r: "plays ?k db (er_who o1) r" "escrow_move r (escrow_phase_of e) Closed"
    "escrow_move r (escrow_phase_of e) (escrow_phase_of e)"
    using release_role [OF 1(6) 1(1)] wfe by (auto simp: wf_escrow_def)
  have g2: "gap s db2 = gap s db - asset_in s (er_steem_amount o1) - asset_in s (er_sbd_amount o1)" for s
    using a1(2) [of s] a2(2) [of s] by simp
  show ?thesis
  proof (cases "amount (esc_steem_balance ?e) = 0 \<and> amount (esc_sbd_balance ?e) = 0")
    case True
    then have db': "db' = db2\<lparr>db_escrows := t_remove ?k (db_escrows db2)\<rparr>" using 1(9) by simp
    have "esc_held s ?e = asset_in s (esc_pending_fee e)" for s
      using True by (simp add: esc_held_def after_release_def asset_in_def)
    moreover have "asset_in s (esc_pending_fee e) = 0" for s using oke appr by (simp add: escrow_ok_def asset_in_def)
    ultimately have "gap s db' = gap s db" for s
      using gap_escrows(1) [OF a2(1) row, of s] g2 [of s] held [of s] by (simp add: db')
    then have "conserves db db'" using wf_rows_remove(2) [OF a2(1)] by (simp add: conserves_def db')
    then show ?thesis using r ph wf(2)
      by (auto simp: escrow_effect_def phase_at_def db' t_get_remove escrows_ok_def t_all_remove ledger_frameD [OF fr])
  next
    case False
    then have db': "db' = put_escrow ?k ?e db2" using 1(9) unfolding if_not_P [OF False] by blast
    have "gap s db' = gap s db" for s
      using gap_put_escrow [OF a2(1) row, of s ?e] g2 [of s] held [of s] by (simp add: db')
    moreover have "wf_db db'" using wf_put_escrow [OF a2(1), of ?k ?e] wfe by (simp add: db' wf_escrow_def after_release_def)
    moreover have "escrow_ok ?e" using oke by (simp add: escrow_ok_def after_release_def is_approved_def)
    then have "escrows_ok db'" using escrows_ok_put [OF escrows_ok_frame [OF fr wf(2)]] by (simp add: db')
    moreover have "phase_at ?k db' = escrow_phase_of e" using row ph(2) by (simp add: phase_at_def db')
    ultimately show ?thesis using r ph by (auto simp: escrow_effect_def conserves_def db' ledger_frameD [OF fr])
  qed
qed

section \<open>Expiry\<close>

definition escrow_inv :: "database \<Rightarrow> database \<Rightarrow> bool" where
  "escrow_inv db0 db \<longleftrightarrow> conserves db0 db \<and> requests_of db = requests_of db0"

interpretation escrow_queue: due_loop db_escrows escrow_before escrow_due expire_escrow "escrow_inv g" for g
proof unfold_locales
  fix db a b
  assume "escrow_due db b" "\<not> escrow_due db a"
  then show "escrow_before b a \<and> \<not> escrow_before a b" by (auto simp: escrow_due_def escrow_before_def)
next
  fix db k e db'
  assume inv: "escrow_inv g db" and row: "t_get k (db_escrows db) = Some e" and ex: "expire_escrow e db = Inr db'"
  have "k = (esc_from e, esc_escrow_id e)" using wf_escrow_at [OF _ row] inv by (simp add: escrow_inv_def conserves_def wf_escrow_def)
  with ex have "refund_escrow k e db = Inr db'" by (simp add: expire_escrow_def)
  from refund_escrow_ok [OF this _ row] inv
  show "escrow_inv g db' \<and> db_escrows db' = t_remove k (db_escrows db) \<and> escrow_due db' = escrow_due db"
    by (auto simp: escrow_inv_def conserves_def escrow_due_def fun_eq_iff)
qed (simp add: escrow_inv_def conserves_def wf_db_def)

lemma expire_escrow_ratification_ok:
  assumes "expire_escrow_ratification db = Inr db'" "wf_db db"
  shows "conserves db db' \<and> db_escrows db' = filter (\<lambda>r. \<not> escrow_due db (snd r)) (db_escrows db)
    \<and> requests_of db' = requests_of db"
  using escrow_queue.process_due_all [of "length (db_escrows db)" db db' db] assms
  by (simp add: expire_escrow_ratification_def escrow_inv_def conserves_def)

text \<open>The refund of an escrow on the books of a solvent chain cannot fail.\<close>

definition senders_exist :: "database \<Rightarrow> bool" where
  "senders_exist db \<longleftrightarrow> t_all (\<lambda>_ e. t_get (esc_from e) (db_accounts db) \<noteq> None) (db_escrows db)"

definition refundable :: "database \<Rightarrow> bool" where
  "refundable db \<longleftrightarrow> solvent db \<and> backed db \<and> senders_exist db \<and> has_hardfork 28 db"

lemma refund_escrow_live:
  assumes wf: "wf_db db" and rf: "refundable db" and row: "t_get k (db_escrows db) = Some e"
  shows "\<exists>db'. refund_escrow k e db = Inr db' \<and> solvent db' \<and> (\<forall>s. issued s db' = issued s db)
    \<and> db_hardfork db' = db_hardfork db \<and> (\<forall>n. t_get n (db_accounts db) \<noteq> None \<longrightarrow> t_get n (db_accounts db') \<noteq> None)"
proof -
  let ?n = "fst k" and ?st = "esc_steem_balance e" and ?sb = "esc_sbd_balance e" and ?fee = "esc_pending_fee e"
  have wfe: "wf_escrow k e" using wf_escrow_at [OF wf row] .
  have sol: "solvent db" "backed db" "has_hardfork 28 db" using rf by (simp_all add: refundable_def)
  have se: "escrow_solvent e" using sol(1) row by (auto simp: solvent_def dest: t_all_get)
  then have nn: "0 \<le> amount ?st" "0 \<le> amount ?sb" "0 \<le> amount ?fee" by (simp_all add: escrow_solvent_def)
  have sy: "symbol ?st \<in> {STEEM_SYMBOL, SBD_SYMBOL}" "symbol ?sb \<in> {STEEM_SYMBOL, SBD_SYMBOL}" "symbol ?fee \<in> {STEEM_SYMBOL, SBD_SYMBOL}"
    using wfe by (auto simp: wf_escrow_def)
  obtain a where a: "t_get ?n (db_accounts db) = Some a"
    using rf row wfe by (auto simp: refundable_def senders_exist_def wf_escrow_def dest: t_all_get)
  have r0: "credit_ready ?n a (\<lambda>s. esc_held s e) db"
    using sol a wf_account_at [OF wf a] solvent_account [OF sol(1) a] room_for_escrow [OF sol(1,2) wf a row]
    by (simp add: credit_ready_def)
  have parts: "asset_in s ?st \<le> esc_held s e" "asset_in s ?sb \<le> esc_held s e - asset_in s ?st"
    "asset_in s ?fee \<le> esc_held s e - asset_in s ?st - asset_in s ?sb" for s
    using nn by (simp_all add: esc_held_def asset_in_nonneg)
  let ?db1 = "set_account ?n (credited a ?st) db"
  let ?db2 = "set_account ?n (credited (credited a ?st) ?sb) ?db1"
  let ?db3 = "set_account ?n (credited (credited (credited a ?st) ?sb) ?fee) ?db2"
  note 1 = credit_ready_step [OF r0 sy(1) nn(1) parts(1)]
  note 2 = credit_ready_step [OF conjunct2 [OF 1] sy(2) nn(2) parts(2)]
  note 3 = credit_ready_step [OF conjunct2 [OF 2] sy(3) nn(3) parts(3)]
  have "solvent ?db3" using credit_ready_solvent [OF sol(1) r0 nn(1)]
      credit_ready_solvent [OF _ conjunct2 [OF 1] nn(2)] credit_ready_solvent [OF _ conjunct2 [OF 2] nn(3)] by blast
  then have "solvent (?db3\<lparr>db_escrows := t_remove k (db_escrows ?db3)\<rparr>)" by (simp add: solvent_def t_all_remove)
  moreover have "refund_escrow k e db = Inr (?db3\<lparr>db_escrows := t_remove k (db_escrows ?db3)\<rparr>)"
    using 1 2 3 a by (simp add: refund_escrow_def get_account_def)
  moreover have "issued s (?db3\<lparr>db_escrows := t\<rparr>) = issued s db" for s t
    by (simp add: issued_def set_account_def)
  ultimately show ?thesis by (intro exI [of _ "?db3\<lparr>db_escrows := t_remove k (db_escrows ?db3)\<rparr>"]) auto
qed

lemma expire_escrow_live:
  assumes inv: "escrow_inv g db" "refundable db" and row: "t_get k (db_escrows db) = Some e"
  shows "\<exists>db'. expire_escrow e db = Inr db' \<and> refundable db'"
proof -
  have wf: "wf_db db" using inv(1) by (simp add: escrow_inv_def conserves_def)
  have k: "k = (esc_from e, esc_escrow_id e)" using wf_escrow_at [OF wf row] by (simp add: wf_escrow_def)
  obtain db' where db': "refund_escrow k e db = Inr db'" "solvent db'" "\<And>s. issued s db' = issued s db"
    "db_hardfork db' = db_hardfork db" "\<And>n. t_get n (db_accounts db) \<noteq> None \<Longrightarrow> t_get n (db_accounts db') \<noteq> None"
    using refund_escrow_live [OF wf inv(2) row] by blast
  from refund_escrow_ok [OF db'(1) wf row] have R: "\<And>s. gap s db' = gap s db" "db_escrows db' = t_remove k (db_escrows db)"
    by (simp_all add: conserves_def)
  have "senders_exist db'" using inv(2) db'(5) by (auto simp: refundable_def senders_exist_def R(2) t_all_def t_remove_def)
  then have "refundable db'" using inv(2) db' R(1) by (simp add: refundable_def backed_def has_hardfork_def)
  with db'(1) show ?thesis by (auto simp: expire_escrow_def k)
qed

interpretation live_escrow_queue: live_due_loop db_escrows escrow_before escrow_due expire_escrow
  "\<lambda>db. escrow_inv g db \<and> refundable db" for g
proof unfold_locales
  fix db k v db'
  assume *: "escrow_inv g db \<and> refundable db" "t_get k (db_escrows db) = Some v" "escrow_due db v"
  {
    assume "expire_escrow v db = Inr db'"
    with * show "(escrow_inv g db' \<and> refundable db') \<and> db_escrows db' = t_remove k (db_escrows db) \<and> escrow_due db' = escrow_due db"
      using escrow_queue.body_step [of g db k v db'] expire_escrow_live [of g db k v] by auto
  }
  show "\<exists>db'. expire_escrow v db = Inr db'" using * expire_escrow_live [of g db k v] by blast
qed (use escrow_queue.lt_due escrow_queue.inv_wf in blast)+

section \<open>Properties\<close>

datatype escrow_op = Escrow_Transfer escrow_transfer_operation | Escrow_Approve escrow_approve_operation
  | Escrow_Dispute escrow_dispute_operation | Escrow_Release escrow_release_operation

fun escrow_validate :: "text_lib \<Rightarrow> escrow_op \<Rightarrow> unit result" where
  "escrow_validate L (Escrow_Transfer o1) = escrow_transfer_validate L o1"
| "escrow_validate L (Escrow_Approve o1) = escrow_approve_validate o1"
| "escrow_validate L (Escrow_Dispute o1) = escrow_dispute_validate o1"
| "escrow_validate L (Escrow_Release o1) = escrow_release_validate o1"

fun escrow_apply :: "escrow_op \<Rightarrow> database \<Rightarrow> database result" where
  "escrow_apply (Escrow_Transfer o1) = escrow_transfer_apply o1"
| "escrow_apply (Escrow_Approve o1) = escrow_approve_apply o1"
| "escrow_apply (Escrow_Dispute o1) = escrow_dispute_apply o1"
| "escrow_apply (Escrow_Release o1) = escrow_release_apply o1"

text \<open>The account whose active authority the operation requires, and the escrow it is about.\<close>

fun escrow_signer :: "escrow_op \<Rightarrow> account_name" where
  "escrow_signer (Escrow_Transfer o1) = et_from o1"
| "escrow_signer (Escrow_Approve o1) = ea_who o1"
| "escrow_signer (Escrow_Dispute o1) = ed_who o1"
| "escrow_signer (Escrow_Release o1) = er_who o1"

fun escrow_key :: "escrow_op \<Rightarrow> account_name \<times> 32 word" where
  "escrow_key (Escrow_Transfer o1) = (et_from o1, et_escrow_id o1)"
| "escrow_key (Escrow_Approve o1) = (ea_from o1, ea_escrow_id o1)"
| "escrow_key (Escrow_Dispute o1) = (ed_from o1, ed_escrow_id o1)"
| "escrow_key (Escrow_Release o1) = (er_from o1, er_escrow_id o1)"

lemma escrow_op_effect:
  assumes "escrow_validate L o1 = Inr ()" "escrow_apply o1 db = Inr db'" "wf_db db" "escrows_ok db"
  shows "escrow_effect (escrow_signer o1) (escrow_key o1) db db'"
  using assms by (cases o1) (auto intro: escrow_transfer_effect escrow_approve_effect escrow_dispute_effect escrow_release_effect)

text \<open>
  C2. The escrow evaluators implement the escrow state machine. A valid escrow operation that
  succeeds makes one allowed move of its escrow, in a role that the account required to sign it
  plays there (so only the receiver and the agent ratify, only a party disputes, only the agent
  releases a disputed escrow), leaves every other escrow alone, keeps the invariant of stored
  escrows and conserves money.
\<close>

theorem escrow_operations_refine:
  assumes "escrow_validate L o1 = Inr ()" "escrow_apply o1 db = Inr db'" "wf_db db" "escrows_ok db"
  shows "(\<exists>r. plays (escrow_key o1) db (escrow_signer o1) r
      \<and> escrow_move r (phase_at (escrow_key o1) db) (phase_at (escrow_key o1) db'))
    \<and> (\<forall>k. k \<noteq> escrow_key o1 \<longrightarrow> t_get k (db_escrows db') = t_get k (db_escrows db))
    \<and> escrows_ok db' \<and> conserves db db'"
  using escrow_op_effect [OF assms] unfolding escrow_effect_def by blast

text \<open>
  C21. \<open>expire_escrow_ratification\<close> always runs to its end on a solvent, backed chain from hardfork
  28 on: the refunds cannot overflow, the escrows that remain are exactly those that are ratified
  or whose deadline has not passed, and the chain stays solvent with the same books.
\<close>

theorem expire_escrow_ratification_live:
  assumes "wf_db db" "solvent db" "backed db" "senders_exist db" "has_hardfork 28 db"
  shows "\<exists>db'. expire_escrow_ratification db = Inr db' \<and> solvent db' \<and> conserves db db'
    \<and> db_escrows db' = filter (\<lambda>r. is_approved (snd r) \<or> head_block_time db < esc_ratification_deadline (snd r)) (db_escrows db)"
proof -
  have inv: "escrow_inv db db \<and> refundable db" using assms by (simp add: escrow_inv_def conserves_def refundable_def)
  obtain db' where p: "expire_escrow_ratification db = Inr db'"
    using live_escrow_queue.process_due_live [OF inv] by (auto simp: expire_escrow_ratification_def)
  have "refundable db'"
    using live_escrow_queue.process_due_all [OF p [unfolded expire_escrow_ratification_def] inv order_refl] by blast
  then show ?thesis using p expire_escrow_ratification_ok [OF p assms(1)]
    by (simp add: refundable_def escrow_due_def not_le)
qed

definition demo_escrow :: escrow_object where
  "demo_escrow = \<lparr>esc_escrow_id = 5, esc_from = ''alice'', esc_to = ''bob'', esc_agent = ''carol'',
     esc_ratification_deadline = 999999, esc_escrow_expiration = 2000000,
     esc_sbd_balance = mk_asset 0 SBD_SYMBOL, esc_steem_balance = mk_asset 90 STEEM_SYMBOL,
     esc_pending_fee = mk_asset 10 STEEM_SYMBOL, esc_to_approved = True, esc_agent_approved = False,
     esc_disputed = False\<rparr>"

definition demo_escrows :: "int \<Rightarrow> database" where
  "demo_escrows deadline = demo_db\<lparr>db_escrows := [((''alice'', 5), demo_escrow\<lparr>esc_ratification_deadline := deadline\<rparr>)],
     db_accounts := [(''alice'', (demo_account ''alice'')\<lparr>acc_balance := mk_asset 400 STEEM_SYMBOL\<rparr>),
       (''bob'', demo_account ''bob''), (''carol'', (demo_account ''carol'')\<lparr>acc_balance := mk_asset 0 STEEM_SYMBOL\<rparr>)]\<rparr>"

lemmas demo_escrow_defs = demo_defs demo_escrows_def demo_escrow_def

lemma demo_escrows_wf: "wf_db (demo_escrows d)" "escrows_ok (demo_escrows d)"
  by (simp_all add: demo_escrow_defs wf_db_def wf_account_def wf_dgp_def wf_escrow_def t_wf_def t_all_def
      escrows_ok_def escrow_ok_def is_approved_def)

lemma demo_escrows_solvent: "solvent (demo_escrows d)" "backed (demo_escrows d)" "senders_exist (demo_escrows d)"
  "has_hardfork 28 (demo_escrows d)"
  by (auto simp: demo_escrow_defs solvent_def account_solvent_def escrow_solvent_def dgp_solvent_def t_all_def senders_exist_def
      t_get_def has_hardfork_def backed_def gap_def issued_def held_def t_total_def acct_held_def esc_held_def dgp_held_def asset_in_def)

theorem expire_escrow_ratification_live_witness:
  "\<exists>db'. expire_escrow_ratification (demo_escrows 999999) = Inr db' \<and> solvent db' \<and> db_escrows db' = []"
  using expire_escrow_ratification_live [OF demo_escrows_wf(1) [of 999999] demo_escrows_solvent]
  by (auto simp: demo_escrow_defs is_approved_def)

definition demo_approve :: escrow_approve_operation where
  "demo_approve = \<lparr>ea_from = ''alice'', ea_to = ''bob'', ea_agent = ''carol'', ea_who = ''carol'', ea_escrow_id = 5, ea_approve = True\<rparr>"

lemma demo_names: "is_valid_account_name ''alice''" "is_valid_account_name ''bob''" "is_valid_account_name ''carol''"
  by code_simp+

lemma demo_approve_valid: "escrow_validate L (Escrow_Approve demo_approve) = Inr ()"
  by (simp add: escrow_approve_validate_def demo_approve_def check_param_account_def demo_names)

lemma demo_approve_run:
  "\<exists>db'. escrow_apply (Escrow_Approve demo_approve) (demo_escrows 1000001) = Inr db'
    \<and> map_option acc_balance (t_get ''carol'' (db_accounts db')) = Some (mk_asset 10 STEEM_SYMBOL)"
  by (simp add: escrow_approve_apply_def demo_approve_def demo_escrow_defs get_escrow_def t_get_def Let_def put_escrow_def
      t_modify_def get_account_def adjust_balance_def asset_add_def int64_ok_def set_account_def)

theorem escrow_operations_refine_witness:
  "\<exists>db'. escrow_apply (Escrow_Approve demo_approve) (demo_escrows 1000001) = Inr db' \<and> escrows_ok db'
    \<and> conserves (demo_escrows 1000001) db'"
  using escrow_operations_refine [OF demo_approve_valid _ demo_escrows_wf] demo_approve_run by blast

end
