(* ===== verification/Convert.thy ===== *)
theory Convert
  imports Ledger_Demo Operations
begin

text \<open>
  Conversion between GOLOS and GBG: the evaluators of \<open>feed_publish\<close> and \<open>convert\<close>
  (\<^verbatim>\<open>steem_evaluator.cpp\<close>) and \<open>database::process_conversions\<close>, which executes the requests that
  are due at the median price, collects the net change of both supplies over the whole loop and
  books it at the end. The loop works on the triple of the state and the two net amounts; its
  invariant is that the books balance once the net amounts are booked.
\<close>

section \<open>Operations\<close>

definition STEEMIT_CONVERSION_DELAY_PRE_HF_16 :: int where
  "STEEMIT_CONVERSION_DELAY_PRE_HF_16 = 60 * 60 * 24 * 7"

definition STEEMIT_CONVERSION_DELAY :: int where
  "STEEMIT_CONVERSION_DELAY = 60 * 60 * (12 * 7)"

definition feed_publish_apply :: "feed_publish_operation \<Rightarrow> database \<Rightarrow> database result" where
  "feed_publish_apply o1 db =
     rbind (get_witness (fp_publisher o1) db) (\<lambda>w.
     Inr (db\<lparr>db_witnesses := t_modify (fp_publisher o1)
       (\<lambda>_. w\<lparr>wit_sbd_exchange_rate := fp_exchange_rate o1, wit_last_sbd_exchange_update := head_block_time db\<rparr>)
       (db_witnesses db)\<rparr>))"

text \<open>The fee of a conversion, and the rejection of what may not be converted.\<close>

definition convert_fee :: "asset \<Rightarrow> database \<Rightarrow> asset result" where
  "convert_fee x db =
    (if has_hardfork 26 db then
       if symbol x = STEEM_SYMBOL then
         rbind (u128_amount (u128 (amount x) * u128 (uint (convert_fee_percent (db_median_props db)))
           div u128 STEEMIT_100_PERCENT)) (\<lambda>f.
         rbind (check_logic ''amount_is_too_low'' (0 < f)) (\<lambda>_. Inr (mk_asset f (symbol x))))
       else Inr (mk_asset 0 (symbol x))
     else rbind (check_param ''amount'' (check_asset_gt0 GBG x)) (\<lambda>_. Inr (mk_asset 0 (symbol x))))"

definition new_convert_request :: "convert_operation \<Rightarrow> asset \<Rightarrow> database \<Rightarrow> convert_request_object" where
  "new_convert_request o1 fee db = \<lparr>cr_owner = cv_owner o1, cr_requestid = cv_requestid o1,
     cr_amount = cv_amount o1, cr_fee = fee,
     cr_conversion_date = head_block_time db +
       (if has_hardfork 16 db then STEEMIT_CONVERSION_DELAY else STEEMIT_CONVERSION_DELAY_PRE_HF_16)\<rparr>"

definition convert_apply :: "convert_operation \<Rightarrow> database \<Rightarrow> database result" where
  "convert_apply o1 db =
    (if cv_requestid o1 = 1701500266 then Inr db
     else rbind (convert_fee (cv_amount o1) db) (\<lambda>fee.
     rbind (get_account (cv_owner o1) db) (\<lambda>_.
     rbind (check_balance (cv_owner o1) MAIN_BALANCE (cv_amount o1) db) (\<lambda>_.
     rbind (asset_neg (cv_amount o1)) (\<lambda>m.
     rbind (adjust_balance (cv_owner o1) m db) (\<lambda>db1.
     rbind (check_logic ''no_price_feed_yet'' (\<not> price_is_null (db_median_history db1))) (\<lambda>_.
     rbind (throw_if_exists_convert_request (cv_owner o1) (cv_requestid o1) db1) (\<lambda>_.
     rbind (t_insert (cv_owner o1, cv_requestid o1) (new_convert_request o1 fee db1) (db_converts db1)) (\<lambda>t.
     Inr (db1\<lparr>db_converts := t\<rparr>))))))))))"

text \<open>The state of the loop: the database, \<open>net_sbd\<close> and \<open>net_steem\<close>.\<close>

type_synonym conversion_state = "database \<times> asset \<times> asset"

definition convert_before :: "convert_request_object \<Rightarrow> convert_request_object \<Rightarrow> bool" where
  "convert_before a b \<longleftrightarrow> cr_conversion_date a < cr_conversion_date b"

definition convert_due :: "conversion_state \<Rightarrow> convert_request_object \<Rightarrow> bool" where
  "convert_due st r \<longleftrightarrow> cr_conversion_date r \<le> head_block_time (fst st)"

definition net_change :: "asset \<Rightarrow> asset \<Rightarrow> asset \<Rightarrow> asset \<Rightarrow> (asset \<times> asset) result" where
  "net_change x issue net_sbd net_steem =
    (if symbol x = STEEM_SYMBOL then
       rbind (asset_sub net_sbd issue) (\<lambda>a. rbind (asset_sub net_steem x) (\<lambda>b. Inr (a, b)))
     else rbind (asset_add net_sbd x) (\<lambda>a. rbind (asset_add net_steem issue) (\<lambda>b. Inr (a, b))))"

definition fill_convert_request :: "convert_request_object \<Rightarrow> conversion_state \<Rightarrow> conversion_state result" where
  "fill_convert_request r st = (case st of (db, net_sbd, net_steem) \<Rightarrow>
     rbind (get_account (cr_owner r) db) (\<lambda>user.
     rbind (asset_sub (cr_amount r) (cr_fee r)) (\<lambda>clean_amount.
     rbind (asset_mul_price clean_amount (db_median_history db)) (\<lambda>issue.
     rbind (adjust_balance (cr_owner r) issue db) (\<lambda>db1.
     rbind (net_change (cr_amount r) issue net_sbd net_steem) (\<lambda>(a, b).
     Inr ((push_log (Fill_Convert_Request_Op (acc_name user) (cr_requestid r) (cr_amount r) issue (cr_fee r)) db1)
       \<lparr>db_converts := t_remove (cr_owner r, cr_requestid r) (db_converts db1)\<rparr>, a, b)))))))"

text \<open>What the net change of GBG is worth in GOLOS; the product is taken of its absolute value.\<close>

definition converted_sbd :: "asset \<Rightarrow> price \<Rightarrow> asset result" where
  "converted_sbd net_sbd p =
    (if amount net_sbd < 0 then
       rbind (asset_neg net_sbd) (\<lambda>n. rbind (asset_mul_price n p) asset_neg)
     else asset_mul_price net_sbd p)"

definition book_conversions :: "conversion_state \<Rightarrow> database result" where
  "book_conversions st = (case st of (db, net_sbd, net_steem) \<Rightarrow>
     rbind (converted_sbd net_sbd (db_median_history db)) (\<lambda>c.
     modify_dgp (\<lambda>p.
       rbind (asset_add (dgp_current_supply p) net_steem) (\<lambda>cs.
       rbind (asset_sub (dgp_current_sbd_supply p) net_sbd) (\<lambda>ss.
       rbind (asset_add (dgp_virtual_supply p) net_steem) (\<lambda>vs.
       rbind (asset_sub vs c) (\<lambda>vs'.
       Inr (p\<lparr>dgp_current_supply := cs, dgp_current_sbd_supply := ss, dgp_virtual_supply := vs'\<rparr>)))))) db))"

definition process_conversions :: "database \<Rightarrow> database result" where
  "process_conversions db =
    (if price_is_null (db_median_history db) then Inr db
     else rbind (process_due (length (db_converts db)) (\<lambda>st. db_converts (fst st)) convert_before convert_due
         fill_convert_request (db, mk_asset 0 SBD_SYMBOL, mk_asset 0 STEEM_SYMBOL)) book_conversions)"

section \<open>Money\<close>

lemma feed_publish_ok:
  assumes "feed_publish_apply o1 db = Inr db'" "wf_db db"
  shows "conserves db db' \<and> requests_of db' = requests_of db \<and> db_escrows db' = db_escrows db"
  using assms by (auto simp: feed_publish_apply_def conserves_def wf_db_def requests_of_def gap_def issued_def held_def)

lemma convert_fee_symbol: "convert_fee x db = Inr f \<Longrightarrow> symbol f = symbol x"
  by (auto simp: convert_fee_def split: if_splits)

lemma convert_ok:
  assumes ap: "convert_apply o1 db = Inr db'" and v: "convert_validate o1 = Inr ()" and wf: "wf_db db"
  shows "conserves db db' \<and> requests_of db' = requests_of db \<and> db_escrows db' = db_escrows db"
proof (cases "cv_requestid o1 = 1701500266")
  case True
  then show ?thesis using ap wf by (simp add: convert_apply_def conserves_refl)
next
  case False
  let ?k = "(cv_owner o1, cv_requestid o1)"
  obtain fee m db1 where fee: "convert_fee (cv_amount o1) db = Inr fee"
    and neg: "asset_neg (cv_amount o1) = Inr m" and adj: "adjust_balance (cv_owner o1) m db = Inr db1"
    and free: "t_get ?k (db_converts db1) = None"
    and db': "db' = db1\<lparr>db_converts := t_create ?k (new_convert_request o1 fee db1) (db_converts db1)\<rparr>"
    using ap False by (auto simp: convert_apply_def simp del: asset_neg_Inr)
  note P = pay_in [OF neg adj wf]
  have "symbol (cv_amount o1) \<in> {STEEM_SYMBOL, SBD_SYMBOL}" using v by (auto simp: convert_validate_def)
  then have "wf_convert ?k (new_convert_request o1 fee db1)"
    using convert_fee_symbol [OF fee] by (simp add: wf_convert_def new_convert_request_def)
  then have "wf_db db'" unfolding db' by (rule wf_rows_create(3) [OF P(1) free])
  moreover have "gap s db' = gap s db" for s
    using P(2) [of s] unfolding db' gap_converts_create by (simp add: new_convert_request_def)
  moreover have "requests_of db' = requests_of db" "db_escrows db' = db_escrows db"
    unfolding db' by (simp_all add: ledger_frameD [OF P(3)])
  ultimately show ?thesis by (simp add: conserves_def)
qed

definition conversion_inv :: "(asset_symbol_type \<Rightarrow> int) \<Rightarrow> database \<Rightarrow> conversion_state \<Rightarrow> bool" where
  "conversion_inv g db0 st \<longleftrightarrow> (case st of (db, net_sbd, net_steem) \<Rightarrow> wf_db db
     \<and> symbol net_sbd = SBD_SYMBOL \<and> symbol net_steem = STEEM_SYMBOL
     \<and> (\<forall>s. gap s db + asset_in s net_steem - asset_in s net_sbd = g s)
     \<and> requests_of db = requests_of db0 \<and> db_escrows db = db_escrows db0)"

lemma net_change_balance:
  assumes "net_change x issue a b = Inr (a', b')" "symbol a = SBD_SYMBOL" "symbol b = STEEM_SYMBOL"
    "symbol x \<in> {STEEM_SYMBOL, SBD_SYMBOL}"
  shows "symbol a' = SBD_SYMBOL \<and> symbol b' = STEEM_SYMBOL
    \<and> asset_in s b' - asset_in s a' = asset_in s b - asset_in s a + asset_in s issue - asset_in s x"
  using assms by (auto simp: net_change_def asset_in_def split: if_splits)

lemma push_log_converts: "(push_log ev db)\<lparr>db_converts := t\<rparr> = push_log ev (db\<lparr>db_converts := t\<rparr>)"
  by (simp add: push_log_def)

lemma fill_convert_request_ok:
  assumes fc: "fill_convert_request r st = Inr st'" and inv: "conversion_inv g db0 st"
    and row: "t_get k (db_converts (fst st)) = Some r"
  shows "conversion_inv g db0 st' \<and> db_converts (fst st') = t_remove k (db_converts (fst st))
    \<and> head_block_time (fst st') = head_block_time (fst st)"
proof -
  obtain db a b where st: "st = (db, a, b)" by (cases st)
  have wf: "wf_db db" and sy: "symbol a = SBD_SYMBOL" "symbol b = STEEM_SYMBOL"
    and g: "\<And>s. gap s db + asset_in s b - asset_in s a = g s"
    and same: "requests_of db = requests_of db0" "db_escrows db = db_escrows db0"
    using inv by (auto simp: conversion_inv_def st)
  have r: "t_get k (db_converts db) = Some r" using row by (simp add: st)
  have wr: "wf_convert k r" using wf_convert_at [OF wf r] .
  then have k: "k = (cr_owner r, cr_requestid r)" by (simp add: wf_convert_def prod_eq_iff)
  obtain ev issue db1 a' b' where adj: "adjust_balance (cr_owner r) issue db = Inr db1"
    and nc: "net_change (cr_amount r) issue a b = Inr (a', b')"
    and st': "st' = (push_log ev (db1\<lparr>db_converts := t_remove k (db_converts db1)\<rparr>), a', b')"
    using fc by (auto simp: fill_convert_request_def st k push_log_converts simp del: asset_sub_Inr)
  note P = pay_out [OF adj wf]
  have r1: "t_get k (db_converts db1) = Some r" using r by (simp add: ledger_frameD [OF P(3)])
  have N: "symbol a' = SBD_SYMBOL" "symbol b' = STEEM_SYMBOL"
    "asset_in s b' - asset_in s a' = asset_in s b - asset_in s a + asset_in s issue - asset_in s (cr_amount r)" for s
    using net_change_balance [OF nc sy] wr by (auto simp: wf_convert_def)
  have "gap s (fst st') + asset_in s b' - asset_in s a' = g s" for s
    using gap_converts [OF P(1) r1, of s] P(2) [of s] N(3) [of s] g [of s] by (simp add: st')
  then show ?thesis using wf_rows_remove(3) [OF P(1)] N(1,2) same
    by (simp add: conversion_inv_def st' st) (simp add: push_log_def ledger_frameD [OF P(3)])
qed

interpretation conversion_queue: due_loop "\<lambda>st. db_converts (fst st)" convert_before convert_due fill_convert_request
  "conversion_inv g db0" for g db0
proof unfold_locales
  fix st a b
  assume "convert_due st b" "\<not> convert_due st a"
  then show "convert_before b a \<and> \<not> convert_before a b" by (simp add: convert_due_def convert_before_def)
next
  fix st k r st'
  assume "conversion_inv g db0 st" "t_get k (db_converts (fst st)) = Some r" "fill_convert_request r st = Inr st'"
  then show "conversion_inv g db0 st' \<and> db_converts (fst st') = t_remove k (db_converts (fst st)) \<and> convert_due st' = convert_due st"
    using fill_convert_request_ok [of r st st' g db0 k] by (simp add: convert_due_def fun_eq_iff)
qed (auto simp: conversion_inv_def wf_db_def)

lemma book_conversions_ok:
  assumes "book_conversions (db, a, b) = Inr db'" "conversion_inv g db0 (db, a, b)"
  shows "wf_db db' \<and> gap s db' = g s \<and> db_converts db' = db_converts db
    \<and> requests_of db' = requests_of db0 \<and> db_escrows db' = db_escrows db0"
proof -
  have wf: "wf_db db" and sy: "symbol a = SBD_SYMBOL" "symbol b = STEEM_SYMBOL"
    and g: "gap s db + asset_in s b - asset_in s a = g s"
    using assms(2) by (auto simp: conversion_inv_def)
  have same: "requests_of db = requests_of db0" "db_escrows db = db_escrows db0"
    using assms(2) by (auto simp: conversion_inv_def)
  obtain vs' where db': "db' = db\<lparr>db_dgp := (db_dgp db)
      \<lparr>dgp_current_supply := mk_asset (amount (dgp_current_supply (db_dgp db)) + amount b) STEEM_SYMBOL,
       dgp_current_sbd_supply := mk_asset (amount (dgp_current_sbd_supply (db_dgp db)) - amount a) SBD_SYMBOL,
       dgp_virtual_supply := vs'\<rparr>\<rparr>" and vs: "symbol vs' = STEEM_SYMBOL"
    using assms(1) wf_dgp_at [OF wf] sy by (auto simp: book_conversions_def wf_dgp_def)
  show ?thesis using g sy wf_dgp_at [OF wf] vs same
    by (auto simp: db' gap_dgp dgp_held_def asset_in_def wf_dgp_def intro!: wf_set_dgp [OF wf])
qed

lemma process_conversions_ok:
  assumes pr: "process_conversions db = Inr db'" and wf: "wf_db db"
  shows "conserves db db' \<and> requests_of db' = requests_of db \<and> db_escrows db' = db_escrows db
    \<and> (\<not> price_is_null (db_median_history db) \<longrightarrow>
       db_converts db' = filter (\<lambda>r. head_block_time db < cr_conversion_date (snd r)) (db_converts db))"
proof (cases "price_is_null (db_median_history db)")
  case True
  with pr wf show ?thesis by (simp add: process_conversions_def conserves_refl)
next
  case False
  let ?st = "(db, mk_asset 0 SBD_SYMBOL, mk_asset 0 STEEM_SYMBOL)"
  obtain db1 a b where p: "process_due (length (db_converts db)) (\<lambda>st. db_converts (fst st)) convert_before convert_due
      fill_convert_request ?st = Inr (db1, a, b)" and bk: "book_conversions (db1, a, b) = Inr db'"
    using pr False by (auto simp: process_conversions_def)
  have inv: "conversion_inv (\<lambda>s. gap s db) db ?st" using wf by (simp add: conversion_inv_def)
  have Q: "conversion_inv (\<lambda>s. gap s db) db (db1, a, b)"
    "db_converts db1 = filter (\<lambda>r. \<not> convert_due ?st (snd r)) (db_converts db)"
    using conversion_queue.process_due_all [OF p inv] by simp_all
  from book_conversions_ok [OF bk Q(1)] Q(2) show ?thesis
    by (simp add: conserves_def convert_due_def not_le)
qed

lemma convert_solvent:
  assumes ap: "convert_apply o1 db = Inr db'" and v: "convert_validate o1 = Inr ()"
    and sol: "solvent db" "has_hardfork 28 db" "wf_db db"
  shows "solvent db'"
proof (cases "cv_requestid o1 = 1701500266")
  case True
  then show ?thesis using ap sol by (simp add: convert_apply_def)
next
  case False
  let ?k = "(cv_owner o1, cv_requestid o1)"
  obtain fee m db1 where 1: "check_balance (cv_owner o1) MAIN_BALANCE (cv_amount o1) db = Inr ()"
    "asset_neg (cv_amount o1) = Inr m" "adjust_balance (cv_owner o1) m db = Inr db1"
    and db': "db' = db1\<lparr>db_converts := t_create ?k (new_convert_request o1 fee db1) (db_converts db1)\<rparr>"
    using ap False by (auto simp: convert_apply_def simp del: asset_neg_Inr)
  have "0 \<le> amount (cv_amount o1)" using v by (auto simp: convert_validate_def)
  then have "0 \<le> amount (cr_amount (new_convert_request o1 fee db1))" by (simp add: new_convert_request_def)
  with debit_solvent [OF 1 sol(1) has_hardfork_mono [OF sol(2)] sol(3)] show ?thesis by (simp add: db' solvent_def)
qed

section \<open>Properties\<close>

text \<open>
  C22. \<open>process_conversions\<close> conserves money: although it credits the owners one by one and books
  the two supplies only once at the end, the books of every asset balance afterwards as they did
  before, and, once there is a price, the requests that remain are exactly those that are not due.
\<close>

theorem process_conversions_books:
  assumes "process_conversions db = Inr db'" "wf_db db"
  shows "conserves db db' \<and> (\<not> price_is_null (db_median_history db) \<longrightarrow>
    db_converts db' = filter (\<lambda>r. head_block_time db < cr_conversion_date (snd r)) (db_converts db))"
  using process_conversions_ok [OF assms] by blast

definition demo_conversion :: database where
  "demo_conversion = demo_db\<lparr>
     db_dgp := demo_dgp\<lparr>dgp_current_sbd_supply := mk_asset 100 SBD_SYMBOL, dgp_virtual_supply := mk_asset 1100 STEEM_SYMBOL\<rparr>,
     db_converts := [((''alice'', 3), \<lparr>cr_owner = ''alice'', cr_requestid = 3, cr_amount = mk_asset 100 SBD_SYMBOL,
       cr_fee = mk_asset 0 SBD_SYMBOL, cr_conversion_date = 999999\<rparr>)]\<rparr>"

lemmas demo_conversion_defs = demo_defs demo_conversion_def

lemma demo_conversion_wf: "wf_db demo_conversion"
  by (simp add: demo_conversion_defs wf_db_def wf_account_def wf_dgp_def wf_convert_def t_wf_def t_all_def)

lemma demo_price:
  "asset_mul_price (mk_asset 100 SBD_SYMBOL) (mk_price (mk_asset 1000 SBD_SYMBOL) (mk_asset 1000 STEEM_SYMBOL))
     = Inr (mk_asset 100 STEEM_SYMBOL)"
  "\<not> price_is_null (mk_price (mk_asset 1000 SBD_SYMBOL) (mk_asset 1000 STEEM_SYMBOL))"
  by (simp_all add: asset_mul_price_def u128_amount_mul_div price_is_null_iff core_symbols_distinct)

lemma demo_conversion_run:
  "\<exists>db'. process_conversions demo_conversion = Inr db'
    \<and> dgp_current_sbd_supply (db_dgp db') = mk_asset 0 SBD_SYMBOL \<and> dgp_current_supply (db_dgp db') = mk_asset 1100 STEEM_SYMBOL
    \<and> map_option acc_balance (t_get ''alice'' (db_accounts db')) = Some (mk_asset 600 STEEM_SYMBOL)"
  by (simp add: process_conversions_def demo_conversion_defs demo_price convert_due_def fill_convert_request_def
      get_account_def t_get_def asset_sub_def asset_add_def int64_ok_def adjust_balance_def set_account_def t_modify_def
      net_change_def push_log_def t_remove_def book_conversions_def converted_sbd_def modify_dgp_def)

theorem process_conversions_books_witness:
  "\<exists>db'. process_conversions demo_conversion = Inr db' \<and> conserves demo_conversion db' \<and> db_converts db' = []"
proof -
  obtain db' where p: "process_conversions demo_conversion = Inr db'" using demo_conversion_run by blast
  from process_conversions_books [OF p demo_conversion_wf] p show ?thesis
    by (auto simp: demo_conversion_defs demo_price)
qed

end
