(* ===== verification/Spec2Isabelle.thy ===== *)
theory Spec2Isabelle
  imports Asset_Text Fork_Database Delegation Transaction Savings Escrow Convert Market
begin

text \<open>
  A verification library for the Golos blockchain node.

  \<^bold>\<open>The program.\<close> The node keeps a replicated ledger. Blocks arrive from the network and enter the
  fork database (\<^verbatim>\<open>libraries/chain/fork_database.cpp\<close>), which keeps a tree of recent blocks and
  names the longest branch. A block carries signed transactions; a transaction carries operations
  (\<^verbatim>\<open>libraries/protocol\<close>: data, \<open>validate\<close>, required authorities). Before an operation is
  applied, the signatures are checked against the authorities of the accounts (\<open>sign_state\<close>), and
  then its evaluator (\<^verbatim>\<open>libraries/chain/steem_evaluator.cpp\<close>) changes the chain state through the
  ledger primitives of \<^verbatim>\<open>libraries/chain/database.cpp\<close>. After the transactions of a block, the
  database runs its maintenance loops (due withdrawals, conversions, expired orders and escrows).
  Amounts are 64-bit, tagged with a 128-bit symbol, and multiplied by prices in 128 bits.

  \<^bold>\<open>The theories\<close>, in the order of the dependencies. Records have the fields of the C++ structs with
  a prefix per struct; every function has the name of its C++ counterpart, with the suffix
  \<^verbatim>\<open>_apply\<close> for \<open>do_apply\<close> of an evaluator and \<^verbatim>\<open>_validate\<close> for \<open>validate\<close> of an operation. All
  fallible code returns a \<open>result\<close>: \<open>Inl\<close> is the exception the source throws.
  \<^item> \<open>Golos_Prelude\<close>: results, the check macros, list and option lemmas. \<open>Chain_Tables\<close>: the
    multi-index containers as association lists in creation order, with the locale of their laws.
    \<open>Due_Queue\<close>: the shape of the maintenance loops, as the locales \<open>due_loop\<close> (which rows remain)
    and \<open>live_due_loop\<close> (the loop ends without an error).
  \<^item> \<open>Uint128lh\<close> (\<^verbatim>\<open>uint128lh_t.hpp\<close>): the two-word integer implements 128-bit arithmetic.
    \<open>Asset\<close>, \<open>Asset_Text\<close> (\<^verbatim>\<open>asset.cpp\<close>): checked arithmetic, prices, multiplication by a price as
    exact floor division, the price order, and the round trips of the text and binary forms.
  \<^item> \<open>Authority\<close>, \<open>Sign_State\<close>: account names against their grammar, authorities, and the recursive
    signature check against an inductive notion of endorsement.
  \<^item> \<open>Chain_Properties\<close>, \<open>Operations\<close>, \<open>Transaction\<close>: the data and \<open>validate\<close> of the operations and
    of the chain properties, required authorities, \<open>verify_authority\<close> of a transaction and the
    minimal set of signatures.
  \<^item> \<open>Block\<close>, \<open>Fork_Database\<close>: block ids, the merkle root as a tree, the tree of blocks with its
    invariant, branches, head and window.
  \<^item> \<open>Chain_State\<close>: the objects of the chain and the record \<open>database\<close> that holds them.
    \<open>Ledger\<close>: \<open>adjust_balance\<close>, savings, market balances, supply and interest, with \<open>gap s db\<close>, the
    difference between what has been issued of an asset and what is held of it.
    \<open>Ledger_Frame\<close>: what the primitives leave alone. \<open>Solvency\<close>: no negative balance, and room for
    every refund. \<open>Ledger_Demo\<close>: a small concrete chain.
  \<^item> \<open>Block_Log\<close> (\<^verbatim>\<open>block_log.cpp\<close>): the two files of the block log, recovery after a crash.
    \<open>Block_Production\<close>: slots, header checks, missed slots and participation, the last irreversible
    block and what it sends to the block log.
  \<^item> \<open>Savings\<close>, \<open>Escrow\<close>, \<open>Convert\<close>, \<open>Market\<close>: the evaluators and maintenance loops of four parts of
    the ledger: which rows a loop processes, conservation of money, the escrow state machine, the
    bounds of a match, and that the loops for withdrawals and escrows cannot fail on a solvent chain.
  \<^item> \<open>Median_Props\<close>, \<open>Witness_Schedule\<close>: the medians of chain properties and price feeds, and the next
    round of witnesses: who is chosen, the shuffle as a permutation, what a supermajority decides.
    \<open>Voting\<close>: votes for witnesses and proxies; counters match the votes, routes have no loops.
  \<^item> \<open>Vesting\<close>, \<open>Delegation\<close>: buying and paying out vesting shares along the routes of an account, with
    conservation and the price of a share; delegations with their typing, the counters as sums of
    the rows, and the loop that gives expired delegations back.
  \<^item> This theory puts the four parts together: a run is any sequence of their operations and loops on
    the shared state, and the invariants of all parts hold along it.

  \<^bold>\<open>Recursion.\<close> The loops over tables take the number of rows as fuel and remove one row per step, so
  the fuel never runs out (\<open>process_due_all\<close> holds from that many steps on). The signature check
  recurses to the depth the source allows. The walks of the fork database recurse on block numbers and
  the loop over vesting withdrawals on the key of its index; their termination is a theorem. All other functions are structurally recursive.

  \<^bold>\<open>Parameters.\<close> Code outside the repository is an argument: hashes and the recovery of keys from
  signatures (fc), UTF-8, JSON and key-text checks (\<open>text_lib\<close>), and the order of account names in an
  index (\<open>name_less\<close>, which no result depends on).

  \<^bold>\<open>Not modelled.\<close> The undo sessions of chainbase (a failed
  operation is modelled by its error; that its changes are dropped is the contract of chainbase);
  the evaluators of comments, votes and rewards, of accounts, of tips,
  invites and user-issued assets (their data and \<open>validate\<close> are in \<open>Operations\<close>); proposals, worker
  requests, NFT and paid subscriptions; the proof-of-work operations, which the chain no longer
  accepts; the peer-to-peer network, the plugins and the wallet, which are
  input/output and clients of the chain state; virtual operations are kept as log entries only.
\<close>

section \<open>Runs of the ledger\<close>

text \<open>
  The evaluators and the maintenance loops act on one shared state, in any order the blocks give
  them. An event is one operation that passed its \<open>validate\<close> or one loop of the block
  maintenance; a run is a sequence of events that succeed. (An event that fails changes nothing: the
  undo session of the transaction or of the block is dropped.)
\<close>

datatype ledger_event = To_Savings transfer_to_savings_operation | From_Savings transfer_from_savings_operation
  | Cancel_From_Savings cancel_transfer_from_savings_operation | Escrow_Event escrow_op
  | Feed_Publish feed_publish_operation | Convert_Event convert_operation | Market_Event market_op
  | Clear_Expired_Orders | Process_Conversions | Process_Savings_Withdraws | Expire_Escrow_Ratification

inductive ledger_step :: "text_lib \<Rightarrow> (account_name \<Rightarrow> account_name \<Rightarrow> bool) \<Rightarrow> database \<Rightarrow> ledger_event \<Rightarrow> database \<Rightarrow> bool"
  for L name_less where
  to_savings: "transfer_to_savings_apply o1 db = Inr db' \<Longrightarrow> ledger_step L name_less db (To_Savings o1) db'"
| from_savings: "transfer_from_savings_apply o2 db = Inr db' \<Longrightarrow> ledger_step L name_less db (From_Savings o2) db'"
| cancel_savings: "cancel_transfer_from_savings_apply o3 db = Inr db' \<Longrightarrow> ledger_step L name_less db (Cancel_From_Savings o3) db'"
| escrow: "escrow_validate L o4 = Inr () \<Longrightarrow> escrow_apply o4 db = Inr db' \<Longrightarrow> ledger_step L name_less db (Escrow_Event o4) db'"
| feed: "feed_publish_apply o5 db = Inr db' \<Longrightarrow> ledger_step L name_less db (Feed_Publish o5) db'"
| convert: "convert_validate o6 = Inr () \<Longrightarrow> convert_apply o6 db = Inr db' \<Longrightarrow> ledger_step L name_less db (Convert_Event o6) db'"
| market: "market_validate o7 = Inr () \<Longrightarrow> market_apply o7 db = Inr db' \<Longrightarrow> ledger_step L name_less db (Market_Event o7) db'"
| clear_orders: "clear_expired_orders db = Inr db' \<Longrightarrow> ledger_step L name_less db Clear_Expired_Orders db'"
| conversions: "process_conversions db = Inr db' \<Longrightarrow> ledger_step L name_less db Process_Conversions db'"
| withdraws: "process_savings_withdraws name_less db = Inr db' \<Longrightarrow> ledger_step L name_less db Process_Savings_Withdraws db'"
| expire: "expire_escrow_ratification db = Inr db' \<Longrightarrow> ledger_step L name_less db Expire_Escrow_Ratification db'"

inductive_cases ledger_step_escrowE: "ledger_step L name_less db (Escrow_Event o4) db'"

inductive ledger_run :: "text_lib \<Rightarrow> (account_name \<Rightarrow> account_name \<Rightarrow> bool) \<Rightarrow> database \<Rightarrow> ledger_event list \<Rightarrow> database \<Rightarrow> bool"
  for L name_less where
  done_run: "ledger_run L name_less db [] db"
| step_run: "ledger_step L name_less db e db1 \<Longrightarrow> ledger_run L name_less db1 es db' \<Longrightarrow> ledger_run L name_less db (e # es) db'"

definition ledger_ok :: "database \<Rightarrow> bool" where
  "ledger_ok db \<longleftrightarrow> wf_db db \<and> withdraws_counted db \<and> escrows_ok db"

lemma ledger_ok_same:
  assumes "conserves db db'" "requests_of db' = requests_of db" "db_escrows db' = db_escrows db" "ledger_ok db"
  shows "ledger_ok db' \<and> conserves db db'"
  using assms withdraws_counted_same by (simp add: ledger_ok_def conserves_def escrows_ok_def)

lemma ledger_ok_moves: "moves (\<lambda>_. 0) db db' \<Longrightarrow> ledger_ok db \<Longrightarrow> ledger_ok db' \<and> conserves db db'"
  by (rule ledger_ok_same) (simp_all add: moves_def conserves_def side_frameD)

lemma ledger_ok_frame: "conserves db db' \<and> ledger_frame db db' \<Longrightarrow> ledger_ok db \<Longrightarrow> ledger_ok db' \<and> conserves db db'"
  by (rule ledger_ok_same) (simp_all add: ledger_frameD)

lemma ledger_ok_savings:
  "conserves db db' \<and> withdraws_counted db' \<and> db_escrows db' = db_escrows db \<Longrightarrow> ledger_ok db \<Longrightarrow> ledger_ok db' \<and> conserves db db'"
  by (simp add: ledger_ok_def conserves_def escrows_ok_def)

lemma ledger_ok_escrow: "escrow_effect who k db db' \<Longrightarrow> ledger_ok db \<Longrightarrow> ledger_ok db' \<and> conserves db db'"
  using withdraws_counted_same by (simp add: escrow_effect_def ledger_ok_def conserves_def)

lemma ledger_step_ok: "ledger_step L name_less db e db' \<Longrightarrow> ledger_ok db \<Longrightarrow> ledger_ok db' \<and> conserves db db'"
proof (induction rule: ledger_step.induct)
  case (to_savings o1 db db')
  then show ?case using ledger_ok_frame [OF transfer_to_savings_ok] by (simp add: ledger_ok_def)
next
  case (from_savings o2 db db')
  then show ?case using ledger_ok_savings [OF transfer_from_savings_ok] by (simp add: ledger_ok_def)
next
  case (cancel_savings o3 db db')
  then show ?case using ledger_ok_savings [OF cancel_transfer_from_savings_ok] by (simp add: ledger_ok_def)
next
  case (escrow o4 db db')
  then show ?case using ledger_ok_escrow [OF escrow_op_effect] by (simp add: ledger_ok_def)
next
  case (feed o5 db db')
  then show ?case using feed_publish_ok ledger_ok_same by (metis ledger_ok_def)
next
  case (convert o6 db db')
  then show ?case using convert_ok ledger_ok_same by (metis ledger_ok_def)
next
  case (market o7 db db')
  then show ?case using ledger_ok_moves [OF market_moves] by (simp add: ledger_ok_def)
next
  case (clear_orders db db')
  then show ?case using clear_expired_orders_moves ledger_ok_moves by (metis ledger_ok_def)
next
  case (conversions db db')
  then show ?case using process_conversions_ok ledger_ok_same by (metis ledger_ok_def)
next
  case (withdraws db db')
  then show ?case using process_savings_withdraws_ok ledger_ok_savings by (metis ledger_ok_def)
next
  case (expire db db')
  then have E: "conserves db db'" "requests_of db' = requests_of db"
    "db_escrows db' = filter (\<lambda>r. \<not> escrow_due db (snd r)) (db_escrows db)"
    using expire_escrow_ratification_ok by (auto simp: ledger_ok_def)
  then have "escrows_ok db'" using expire by (auto simp: ledger_ok_def escrows_ok_def t_all_def)
  then show ?case using E withdraws_counted_same expire by (simp add: ledger_ok_def conserves_def)
qed

lemma ledger_run_ok: "ledger_run L name_less db es db' \<Longrightarrow> ledger_ok db \<Longrightarrow> ledger_ok db' \<and> conserves db db'"
proof (induction rule: ledger_run.induct)
  case (done_run db)
  then show ?case by (simp add: conserves_refl ledger_ok_def)
next
  case (step_run db e db1 es db')
  then show ?case using ledger_step_ok conserves_trans by blast
qed

section \<open>Properties\<close>

text \<open>
  C1. Invariant of every run. Whatever valid savings, escrow, conversion, price feed and market
  operations and maintenance loops are applied, in whatever order, from a well-formed state whose
  withdrawal counters and escrows are in order: the state stays well-formed, the counters stay
  equal to the pending withdrawals, the stored escrows stay in order, and for every asset the
  difference between what has been issued and what is held never changes.
\<close>

theorem ledger_run_invariant:
  assumes "ledger_run L name_less db es db'" "wf_db db" "withdraws_counted db" "escrows_ok db"
  shows "wf_db db' \<and> withdraws_counted db' \<and> escrows_ok db' \<and> (\<forall>s. gap s db' = gap s db)"
  using ledger_run_ok [OF assms(1)] assms(2-4) by (simp add: ledger_ok_def conserves_def)

lemma demo_ledger_run:
  "\<exists>db'. ledger_run L (\<lambda>_ _. False) demo_savings [Clear_Expired_Orders, Expire_Escrow_Ratification, Process_Savings_Withdraws] db'
    \<and> map_option acc_balance (t_get ''bob'' (db_accounts db')) = Some (mk_asset 700 STEEM_SYMBOL)"
proof -
  have "clear_expired_orders demo_savings = Inr demo_savings" "expire_escrow_ratification demo_savings = Inr demo_savings"
    by (simp_all add: clear_expired_orders_def expire_escrow_ratification_def demo_savings_defs)
  then show ?thesis using demo_savings_run by (auto intro!: ledger_run.intros intro: ledger_step.intros)
qed

theorem ledger_run_invariant_witness:
  "\<forall>L. \<exists>db'. ledger_run L (\<lambda>_ _. False) demo_savings [Clear_Expired_Orders, Expire_Escrow_Ratification, Process_Savings_Withdraws] db'
    \<and> wf_db db' \<and> withdraws_counted db' \<and> escrows_ok db' \<and> (\<forall>s. gap s db' = gap s demo_savings)"
proof
  fix L
  have "escrows_ok demo_savings" by (simp add: escrows_ok_def demo_savings_defs t_all_def)
  then show "\<exists>db'. ledger_run L (\<lambda>_ _. False) demo_savings [Clear_Expired_Orders, Expire_Escrow_Ratification, Process_Savings_Withdraws] db'
    \<and> wf_db db' \<and> withdraws_counted db' \<and> escrows_ok db' \<and> (\<forall>s. gap s db' = gap s demo_savings)"
    using demo_ledger_run ledger_run_invariant [OF _ demo_savings_wf demo_savings_counted] by blast
qed

end
